(* ===== verification/Agent_Prelude.thy ===== *)
theory Agent_Prelude
  imports Complex_Main "HOL-Library.Word" "HOL-Library.Char_ord" "HOL-Library.List_Lexorder"
begin

text \<open>
  Shared vocabulary of the development: Go's strings as byte lists (\<^typ>\<open>string\<close>) with the
  functions of the packages \<open>strings\<close> and \<open>strconv\<close> the agent calls, Go's fixed-width integers
  over \<^typ>\<open>int\<close>, durations and instants in nanoseconds, and the generic lemmas the component
  theories share.

  A \<^typ>\<open>string\<close> is a list of 8-bit characters, that is, exactly the bytes of a Go string.
  White space is Go's \<open>unicode.IsSpace\<close> on UTF-8 text: the ASCII blanks and the UTF-8 encodings of
  U+0085, U+00A0, U+1680, U+2000 to U+200A, U+2028, U+2029, U+202F, U+205F and U+3000. Their lead
  bytes never occur inside another rune, so that stripping encodings is decoding rune by rune.
  Case conversion maps the ASCII letters and the non-ASCII runes whose image is an ASCII letter
  (U+0130 and U+212A to lower case; U+017F and U+212A for \<open>EqualFold\<close>). This decides every
  comparison with an ASCII constant as Go does; the case of other non-ASCII letters is left alone.
\<close>

named_theorems go_eval \<open>unfolding of constants and small helpers for evaluation\<close>
named_theorems time_defs \<open>numeric values of the durations of the source\<close>

subsection \<open>Fixed-width integers\<close>

text \<open>\<open>int64\<close> arithmetic: the exact result reduced to two's complement.\<close>

definition maxInt64 :: int where
  [go_eval]: "maxInt64 = 9223372036854775807"

definition minInt64 :: int where
  [go_eval]: "minInt64 = - 9223372036854775808"

definition wrap64 :: "int \<Rightarrow> int" where
  [go_eval]: "wrap64 x = (x + 9223372036854775808) mod 18446744073709551616 - 9223372036854775808"

definition fits64 :: "int \<Rightarrow> bool" where
  [go_eval]: "fits64 x \<longleftrightarrow> minInt64 \<le> x \<and> x \<le> maxInt64"

lemma wrap64_fits [simp, intro]: "fits64 (wrap64 x)"
proof -
  have "0 \<le> (x + 9223372036854775808) mod 18446744073709551616"
    and "(x + 9223372036854775808) mod 18446744073709551616 < 18446744073709551616"
    by simp_all
  then show ?thesis by (simp add: fits64_def wrap64_def minInt64_def maxInt64_def)
qed

lemma wrap64_id [simp]: "fits64 x \<Longrightarrow> wrap64 x = x"
  by (simp add: wrap64_def fits64_def minInt64_def maxInt64_def)

text \<open>Go's integer division truncates towards zero.\<close>

definition go_div :: "int \<Rightarrow> int \<Rightarrow> int" where
  [go_eval]: "go_div a b = sgn a * sgn b * (\<bar>a\<bar> div \<bar>b\<bar>)"

lemma go_div_nonneg [simp]: "0 \<le> a \<Longrightarrow> 0 < b \<Longrightarrow> go_div a b = a div b"
  by (cases "a = 0") (simp_all add: go_div_def)

subsection \<open>Durations and instants\<close>

text \<open>
  A \<open>time.Duration\<close> is its number of nanoseconds; a \<open>time.Time\<close> is its number of nanoseconds since
  the Unix epoch. \<open>Time.Sub\<close> saturates at the bounds of a duration, \<open>Time.UnixNano\<close> wraps.
\<close>

type_synonym duration = int
type_synonym instant = int

definition Nanosecond :: duration where [time_defs, go_eval]: "Nanosecond = 1"
definition Millisecond :: duration where [time_defs, go_eval]: "Millisecond = 1000000"
definition Second :: duration where [time_defs, go_eval]: "Second = 1000000000"
definition Minute :: duration where [time_defs, go_eval]: "Minute = 60000000000"
definition Hour :: duration where [time_defs, go_eval]: "Hour = 3600000000000"

definition time_sub :: "instant \<Rightarrow> instant \<Rightarrow> duration" where
  [go_eval]: "time_sub t u =
     (if t - u < minInt64 then minInt64 else if t - u > maxInt64 then maxInt64 else t - u)"

definition UnixNano :: "instant \<Rightarrow> int" where
  [go_eval]: "UnixNano t = wrap64 t"

lemma time_sub_fits [simp]: "fits64 (time_sub t u)"
  by (simp add: time_sub_def fits64_def minInt64_def maxInt64_def)

lemma time_sub_exact: "fits64 (t - u) \<Longrightarrow> time_sub t u = t - u"
  by (simp add: time_sub_def fits64_def minInt64_def maxInt64_def)

lemma time_sub_less_iff: "d \<le> maxInt64 \<Longrightarrow> minInt64 < d \<Longrightarrow> time_sub t u < d \<longleftrightarrow> t - u < d"
  by (simp add: time_sub_def minInt64_def maxInt64_def)

subsection \<open>Byte strings: white space, prefixes, suffixes, cuts\<close>

text \<open>The encodings of the white-space runes, each a non-empty byte list.\<close>

definition space_runes :: "string list" where
  [go_eval]: "space_runes =
     [[CHR 0x09], [CHR 0x0A], [CHR 0x0B], [CHR 0x0C], [CHR 0x0D], [CHR 0x20],
      [CHR 0xC2, CHR 0x85], [CHR 0xC2, CHR 0xA0], [CHR 0xE1, CHR 0x9A, CHR 0x80],
      [CHR 0xE2, CHR 0x80, CHR 0x80], [CHR 0xE2, CHR 0x80, CHR 0x81],
      [CHR 0xE2, CHR 0x80, CHR 0x82], [CHR 0xE2, CHR 0x80, CHR 0x83],
      [CHR 0xE2, CHR 0x80, CHR 0x84], [CHR 0xE2, CHR 0x80, CHR 0x85],
      [CHR 0xE2, CHR 0x80, CHR 0x86], [CHR 0xE2, CHR 0x80, CHR 0x87],
      [CHR 0xE2, CHR 0x80, CHR 0x88], [CHR 0xE2, CHR 0x80, CHR 0x89],
      [CHR 0xE2, CHR 0x80, CHR 0x8A], [CHR 0xE2, CHR 0x80, CHR 0xA8],
      [CHR 0xE2, CHR 0x80, CHR 0xA9], [CHR 0xE2, CHR 0x80, CHR 0xAF],
      [CHR 0xE2, CHR 0x81, CHR 0x9F], [CHR 0xE3, CHR 0x80, CHR 0x80]]"

primrec has_prefix :: "string \<Rightarrow> string \<Rightarrow> bool" where
  "has_prefix s [] = True"
| "has_prefix s (p # ps) = (case s of [] \<Rightarrow> False | c # cs \<Rightarrow> c = p \<and> has_prefix cs ps)"

definition HasPrefix :: "string \<Rightarrow> string \<Rightarrow> bool" where
  "HasPrefix s p = has_prefix s p"

definition HasSuffix :: "string \<Rightarrow> string \<Rightarrow> bool" where
  "HasSuffix s p = has_prefix (rev s) (rev p)"

text \<open>The rest after the first matching rune encoding, if one is a prefix.\<close>

fun strip_one :: "string list \<Rightarrow> string \<Rightarrow> string option" where
  "strip_one [] s = None"
| "strip_one (r # rs) s = (if has_prefix s r then Some (drop (length r) s) else strip_one rs s)"

lemma has_prefix_iff: "has_prefix s p \<longleftrightarrow> (\<exists>t. s = p @ t)"
proof (induction p arbitrary: s)
  case Nil
  show ?case by simp
next
  case (Cons a p)
  then show ?case by (cases s) auto
qed

lemma HasPrefix_iff: "HasPrefix s p \<longleftrightarrow> (\<exists>t. s = p @ t)"
  by (simp add: HasPrefix_def has_prefix_iff)

lemma HasSuffix_iff: "HasSuffix s p \<longleftrightarrow> (\<exists>t. s = t @ p)"
proof -
  have "(\<exists>t. rev s = rev p @ t) \<longleftrightarrow> (\<exists>t. s = t @ p)"
    by (metis rev_append rev_rev_ident)
  then show ?thesis by (simp add: HasSuffix_def has_prefix_iff)
qed

lemma HasSuffix_append [simp]: "HasSuffix (s @ p) p"
  by (auto simp: HasSuffix_iff)

lemma strip_one_shorter:
  "strip_one rs s = Some t \<Longrightarrow> [] \<notin> set rs \<Longrightarrow> length t < length s"
proof (induction rs)
  case (Cons r rs)
  then show ?case by (cases r) (auto simp: has_prefix_iff split: if_splits)
qed simp

lemma strip_one_space_shorter [termination_simp]:
  "strip_one space_runes s = Some t \<Longrightarrow> length t < length s"
  by (erule strip_one_shorter) (simp add: space_runes_def)

lemma strip_one_rev_space_shorter [termination_simp]:
  "strip_one (map rev space_runes) s = Some t \<Longrightarrow> length t < length s"
  by (erule strip_one_shorter) (simp add: space_runes_def)

function trim_left :: "string \<Rightarrow> string" where
  "trim_left s = (case strip_one space_runes s of None \<Rightarrow> s | Some t \<Rightarrow> trim_left t)"
  by pat_completeness auto
termination
  by (relation "measure length") (auto simp: strip_one_space_shorter)

text \<open>The same from the right, on the reversed string.\<close>

function trim_rev :: "string \<Rightarrow> string" where
  "trim_rev s = (case strip_one (map rev space_runes) s of None \<Rightarrow> s | Some t \<Rightarrow> trim_rev t)"
  by pat_completeness auto
termination
  by (relation "measure length") (auto simp: strip_one_rev_space_shorter)

declare trim_left.simps [simp del] trim_rev.simps [simp del]

definition TrimSpace :: "string \<Rightarrow> string" where
  "TrimSpace s = rev (trim_rev (rev (trim_left s)))"

lemma trim_left_Nil [simp]: "trim_left [] = []"
  by (subst trim_left.simps) (simp add: space_runes_def)

lemma trim_rev_Nil [simp]: "trim_rev [] = []"
  by (subst trim_rev.simps) (simp add: space_runes_def)

lemma TrimSpace_Nil [simp]: "TrimSpace [] = []"
  by (simp add: TrimSpace_def)

lemma trim_left_fixed: "strip_one space_runes (trim_left s) = None"
proof (induction s rule: trim_left.induct)
  case (1 s)
  then show ?case
    by (cases "strip_one space_runes s") (simp_all add: trim_left.simps [of s])
qed

lemma trim_rev_fixed: "strip_one (map rev space_runes) (trim_rev s) = None"
proof (induction s rule: trim_rev.induct)
  case (1 s)
  then show ?case
    by (cases "strip_one (map rev space_runes) s") (simp_all add: trim_rev.simps [of s])
qed

lemma strip_one_suffix: "strip_one rs s = Some t \<Longrightarrow> \<exists>r. s = r @ t"
  by (induction rs) (auto simp: has_prefix_iff split: if_splits)

lemma trim_rev_suffix: "\<exists>r. s = r @ trim_rev s"
proof (induction s rule: trim_rev.induct)
  case (1 s)
  show ?case
  proof (cases "strip_one (map rev space_runes) s")
    case None
    then show ?thesis by (simp add: trim_rev.simps [of s])
  next
    case (Some t)
    with "1" obtain r where "t = r @ trim_rev t" by blast
    moreover obtain q where "s = q @ t" using strip_one_suffix [OF Some] by blast
    moreover have "trim_rev s = trim_rev t" using Some by (simp add: trim_rev.simps [of s])
    ultimately have "s = (q @ r) @ trim_rev s" by simp
    then show ?thesis by blast
  qed
qed

lemma strip_one_None_iff: "strip_one rs s = None \<longleftrightarrow> (\<forall>r\<in>set rs. \<not> has_prefix s r)"
  by (induction rs) auto

text \<open>Cutting a trimmed string at the right keeps the left end trimmed.\<close>

lemma strip_one_None_prefix:
  assumes "strip_one rs (p @ q) = None"
  shows "strip_one rs p = None"
  using assms by (auto simp: strip_one_None_iff has_prefix_iff)

lemma TrimSpace_idem [simp]: "TrimSpace (TrimSpace s) = TrimSpace s"
proof -
  let ?l = "trim_left s" and ?r = "trim_rev (rev (trim_left s))"
  obtain q where "rev ?l = q @ ?r" using trim_rev_suffix by blast
  then have "?l = rev ?r @ rev q" by (metis rev_append rev_rev_ident)
  then have "strip_one space_runes (rev ?r) = None"
    using trim_left_fixed [of s] strip_one_None_prefix [of space_runes "rev ?r" "rev q"] by simp
  then have "trim_left (rev ?r) = rev ?r" by (subst trim_left.simps) simp
  moreover have "trim_rev ?r = ?r" by (subst trim_rev.simps) (simp add: trim_rev_fixed)
  ultimately show ?thesis by (simp add: TrimSpace_def)
qed

subsection \<open>Case conversion\<close>

definition ascii_lower :: "char \<Rightarrow> char" where
  [go_eval]: "ascii_lower c =
     (let n = (of_char c :: nat) in if 65 \<le> n \<and> n \<le> 90 then char_of (n + 32) else c)"

text \<open>U+0130 is C4 B0, U+212A (the Kelvin sign) is E2 84 AA, U+017F (long s) is C5 BF.\<close>

fun ToLower :: "string \<Rightarrow> string" where
  "ToLower [] = []"
| "ToLower (c # s) =
     (if c = CHR 0xC4 \<and> has_prefix s [CHR 0xB0] then CHR ''i'' # ToLower (drop 1 s)
      else if c = CHR 0xE2 \<and> has_prefix s [CHR 0x84, CHR 0xAA] then CHR ''k'' # ToLower (drop 2 s)
      else ascii_lower c # ToLower s)"

fun fold_case :: "string \<Rightarrow> string" where
  "fold_case [] = []"
| "fold_case (c # s) =
     (if c = CHR 0xC5 \<and> has_prefix s [CHR 0xBF] then CHR ''s'' # fold_case (drop 1 s)
      else if c = CHR 0xE2 \<and> has_prefix s [CHR 0x84, CHR 0xAA] then CHR ''k'' # fold_case (drop 2 s)
      else ascii_lower c # fold_case s)"

definition EqualFold :: "string \<Rightarrow> string \<Rightarrow> bool" where
  [go_eval]: "EqualFold s t \<longleftrightarrow> fold_case s = fold_case t"

lemma EqualFold_refl [simp]: "EqualFold s s"
  by (simp add: EqualFold_def)

subsection \<open>Numbers as text\<close>

fun dec_digits :: "nat \<Rightarrow> string" where
  "dec_digits n = (if n < 10 then [char_of (48 + n)] else dec_digits (n div 10) @ [char_of (48 + n mod 10)])"

declare dec_digits.simps [simp del]

definition Itoa :: "int \<Rightarrow> string" where
  "Itoa i = (if i < 0 then CHR ''-'' # dec_digits (nat (- i)) else dec_digits (nat i))"

text \<open>The verb \<open>%020d\<close>: zero-padded to twenty characters, the sign included.\<close>

definition pad20 :: "int \<Rightarrow> string" where
  "pad20 i =
     (let ds = dec_digits (nat \<bar>i\<bar>) in
      if i < 0 then CHR ''-'' # replicate (19 - length ds) CHR ''0'' @ ds
      else replicate (20 - length ds) CHR ''0'' @ ds)"

definition hex_digit :: "nat \<Rightarrow> char" where
  "hex_digit n = (if n < 10 then char_of (48 + n) else char_of (87 + n))"

definition hex_EncodeToString :: "string \<Rightarrow> string" where
  "hex_EncodeToString s =
     concat (map (\<lambda>c. let n = (of_char c :: nat) in [hex_digit (n div 16), hex_digit (n mod 16)]) s)"

lemma length_hex: "length (hex_EncodeToString s) = 2 * length s"
  by (induction s) (simp_all add: hex_EncodeToString_def Let_def)

end
