(* ===== verification/Probe_Target.thy ===== *)
theory Probe_Target
  imports Agent_Prelude
begin

text \<open>
  Probe targets and the Agent-side probe budget (\<open>internal/agent/types.go\<close>,
  \<open>internal/agent/probe.go\<close>): normalisation of a target received from the Controller, the
  per-target budget of \<open>SanitizeProbeTargets\<close>, the per-run budget of
  \<open>LimitProbeTargetsForRun\<close> and the run timeout. Go's \<open>int\<close> is an \<^typ>\<open>int\<close>: every value computed
  from an unbounded input is first clamped to at most 3600, so that no product or sum here
  leaves 32 bits.
\<close>

record ProbeTarget =
  target_ID :: string
  target_Name :: string
  target_Type :: string
  target_Address :: string
  target_Port :: "int option"
  target_Count :: int
  target_TimeoutMS :: int
  target_IntervalSec :: int

definition drawableLatencyCap :: duration where
  [go_eval, time_defs]: "drawableLatencyCap = 5 * Second"

definition pingCommandGrace :: duration where
  [go_eval, time_defs]: "pingCommandGrace = 250 * Millisecond"

definition maxProbeTargets :: nat where [go_eval]: "maxProbeTargets = 32"
definition maxProbeCount :: int where [go_eval]: "maxProbeCount = 32"
definition defaultProbeTimeoutMS :: int where [go_eval]: "defaultProbeTimeoutMS = 1000"
definition minProbeTimeoutMS :: int where [go_eval]: "minProbeTimeoutMS = 100"
definition maxProbeTimeoutMS :: int where [go_eval]: "maxProbeTimeoutMS = 5000"
definition defaultProbeIntervalSec :: int where [go_eval]: "defaultProbeIntervalSec = 60"
definition minProbeIntervalSec :: int where [go_eval]: "minProbeIntervalSec = 5"
definition maxProbeIntervalSec :: int where [go_eval]: "maxProbeIntervalSec = 60 * 60"
definition maxProbeSamplesPerRun :: int where [go_eval]: "maxProbeSamplesPerRun = 1024"
definition maxProbeTargetBudgetMS :: int where [go_eval]: "maxProbeTargetBudgetMS = 60000"
definition maxProbeNodeBudgetMS :: int where [go_eval]: "maxProbeNodeBudgetMS = 120000"

subsection \<open>Normalisation of single fields\<close>

definition normalizedProbeCount :: "int \<Rightarrow> int" where
  "normalizedProbeCount count =
     (if count \<le> 0 then 1 else if count > maxProbeCount then maxProbeCount else count)"

definition normalizedProbeTimeoutMS :: "int \<Rightarrow> int" where
  "normalizedProbeTimeoutMS timeoutMS =
     (if timeoutMS \<le> 0 then defaultProbeTimeoutMS
      else if timeoutMS < minProbeTimeoutMS then minProbeTimeoutMS
      else if timeoutMS > maxProbeTimeoutMS then maxProbeTimeoutMS
      else timeoutMS)"

definition normalizedProbeIntervalSec :: "int \<Rightarrow> int" where
  "normalizedProbeIntervalSec intervalSec =
     (if intervalSec \<le> 0 then defaultProbeIntervalSec
      else if intervalSec < minProbeIntervalSec then minProbeIntervalSec
      else if intervalSec > maxProbeIntervalSec then maxProbeIntervalSec
      else intervalSec)"

definition normalizedProbeTimeout :: "int \<Rightarrow> duration" where
  "normalizedProbeTimeout timeoutMS = normalizedProbeTimeoutMS timeoutMS * Millisecond"

definition latencyObservationTimeout :: "duration \<Rightarrow> duration" where
  "latencyObservationTimeout timeout =
     (if timeout \<le> 0 then defaultProbeTimeoutMS * Millisecond
      else if timeout > drawableLatencyCap then drawableLatencyCap
      else timeout)"

definition probeAttemptBudget :: "ProbeTarget \<Rightarrow> duration" where
  "probeAttemptBudget target =
     (let budget = latencyObservationTimeout (normalizedProbeTimeout (target_TimeoutMS target));
          kind = ToLower (TrimSpace (target_Type target))
      in if kind = ''ping'' \<or> kind = ''icmp'' then budget + pingCommandGrace else budget)"

definition probeSampleBudgetMS :: "ProbeTarget \<Rightarrow> int" where
  "probeSampleBudgetMS target = go_div (probeAttemptBudget target) Millisecond"

lemmas normalize_defs = normalizedProbeCount_def normalizedProbeTimeoutMS_def
  normalizedProbeIntervalSec_def maxProbeCount_def defaultProbeTimeoutMS_def minProbeTimeoutMS_def
  maxProbeTimeoutMS_def defaultProbeIntervalSec_def minProbeIntervalSec_def maxProbeIntervalSec_def

lemma normalizedProbeCount_bounds: "1 \<le> normalizedProbeCount n" "normalizedProbeCount n \<le> 32"
  by (simp_all add: normalize_defs)

lemma normalizedProbeTimeoutMS_bounds:
  "100 \<le> normalizedProbeTimeoutMS n" "normalizedProbeTimeoutMS n \<le> 5000"
  by (simp_all add: normalize_defs)

lemma normalizedProbeIntervalSec_bounds:
  "5 \<le> normalizedProbeIntervalSec n" "normalizedProbeIntervalSec n \<le> 3600"
  by (simp_all add: normalize_defs)

lemma normalizedProbeCount_id: "1 \<le> n \<Longrightarrow> n \<le> 32 \<Longrightarrow> normalizedProbeCount n = n"
  by (simp add: normalize_defs)

lemma normalize_idem [simp]:
  "normalizedProbeCount (normalizedProbeCount n) = normalizedProbeCount n"
  "normalizedProbeTimeoutMS (normalizedProbeTimeoutMS n) = normalizedProbeTimeoutMS n"
  "normalizedProbeIntervalSec (normalizedProbeIntervalSec n) = normalizedProbeIntervalSec n"
  by (simp_all add: normalize_defs)

text \<open>The budget in milliseconds: the normalised timeout, plus the grace for the ping utility.\<close>

definition is_ping_type :: "string \<Rightarrow> bool" where
  "is_ping_type ty \<longleftrightarrow> ToLower (TrimSpace ty) \<in> {''ping'', ''icmp''}"

lemma latencyObservationTimeout_normalized:
  "latencyObservationTimeout (normalizedProbeTimeout n) = normalizedProbeTimeoutMS n * 1000000"
  using normalizedProbeTimeoutMS_bounds [of n]
  by (simp add: latencyObservationTimeout_def normalizedProbeTimeout_def time_defs)

lemma probeSampleBudgetMS_eq:
  "probeSampleBudgetMS t =
     normalizedProbeTimeoutMS (target_TimeoutMS t) + (if is_ping_type (target_Type t) then 250 else 0)"
  using normalizedProbeTimeoutMS_bounds [of "target_TimeoutMS t"]
  by (auto simp: probeSampleBudgetMS_def probeAttemptBudget_def latencyObservationTimeout_normalized
      is_ping_type_def Let_def time_defs)

lemma probeSampleBudgetMS_bounds: "100 \<le> probeSampleBudgetMS t" "probeSampleBudgetMS t \<le> 5250"
  using normalizedProbeTimeoutMS_bounds [of "target_TimeoutMS t"]
  by (simp_all add: probeSampleBudgetMS_eq)

subsection \<open>SanitizeProbeTargets\<close>

text \<open>The body of the loop for one target; the loop copies the target, so the input is not written.\<close>

definition sanitize_target :: "ProbeTarget \<Rightarrow> ProbeTarget" where
  "sanitize_target target0 =
     (let target = target0
            \<lparr>target_Count := normalizedProbeCount (target_Count target0),
             target_TimeoutMS := normalizedProbeTimeoutMS (target_TimeoutMS target0),
             target_IntervalSec := normalizedProbeIntervalSec (target_IntervalSec target0)\<rparr>;
          maxCount = go_div maxProbeTargetBudgetMS (probeSampleBudgetMS target)
      in if target_Count target > maxCount then target\<lparr>target_Count := maxCount\<rparr> else target)"

definition SanitizeProbeTargets :: "ProbeTarget list \<Rightarrow> ProbeTarget list" where
  "SanitizeProbeTargets targets =
     (if targets = [] then []
      else map sanitize_target
        (if length targets > maxProbeTargets then take maxProbeTargets targets else targets))"

text \<open>What a sanitised target satisfies.\<close>

definition sane_target :: "ProbeTarget \<Rightarrow> bool" where
  "sane_target t \<longleftrightarrow>
     1 \<le> target_Count t \<and> target_Count t \<le> 32 \<and>
     100 \<le> target_TimeoutMS t \<and> target_TimeoutMS t \<le> 5000 \<and>
     5 \<le> target_IntervalSec t \<and> target_IntervalSec t \<le> 3600 \<and>
     target_Count t * probeSampleBudgetMS t \<le> 60000"

lemma SanitizeProbeTargets_eq: "SanitizeProbeTargets ts = map sanitize_target (take 32 ts)"
  by (simp add: SanitizeProbeTargets_def maxProbeTargets_def)

lemma budget_div_bound:
  fixes n m b :: int
  assumes "0 < b" and "n \<le> m div b"
  shows "n * b \<le> m"
proof -
  have "n * b \<le> m div b * b" using assms by (intro mult_right_mono) simp_all
  also have "\<dots> \<le> m" using assms(1) by (simp add: minus_mod_eq_div_mult [symmetric])
  finally show ?thesis .
qed

lemma le_budget_div:
  fixes n m b :: int
  assumes "0 < b" and "n * b \<le> m"
  shows "n \<le> m div b"
  using zdiv_mono1 [OF assms(2,1)] assms(1) by simp

lemma probeSampleBudgetMS_cong:
  "normalizedProbeTimeoutMS (target_TimeoutMS t) = normalizedProbeTimeoutMS (target_TimeoutMS u) \<Longrightarrow>
   target_Type t = target_Type u \<Longrightarrow> probeSampleBudgetMS t = probeSampleBudgetMS u"
  by (simp add: probeSampleBudgetMS_eq)

lemma sanitize_target_fields [simp]:
  "target_ID (sanitize_target t) = target_ID t"
  "target_Name (sanitize_target t) = target_Name t"
  "target_Type (sanitize_target t) = target_Type t"
  "target_Address (sanitize_target t) = target_Address t"
  "target_Port (sanitize_target t) = target_Port t"
  "target_TimeoutMS (sanitize_target t) = normalizedProbeTimeoutMS (target_TimeoutMS t)"
  "target_IntervalSec (sanitize_target t) = normalizedProbeIntervalSec (target_IntervalSec t)"
  by (simp_all add: sanitize_target_def Let_def)

lemma sanitize_target_budget [simp]:
  "probeSampleBudgetMS (sanitize_target t) = probeSampleBudgetMS t"
  by (rule probeSampleBudgetMS_cong) simp_all

lemma sanitize_target_Count:
  "target_Count (sanitize_target t) =
     min (normalizedProbeCount (target_Count t)) (60000 div probeSampleBudgetMS t)"
proof -
  have "probeSampleBudgetMS (t\<lparr>target_Count := c, target_TimeoutMS := normalizedProbeTimeoutMS (target_TimeoutMS t),
          target_IntervalSec := i\<rparr>) = probeSampleBudgetMS t" for c i
    by (rule probeSampleBudgetMS_cong) simp_all
  then show ?thesis
    using probeSampleBudgetMS_bounds [of t]
    by (simp add: sanitize_target_def Let_def maxProbeTargetBudgetMS_def min_def)
qed

lemma sane_sanitize_target: "sane_target (sanitize_target t)"
proof -
  let ?b = "probeSampleBudgetMS t"
  have b: "100 \<le> ?b" "?b \<le> 5250" by (rule probeSampleBudgetMS_bounds)+
  then have "1 \<le> 60000 div ?b" by (intro le_budget_div) simp_all
  moreover have "target_Count (sanitize_target t) * ?b \<le> 60000"
    using b by (intro budget_div_bound) (simp_all add: sanitize_target_Count)
  ultimately show ?thesis
    using normalizedProbeCount_bounds [of "target_Count t"]
      normalizedProbeTimeoutMS_bounds [of "target_TimeoutMS t"]
      normalizedProbeIntervalSec_bounds [of "target_IntervalSec t"]
    by (simp add: sane_target_def sanitize_target_Count)
qed

lemma sanitize_target_sane_id: "sane_target t \<Longrightarrow> sanitize_target t = t"
proof -
  assume s: "sane_target t"
  have b: "0 < probeSampleBudgetMS t" using probeSampleBudgetMS_bounds [of t] by simp
  have "target_Count t \<le> 60000 div probeSampleBudgetMS t"
    using s b by (intro le_budget_div) (simp_all add: sane_target_def)
  with s have "target_Count (sanitize_target t) = target_Count t"
    by (simp add: sane_target_def sanitize_target_Count normalizedProbeCount_id)
  with s show "sanitize_target t = t"
    by (intro ProbeTarget.equality) (simp_all add: sane_target_def normalize_defs)
qed

lemma SanitizeProbeTargets_sane: "t \<in> set (SanitizeProbeTargets ts) \<Longrightarrow> sane_target t"
  by (auto simp: SanitizeProbeTargets_eq sane_sanitize_target)

lemma SanitizeProbeTargets_id:
  "length ts \<le> 32 \<Longrightarrow> list_all sane_target ts \<Longrightarrow> SanitizeProbeTargets ts = ts"
  by (simp add: SanitizeProbeTargets_eq list_all_iff map_idI sanitize_target_sane_id)

lemma length_SanitizeProbeTargets: "length (SanitizeProbeTargets ts) = min 32 (length ts)"
  by (simp add: SanitizeProbeTargets_eq)

subsection \<open>LimitProbeTargetsForRun\<close>

text \<open>The loop over the sanitised targets with its two remaining budgets.\<close>

fun limit_loop :: "int \<Rightarrow> int \<Rightarrow> ProbeTarget list \<Rightarrow> ProbeTarget list" where
  "limit_loop remainingSamples remainingBudgetMS [] = []"
| "limit_loop remainingSamples remainingBudgetMS (target # rest) =
     (let sampleBudgetMS = probeSampleBudgetMS target in
      if remainingSamples \<le> 0 \<or> remainingBudgetMS < sampleBudgetMS then []
      else
        let target1 = (if target_Count target > remainingSamples
              then target\<lparr>target_Count := remainingSamples\<rparr> else target);
            maxCount = go_div remainingBudgetMS sampleBudgetMS;
            target2 = (if target_Count target1 > maxCount
              then target1\<lparr>target_Count := maxCount\<rparr> else target1)
        in if target_Count target2 \<le> 0 then limit_loop remainingSamples remainingBudgetMS rest
           else target2 # limit_loop (remainingSamples - target_Count target2)
                  (remainingBudgetMS - target_Count target2 * sampleBudgetMS) rest)"

definition LimitProbeTargetsForRun :: "ProbeTarget list \<Rightarrow> ProbeTarget list" where
  "LimitProbeTargetsForRun targets =
     (let sanitized = SanitizeProbeTargets targets in
      if sanitized = [] then []
      else limit_loop maxProbeSamplesPerRun maxProbeNodeBudgetMS sanitized)"

definition ProbeRunTimeout :: "ProbeTarget list \<Rightarrow> duration" where
  "ProbeRunTimeout targets0 =
     (let targets = LimitProbeTargetsForRun targets0 in
      if targets = [] then 0
      else
        let totalMS = (\<Sum>target\<leftarrow>targets.
              normalizedProbeCount (target_Count target) * probeSampleBudgetMS target)
        in if totalMS \<le> 0 then drawableLatencyCap else totalMS * Millisecond + Second)"

definition probeUploadTimeout :: duration where
  [go_eval, time_defs]: "probeUploadTimeout = 30 * Second"

definition ProbeUploadTimeout :: duration where
  "ProbeUploadTimeout = probeUploadTimeout"

text \<open>The samples and the worst-case execution time of a list of targets.\<close>

definition run_samples :: "ProbeTarget list \<Rightarrow> int" where
  "run_samples ts = (\<Sum>t\<leftarrow>ts. target_Count t)"

definition run_budget_ms :: "ProbeTarget list \<Rightarrow> int" where
  "run_budget_ms ts = (\<Sum>t\<leftarrow>ts. target_Count t * probeSampleBudgetMS t)"

text \<open>
  On a sane target the two guards of the loop give the minimum of three counts, which is positive:
  the branch that skips a target is never taken.
\<close>

definition granted_count :: "int \<Rightarrow> int \<Rightarrow> ProbeTarget \<Rightarrow> int" where
  "granted_count rs rb t = min (min (target_Count t) rs) (rb div probeSampleBudgetMS t)"

lemma count_update_same [simp]: "t\<lparr>target_Count := target_Count t\<rparr> = t"
  by simp

lemma budget_count_update [simp]:
  "probeSampleBudgetMS (t\<lparr>target_Count := c\<rparr>) = probeSampleBudgetMS t"
  by (rule probeSampleBudgetMS_cong) simp_all

lemma granted_count_pos:
  assumes "sane_target t" "0 < rs" "probeSampleBudgetMS t \<le> rb"
  shows "1 \<le> granted_count rs rb t"
proof -
  have b: "0 < probeSampleBudgetMS t" using probeSampleBudgetMS_bounds [of t] by simp
  then have "1 \<le> rb div probeSampleBudgetMS t" using assms(3) by (intro le_budget_div) simp_all
  then show ?thesis using assms by (simp add: granted_count_def sane_target_def)
qed

lemma granted_count_le:
  assumes "probeSampleBudgetMS t \<le> rb"
  shows "granted_count rs rb t \<le> target_Count t" "granted_count rs rb t \<le> rs"
    "granted_count rs rb t * probeSampleBudgetMS t \<le> rb"
proof -
  have b: "0 < probeSampleBudgetMS t" using probeSampleBudgetMS_bounds [of t] by simp
  show "granted_count rs rb t * probeSampleBudgetMS t \<le> rb"
    using b by (rule budget_div_bound) (simp add: granted_count_def)
qed (simp_all add: granted_count_def)

lemma limit_loop_Cons_sane:
  assumes "sane_target t"
  shows "limit_loop rs rb (t # ts) =
    (if rs \<le> 0 \<or> rb < probeSampleBudgetMS t then []
     else t\<lparr>target_Count := granted_count rs rb t\<rparr> #
       limit_loop (rs - granted_count rs rb t)
         (rb - granted_count rs rb t * probeSampleBudgetMS t) ts)"
proof (cases "rs \<le> 0 \<or> rb < probeSampleBudgetMS t")
  case True
  then show ?thesis by (auto simp: Let_def)
next
  case False
  have "0 < probeSampleBudgetMS t" using probeSampleBudgetMS_bounds [of t] by simp
  moreover from False assms have "1 \<le> granted_count rs rb t" by (intro granted_count_pos) simp_all
  ultimately show ?thesis using False
    by (simp add: Let_def granted_count_def min_def not_le not_less split: if_splits)
qed

lemma sane_count_update:
  assumes "sane_target t" "1 \<le> c" "c \<le> target_Count t"
  shows "sane_target (t\<lparr>target_Count := c\<rparr>)"
proof -
  have "c * probeSampleBudgetMS t \<le> target_Count t * probeSampleBudgetMS t"
    using assms probeSampleBudgetMS_bounds [of t] by (intro mult_right_mono) simp_all
  then show ?thesis using assms by (simp add: sane_target_def)
qed

lemma limit_loop_sane:
  "list_all sane_target ts \<Longrightarrow> list_all sane_target (limit_loop rs rb ts)"
proof (induction ts arbitrary: rs rb)
  case (Cons t ts)
  then show ?case
    by (simp add: limit_loop_Cons_sane del: limit_loop.simps(2))
      (simp add: sane_count_update granted_count_pos granted_count_le)
qed simp

lemma limit_loop_budgets:
  "list_all sane_target ts \<Longrightarrow> 0 \<le> rs \<Longrightarrow> 0 \<le> rb \<Longrightarrow>
   run_samples (limit_loop rs rb ts) \<le> rs \<and> run_budget_ms (limit_loop rs rb ts) \<le> rb"
proof (induction ts arbitrary: rs rb)
  case (Cons t ts)
  show ?case
  proof (cases "rs \<le> 0 \<or> rb < probeSampleBudgetMS t")
    case True
    with Cons.prems show ?thesis by (auto simp: run_samples_def run_budget_ms_def Let_def)
  next
    case False
    let ?g = "granted_count rs rb t"
    have "?g \<le> rs" "?g * probeSampleBudgetMS t \<le> rb" using False by (simp_all add: granted_count_le)
    with Cons have "run_samples (limit_loop (rs - ?g) (rb - ?g * probeSampleBudgetMS t) ts) \<le> rs - ?g \<and>
        run_budget_ms (limit_loop (rs - ?g) (rb - ?g * probeSampleBudgetMS t) ts)
          \<le> rb - ?g * probeSampleBudgetMS t"
      by (intro Cons.IH) simp_all
    with False Cons.prems show ?thesis
      by (simp add: limit_loop_Cons_sane run_samples_def run_budget_ms_def del: limit_loop.simps(2))
  qed
qed (simp add: run_samples_def run_budget_ms_def)

text \<open>The loop keeps a prefix of the targets and changes nothing but counts, downwards.\<close>

definition count_reduced :: "ProbeTarget \<Rightarrow> ProbeTarget \<Rightarrow> bool" where
  "count_reduced t u \<longleftrightarrow> t = u\<lparr>target_Count := target_Count t\<rparr> \<and> target_Count t \<le> target_Count u"

lemma limit_loop_prefix:
  "list_all sane_target ts \<Longrightarrow>
   \<exists>k. list_all2 count_reduced (limit_loop rs rb ts) (take k ts)"
proof (induction ts arbitrary: rs rb)
  case (Cons t ts)
  show ?case
  proof (cases "rs \<le> 0 \<or> rb < probeSampleBudgetMS t")
    case True
    then have "list_all2 count_reduced (limit_loop rs rb (t # ts)) (take 0 (t # ts))"
      by (auto simp: Let_def)
    then show ?thesis by blast
  next
    case False
    let ?g = "granted_count rs rb t"
    obtain k where "list_all2 count_reduced
        (limit_loop (rs - ?g) (rb - ?g * probeSampleBudgetMS t) ts) (take k ts)"
      using Cons by fastforce
    with False Cons.prems have "list_all2 count_reduced (limit_loop rs rb (t # ts)) (take (Suc k) (t # ts))"
      by (simp add: limit_loop_Cons_sane count_reduced_def granted_count_le del: limit_loop.simps(2))
    then show ?thesis by blast
  qed
qed simp

lemma run_nonneg:
  "list_all sane_target ts \<Longrightarrow> 0 \<le> run_samples ts \<and> 0 \<le> run_budget_ms ts"
proof (induction ts)
  case (Cons t ts)
  then have "0 \<le> target_Count t" "0 \<le> target_Count t * probeSampleBudgetMS t"
    using probeSampleBudgetMS_bounds [of t] by (simp_all add: sane_target_def)
  with Cons show ?case by (simp add: run_samples_def run_budget_ms_def)
qed (simp add: run_samples_def run_budget_ms_def)

lemma limit_loop_fixed:
  "list_all sane_target ts \<Longrightarrow> run_samples ts \<le> rs \<Longrightarrow> run_budget_ms ts \<le> rb \<Longrightarrow>
   limit_loop rs rb ts = ts"
proof (induction ts arbitrary: rs rb)
  case (Cons t ts)
  let ?c = "target_Count t" and ?b = "probeSampleBudgetMS t"
  have nonneg: "0 \<le> run_samples ts" "0 \<le> run_budget_ms ts"
    using Cons.prems(1) run_nonneg by simp_all
  have c: "1 \<le> ?c" and b: "0 < ?b"
    using Cons.prems(1) probeSampleBudgetMS_bounds [of t] by (simp_all add: sane_target_def)
  have rs: "?c \<le> rs" and rb: "?c * ?b \<le> rb"
    using Cons.prems nonneg by (simp_all add: run_samples_def run_budget_ms_def)
  have "1 * ?b \<le> ?c * ?b" using b c by (intro mult_right_mono) simp_all
  with rb have "?b \<le> rb" by simp
  moreover have "granted_count rs rb t = ?c"
    using rs le_budget_div [OF b rb] by (simp add: granted_count_def)
  moreover have "limit_loop (rs - ?c) (rb - ?c * ?b) ts = ts"
    using Cons.prems by (intro Cons.IH) (simp_all add: run_samples_def run_budget_ms_def)
  ultimately show ?case
    using Cons.prems(1) c rs by (simp add: limit_loop_Cons_sane del: limit_loop.simps(2))
qed simp

lemma Limit_eq: "LimitProbeTargetsForRun ts = limit_loop 1024 120000 (SanitizeProbeTargets ts)"
  by (simp add: LimitProbeTargetsForRun_def Let_def maxProbeSamplesPerRun_def maxProbeNodeBudgetMS_def)

lemma all_sane_Sanitize: "list_all sane_target (SanitizeProbeTargets ts)"
  by (auto simp: list_all_iff SanitizeProbeTargets_sane)

lemma Limit_sane: "list_all sane_target (LimitProbeTargetsForRun ts)"
  by (simp add: Limit_eq limit_loop_sane all_sane_Sanitize)

lemma Limit_budgets:
  "run_samples (LimitProbeTargetsForRun ts) \<le> 1024" "run_budget_ms (LimitProbeTargetsForRun ts) \<le> 120000"
  using limit_loop_budgets [OF all_sane_Sanitize, of 1024 120000 ts] by (simp_all add: Limit_eq)

lemma length_Limit: "length (LimitProbeTargetsForRun ts) \<le> 32"
proof -
  obtain k where "list_all2 count_reduced (LimitProbeTargetsForRun ts) (take k (SanitizeProbeTargets ts))"
    using limit_loop_prefix [OF all_sane_Sanitize] unfolding Limit_eq by blast
  then show ?thesis
    by (auto dest!: list_all2_lengthD simp: length_SanitizeProbeTargets)
qed

lemma Limit_idem [simp]:
  "LimitProbeTargetsForRun (LimitProbeTargetsForRun ts) = LimitProbeTargetsForRun ts"
proof -
  let ?l = "LimitProbeTargetsForRun ts"
  have "SanitizeProbeTargets ?l = ?l" by (rule SanitizeProbeTargets_id [OF length_Limit Limit_sane])
  moreover have "limit_loop 1024 120000 ?l = ?l"
    by (rule limit_loop_fixed [OF Limit_sane Limit_budgets])
  ultimately show ?thesis by (simp add: Limit_eq [of ?l])
qed

lemma Limit_empty_iff: "LimitProbeTargetsForRun ts = [] \<longleftrightarrow> ts = []"
proof (cases ts)
  case (Cons t us)
  have "SanitizeProbeTargets ts = sanitize_target t # map sanitize_target (take 31 us)"
    by (simp add: Cons SanitizeProbeTargets_eq)
  then show ?thesis
    using Cons probeSampleBudgetMS_bounds [of t]
    by (simp add: Limit_eq limit_loop_Cons_sane sane_sanitize_target del: limit_loop.simps(2))
qed (simp add: Limit_eq SanitizeProbeTargets_eq)

text \<open>After \<open>SanitizeProbeTargets\<close> the counts are normalised already: the timeout is the budget plus 1s.\<close>

lemma ProbeRunTimeout_eq:
  assumes "ts \<noteq> []"
  shows "ProbeRunTimeout ts = run_budget_ms (LimitProbeTargetsForRun ts) * Millisecond + Second"
    and "0 < run_budget_ms (LimitProbeTargetsForRun ts)"
proof -
  let ?l = "LimitProbeTargetsForRun ts"
  have sum_eq: "(\<Sum>t\<leftarrow>?l. normalizedProbeCount (target_Count t) * probeSampleBudgetMS t) = run_budget_ms ?l"
    unfolding run_budget_ms_def
    using Limit_sane [of ts]
    by (intro arg_cong [where f = sum_list] map_cong refl)
      (simp add: list_all_iff sane_target_def normalizedProbeCount_id)
  have pos: "0 < run_budget_ms us" if "us \<noteq> []" "list_all sane_target us" for us
    using that
  proof (induction us rule: list_nonempty_induct)
    case (single t)
    then show ?case using probeSampleBudgetMS_bounds [of t]
      by (simp add: run_budget_ms_def sane_target_def)
  next
    case (cons t us)
    have "0 < target_Count t * probeSampleBudgetMS t"
      using cons.prems probeSampleBudgetMS_bounds [of t] by (simp add: sane_target_def)
    with cons show ?case by (simp add: run_budget_ms_def)
  qed
  show 2: "0 < run_budget_ms ?l" using assms Limit_sane by (intro pos) (simp_all add: Limit_empty_iff)
  show "ProbeRunTimeout ts = run_budget_ms ?l * Millisecond + Second"
    using assms 2 sum_eq by (simp add: ProbeRunTimeout_def Let_def Limit_empty_iff)
qed

subsection \<open>Properties\<close>

text \<open>C9: The targets of a run respect every budget of the agent, whatever the Controller sent: at most 32
  targets, 1024 samples and 120 seconds of attempts in total, and each target within its own bounds of count,
  timeout, interval and budget.\<close>

theorem run_within_budget:
  "length (LimitProbeTargetsForRun ts) \<le> 32 \<and> run_samples (LimitProbeTargetsForRun ts) \<le> 1024 \<and>
   run_budget_ms (LimitProbeTargetsForRun ts) \<le> 120000 \<and> list_all sane_target (LimitProbeTargetsForRun ts)"
  by (simp add: length_Limit Limit_budgets Limit_sane)

text \<open>The limiter drops targets from the end only and otherwise lowers nothing but sample counts; a
  non-empty configuration never becomes an empty run.\<close>

theorem run_keeps_prefix:
  "(\<exists>k. list_all2 count_reduced (LimitProbeTargetsForRun ts) (take k (SanitizeProbeTargets ts))) \<and>
   (LimitProbeTargetsForRun ts = [] \<longleftrightarrow> ts = [])"
  using limit_loop_prefix [OF all_sane_Sanitize] by (simp add: Limit_empty_iff) (simp add: Limit_eq)

text \<open>Sanitising and limiting are idempotent, so that applying them in the client, in the manager and again
  in \<open>ProbeTargets\<close> and \<open>ProbeRunTimeout\<close> gives one and the same list.\<close>

theorem limit_idempotent:
  "LimitProbeTargetsForRun (LimitProbeTargetsForRun ts) = LimitProbeTargetsForRun ts \<and>
   SanitizeProbeTargets (SanitizeProbeTargets ts) = SanitizeProbeTargets ts \<and>
   LimitProbeTargetsForRun (SanitizeProbeTargets ts) = LimitProbeTargetsForRun ts"
proof -
  have "SanitizeProbeTargets (SanitizeProbeTargets ts) = SanitizeProbeTargets ts"
    by (rule SanitizeProbeTargets_id) (simp_all add: length_SanitizeProbeTargets all_sane_Sanitize)
  then have "LimitProbeTargetsForRun (SanitizeProbeTargets ts) = LimitProbeTargetsForRun ts"
    by (simp only: Limit_eq)
  with \<open>SanitizeProbeTargets (SanitizeProbeTargets ts) = SanitizeProbeTargets ts\<close> show ?thesis by simp
qed

text \<open>The timeout of a run is the sum of the budgets of its attempts plus one second, hence at most 121
  seconds; only an empty configuration has the timeout 0.\<close>

theorem run_timeout_bound:
  "ProbeRunTimeout ts =
     (if ts = [] then 0 else run_budget_ms (LimitProbeTargetsForRun ts) * Millisecond + Second) \<and>
   0 \<le> ProbeRunTimeout ts \<and> ProbeRunTimeout ts \<le> 121 * Second"
proof (cases "ts = []")
  case True
  then show ?thesis by (simp add: ProbeRunTimeout_def LimitProbeTargetsForRun_def SanitizeProbeTargets_eq Let_def time_defs)
next
  case False
  then show ?thesis
    using ProbeRunTimeout_eq [OF False] Limit_budgets(2) [of ts] by (simp add: time_defs)
qed

end
