(* ===== verification/Probe_Scheduler.thy ===== *)
theory Probe_Scheduler
  imports Probe_Target
begin

text \<open>
  The probe scheduler (\<open>internal/agent/probe_scheduler.go\<close>): the instant of the last persisted
  probe of each target ID, and which targets are due. The interface a client needs is the locale
  \<open>probe_schedule\<close>; it is interpreted on the scheduler's own operations.
\<close>

record ProbeScheduler =
  lastCompleted :: "string \<rightharpoonup> instant"

definition NewProbeScheduler :: ProbeScheduler where
  "NewProbeScheduler = \<lparr>lastCompleted = Map.empty\<rparr>"

definition targetIntervalElapsed :: "ProbeTarget \<Rightarrow> instant \<Rightarrow> instant \<Rightarrow> bool" where
  "targetIntervalElapsed target last_at now =
     (let interval = normalizedProbeIntervalSec (target_IntervalSec target) * Second
      in \<not> now < last_at + interval)"

text \<open>The method on a nil receiver (\<^const>\<open>None\<close>) returns its argument.\<close>

definition Due :: "ProbeScheduler option \<Rightarrow> ProbeTarget list \<Rightarrow> instant \<Rightarrow> ProbeTarget list" where
  "Due s targets now =
     (case s of
        None \<Rightarrow> targets
      | Some sch \<Rightarrow> filter (\<lambda>target.
          case lastCompleted sch (target_ID target) of
            None \<Rightarrow> True
          | Some last_at \<Rightarrow> targetIntervalElapsed target last_at now) targets)"

fun mark_loop :: "(string \<rightharpoonup> instant) \<Rightarrow> ProbeTarget list \<Rightarrow> instant \<Rightarrow> (string \<rightharpoonup> instant)" where
  "mark_loop m [] now = m"
| "mark_loop m (target # rest) now =
     (if target_ID target = [] then mark_loop m rest now
      else mark_loop (m(target_ID target \<mapsto> now)) rest now)"

definition MarkCompleted :: "ProbeScheduler option \<Rightarrow> ProbeTarget list \<Rightarrow> instant \<Rightarrow> ProbeScheduler option" where
  "MarkCompleted s targets now =
     map_option (\<lambda>sch. sch\<lparr>lastCompleted := mark_loop (lastCompleted sch) targets now\<rparr>) s"

subsection \<open>The interface\<close>

text \<open>
  \<open>recorded s id\<close> is the instant the schedule \<open>s\<close> holds for \<open>id\<close>. A target is due when it has none
  or its interval has passed; marking records the instant for the named targets only.
\<close>

definition due_at :: "(string \<rightharpoonup> instant) \<Rightarrow> ProbeTarget \<Rightarrow> instant \<Rightarrow> bool" where
  "due_at m t now \<longleftrightarrow>
     (\<forall>last_at. m (target_ID t) = Some last_at \<longrightarrow>
        last_at + normalizedProbeIntervalSec (target_IntervalSec t) * Second \<le> now)"

locale probe_schedule =
  fixes recorded :: "'s \<Rightarrow> string \<Rightarrow> instant option"
    and fresh :: 's
    and due :: "'s \<Rightarrow> ProbeTarget list \<Rightarrow> instant \<Rightarrow> ProbeTarget list"
    and mark :: "'s \<Rightarrow> ProbeTarget list \<Rightarrow> instant \<Rightarrow> 's"
  assumes recorded_fresh: "recorded fresh x = None"
    and due_filter: "due s ts now = filter (\<lambda>t. due_at (recorded s) t now) ts"
    and recorded_mark: "recorded (mark s ts now) x =
      (if x \<noteq> [] \<and> x \<in> target_ID ` set ts then Some now else recorded s x)"
begin

lemma due_fresh: "due fresh ts now = ts"
  by (simp add: due_filter due_at_def recorded_fresh)

lemma due_subset: "set (due s ts now) \<subseteq> set ts"
  by (auto simp: due_filter)

text \<open>A marked target is not due before its interval has passed, and is due from then on.\<close>

lemma marked_due_iff:
  assumes "t \<in> set us" "t \<in> set ts" "target_ID t \<noteq> []"
  shows "t \<in> set (due (mark s ts now) us later) \<longleftrightarrow>
    now + normalizedProbeIntervalSec (target_IntervalSec t) * Second \<le> later"
  using assms by (auto simp: due_filter due_at_def recorded_mark)

lemma unmarked_unchanged:
  assumes "target_ID t \<notin> target_ID ` set ts"
  shows "t \<in> set (due (mark s ts now) us later) \<longleftrightarrow> t \<in> set (due s us later)"
  using assms by (auto simp: due_filter due_at_def recorded_mark)

lemma recorded_mark_keys:
  "{x. recorded (mark s ts now) x \<noteq> None} \<subseteq> {x. recorded s x \<noteq> None} \<union> target_ID ` set ts"
  by (auto simp: recorded_mark split: if_splits)

text \<open>A target with an empty ID is never recorded, hence due at every instant.\<close>

lemma empty_id_always_due:
  assumes "recorded s [] = None" "t \<in> set us" "target_ID t = []"
  shows "t \<in> set (due (mark s ts now) us later)"
  using assms by (simp add: due_filter due_at_def recorded_mark)

end

lemma mark_loop_apply:
  "mark_loop m ts now x = (if x \<noteq> [] \<and> x \<in> target_ID ` set ts then Some now else m x)"
  by (induction ts arbitrary: m x) simp_all

definition sched_due :: "ProbeScheduler \<Rightarrow> ProbeTarget list \<Rightarrow> instant \<Rightarrow> ProbeTarget list" where
  "sched_due s = Due (Some s)"

definition sched_mark :: "ProbeScheduler \<Rightarrow> ProbeTarget list \<Rightarrow> instant \<Rightarrow> ProbeScheduler" where
  "sched_mark s ts now = the (MarkCompleted (Some s) ts now)"

interpretation ps: probe_schedule lastCompleted NewProbeScheduler sched_due sched_mark
proof unfold_locales
  fix s ts now
  show "sched_due s ts now = filter (\<lambda>t. due_at (lastCompleted s) t now) ts"
    by (auto simp: sched_due_def Due_def due_at_def targetIntervalElapsed_def Let_def
        intro!: filter_cong split: option.split)
qed (simp_all add: NewProbeScheduler_def sched_mark_def MarkCompleted_def mark_loop_apply)

subsection \<open>Properties\<close>

text \<open>A target with an ID that was recorded as completed is not due again before its normalised interval has
  passed, and is due from then on.\<close>

theorem due_after_mark:
  assumes "t \<in> set us" "t \<in> set ts" "target_ID t \<noteq> []"
  shows "t \<in> set (Due (MarkCompleted (Some s) ts now) us later) \<longleftrightarrow>
    now + normalizedProbeIntervalSec (target_IntervalSec t) * Second \<le> later"
proof -
  have "Due (MarkCompleted (Some s) ts now) us later = sched_due (sched_mark s ts now) us later"
    by (simp add: sched_due_def sched_mark_def MarkCompleted_def)
  then show ?thesis using ps.marked_due_iff [OF assms] by simp
qed

definition example_target :: "string \<Rightarrow> ProbeTarget" where
  "example_target ident =
     \<lparr>target_ID = ident, target_Name = ''edge'', target_Type = ''tcp'', target_Address = ''192.0.2.1'',
      target_Port = Some 443, target_Count = 3, target_TimeoutMS = 1000, target_IntervalSec = 60\<rparr>"

theorem due_after_mark_witness:
  "\<not> example_target ''a'' \<in> set (Due (MarkCompleted (Some NewProbeScheduler) [example_target ''a''] 0)
      [example_target ''a''] (59 * Second)) \<and>
   example_target ''a'' \<in> set (Due (MarkCompleted (Some NewProbeScheduler) [example_target ''a''] 0)
      [example_target ''a''] (60 * Second))"
  using due_after_mark [of "example_target ''a''" "[example_target ''a'']" "[example_target ''a'']" NewProbeScheduler 0]
  by (simp add: example_target_def normalize_defs time_defs)

text \<open>C40: A target whose ID is empty is never recorded as completed: it is due at every instant, however
  recently it ran, so that the minimum probe interval does not apply to it.\<close>

theorem empty_id_due_at_once:
  assumes "lastCompleted s [] = None" "t \<in> set us" "target_ID t = []"
  shows "t \<in> set (Due (MarkCompleted (Some s) ts now) us later)"
proof -
  have "Due (MarkCompleted (Some s) ts now) us later = sched_due (sched_mark s ts now) us later"
    by (simp add: sched_due_def sched_mark_def MarkCompleted_def)
  then show ?thesis using ps.empty_id_always_due [OF assms] by simp
qed

theorem empty_id_due_at_once_witness:
  "example_target [] \<in> set (Due (MarkCompleted (Some NewProbeScheduler) [example_target []] 0) [example_target []] 1)"
  using empty_id_due_at_once [of NewProbeScheduler "example_target []" "[example_target []]"]
  by (simp add: NewProbeScheduler_def example_target_def)

end
