(* ===== verification/Target_Manager.thy ===== *)
theory Target_Manager
  imports Probe_Scheduler
begin

text \<open>
  The probe target manager of \<open>cmd/zeno-agent/main.go\<close>: the current probe configuration with its
  version and generation, the two one-token gates, and the operations on them. Each definition is
  one critical section of the manager's mutex; their interleaving is in \<open>Manager_Steps\<close>.
  \<open>int64\<close> versions are \<^typ>\<open>int\<close>s (they are compared only), the \<open>uint64\<close> generation is a
  \<^typ>\<open>64 word\<close>.
\<close>

record probeTargetManager =
  refreshGate :: bool  \<comment> \<open>the token is in the channel\<close>
  runGate :: bool
  targets :: "ProbeTarget list"
  version :: int
  initialized :: bool
  generation :: "64 word"
  scheduler :: ProbeScheduler

record probeTargetBatch =
  batch_targets :: "ProbeTarget list"
  batch_version :: int
  batch_generation :: "64 word"

record ProbeTargetsResponse =
  resp_Targets :: "ProbeTarget list"
  resp_Version :: int

datatype manager_error =
    InvalidVersion int
  | ZeroOverwrites int
  | OlderThanCurrent int int
  | DifferentContent int
  | InvalidRequested int
  | OlderThanRequested int int
  | ContextDone
  | FetchFailed

definition newProbeTargetManager :: probeTargetManager where
  "newProbeTargetManager =
     \<lparr>refreshGate = True, runGate = True, targets = [], version = 0, initialized = False,
      generation = 0, scheduler = NewProbeScheduler\<rparr>"

definition currentVersion :: "probeTargetManager \<Rightarrow> int \<times> bool" where
  "currentVersion m = (version m, initialized m)"

definition sameProbeTarget :: "ProbeTarget \<Rightarrow> ProbeTarget \<Rightarrow> bool" where
  "sameProbeTarget left right =
     (if target_ID left \<noteq> target_ID right \<or> target_Name left \<noteq> target_Name right \<or>
         target_Type left \<noteq> target_Type right \<or> target_Address left \<noteq> target_Address right \<or>
         target_Count left \<noteq> target_Count right \<or> target_TimeoutMS left \<noteq> target_TimeoutMS right \<or>
         target_IntervalSec left \<noteq> target_IntervalSec right then False
      else case (target_Port left, target_Port right) of
        (Some p, Some q) \<Rightarrow> p = q
      | (p, q) \<Rightarrow> p = None \<and> q = None)"

fun sameProbeTargets_loop :: "ProbeTarget list \<Rightarrow> ProbeTarget list \<Rightarrow> bool" where
  "sameProbeTargets_loop (l # ls) (r # rs) = (sameProbeTarget l r \<and> sameProbeTargets_loop ls rs)"
| "sameProbeTargets_loop _ _ = True"

definition sameProbeTargets :: "ProbeTarget list \<Rightarrow> ProbeTarget list \<Rightarrow> bool" where
  "sameProbeTargets left right = (length left = length right \<and> sameProbeTargets_loop left right)"

definition update :: "probeTargetManager \<Rightarrow> ProbeTarget list \<Rightarrow> int \<Rightarrow> manager_error + probeTargetManager" where
  "update m new_targets v =
     (if v < 0 then Inl (InvalidVersion v)
      else let sanitized = SanitizeProbeTargets new_targets in
        if initialized m \<and> version m > 0 \<and> v = 0 then Inl (ZeroOverwrites (version m))
        else if initialized m \<and> v < version m then Inl (OlderThanCurrent v (version m))
        else if initialized m \<and> version m > 0 \<and> v = version m \<and> \<not> sameProbeTargets (targets m) sanitized
        then Inl (DifferentContent v)
        else
          let changed = (v \<noteq> version m \<or> \<not> sameProbeTargets (targets m) sanitized);
              m1 = m\<lparr>targets := sanitized, initialized := True\<rparr>
          in Inr (if changed
                  then m1\<lparr>scheduler := NewProbeScheduler, version := v, generation := generation m1 + 1\<rparr>
                  else m1))"

definition due :: "probeTargetManager \<Rightarrow> instant \<Rightarrow> probeTargetBatch" where
  "due m now =
     (if targets m = []
      then \<lparr>batch_targets = [], batch_version = version m, batch_generation = generation m\<rparr>
      else \<lparr>batch_targets = LimitProbeTargetsForRun (Due (Some (scheduler m)) (targets m) now),
            batch_version = version m, batch_generation = generation m\<rparr>)"

definition isCurrent :: "probeTargetManager \<Rightarrow> probeTargetBatch \<Rightarrow> bool" where
  "isCurrent m batch \<longleftrightarrow> batch_generation batch = generation m \<and> batch_version batch = version m"

definition markCompleted :: "probeTargetManager \<Rightarrow> probeTargetBatch \<Rightarrow> instant \<Rightarrow> bool \<times> probeTargetManager" where
  "markCompleted m batch now =
     (if batch_generation batch \<noteq> generation m \<or> batch_version batch \<noteq> version m then (False, m)
      else (True, m\<lparr>scheduler := the (MarkCompleted (Some (scheduler m)) (batch_targets batch) now)\<rparr>))"

text \<open>
  \<open>beginRefresh\<close> and \<open>beginRun\<close> take the token of their gate or return the context's error; which
  one wins when both are possible is up to the scheduler, so it is an argument here.
\<close>

definition beginRefresh :: "probeTargetManager \<Rightarrow> bool \<Rightarrow> (manager_error + probeTargetManager) option" where
  "beginRefresh m ctx_wins =
     (if ctx_wins then Some (Inl ContextDone)
      else if refreshGate m then Some (Inr (m\<lparr>refreshGate := False\<rparr>)) else None)"

definition endRefresh :: "probeTargetManager \<Rightarrow> probeTargetManager" where
  "endRefresh m = m\<lparr>refreshGate := True\<rparr>"

definition beginRun :: "probeTargetManager \<Rightarrow> bool \<Rightarrow> (manager_error + probeTargetManager) option" where
  "beginRun m ctx_wins =
     (if ctx_wins then Some (Inl ContextDone)
      else if runGate m then Some (Inr (m\<lparr>runGate := False\<rparr>)) else None)"

definition endRun :: "probeTargetManager \<Rightarrow> probeTargetManager" where
  "endRun m = m\<lparr>runGate := True\<rparr>"

text \<open>
  \<open>Client.FetchProbeConfig\<close>: the Controller's answer with its targets sanitised, or the error of the
  request. \<open>answer\<close> is what \<open>doJSON\<close> decoded.
\<close>

definition FetchProbeConfig :: "ProbeTargetsResponse option \<Rightarrow> manager_error + ProbeTargetsResponse" where
  "FetchProbeConfig answer =
     (case answer of
        None \<Rightarrow> Inl FetchFailed
      | Some r \<Rightarrow> Inr (r\<lparr>resp_Targets := SanitizeProbeTargets (resp_Targets r)\<rparr>))"

definition FetchProbeTargets :: "ProbeTargetsResponse option \<Rightarrow> manager_error + ProbeTarget list" where
  "FetchProbeTargets answer =
     (case FetchProbeConfig answer of Inl e \<Rightarrow> Inl e | Inr response \<Rightarrow> Inr (resp_Targets response))"

text \<open>
  \<open>refreshProbeTargets\<close> from the point where the gate is held, and the fast path of the closure
  \<open>refreshProbeConfig\<close> of \<open>runAgent\<close> in front of it. The gate excludes other refreshers, so the
  manager's configuration does not change between the check and the update.
\<close>

definition refresh_held ::
  "ProbeTargetsResponse option \<Rightarrow> int \<Rightarrow> probeTargetManager \<Rightarrow> (manager_error + int) \<times> probeTargetManager" where
  "refresh_held answer requestedVersion m =
     (if requestedVersion > 0 \<and> initialized m \<and> version m \<ge> requestedVersion
      then (Inr (version m), m)
      else case FetchProbeConfig answer of
        Inl e \<Rightarrow> (Inl e, m)
      | Inr response \<Rightarrow>
          if requestedVersion > 0 \<and> resp_Version response < requestedVersion
          then (Inl (OlderThanRequested (resp_Version response) requestedVersion), m)
          else (case update m (resp_Targets response) (resp_Version response) of
              Inl e \<Rightarrow> (Inl e, m)
            | Inr m' \<Rightarrow> (Inr (resp_Version response), m')))"

definition refreshProbeTargets ::
  "bool \<Rightarrow> ProbeTargetsResponse option \<Rightarrow> int \<Rightarrow> probeTargetManager \<Rightarrow>
   ((manager_error + int) \<times> probeTargetManager) option" where
  "refreshProbeTargets ctx_wins answer requestedVersion m =
     (if requestedVersion < 0 then Some (Inl (InvalidRequested requestedVersion), m)
      else case beginRefresh m ctx_wins of
        None \<Rightarrow> None
      | Some (Inl e) \<Rightarrow> Some (Inl e, m)
      | Some (Inr m1) \<Rightarrow>
          let (r, m2) = refresh_held answer requestedVersion m1 in Some (r, endRefresh m2))"

definition refreshProbeConfig ::
  "bool \<Rightarrow> ProbeTargetsResponse option \<Rightarrow> int \<Rightarrow> probeTargetManager \<Rightarrow>
   ((manager_error + int) \<times> probeTargetManager) option" where
  "refreshProbeConfig ctx_wins answer requestedVersion m =
     (if requestedVersion > 0 \<and> initialized m \<and> version m \<ge> requestedVersion
      then Some (Inr (version m), m)
      else refreshProbeTargets ctx_wins answer requestedVersion m)"

subsection \<open>Equality of configurations\<close>

lemma sameProbeTarget_iff [simp]: "sameProbeTarget l r \<longleftrightarrow> l = r"
proof
  assume "sameProbeTarget l r"
  then show "l = r"
    by (intro ProbeTarget.equality) (auto simp: sameProbeTarget_def split: if_splits option.splits)
qed (auto simp: sameProbeTarget_def split: option.splits)

lemma sameProbeTargets_iff [simp]: "sameProbeTargets l r \<longleftrightarrow> l = r"
proof -
  have "length l = length r \<Longrightarrow> sameProbeTargets_loop l r \<longleftrightarrow> l = r"
    by (induction l r rule: sameProbeTargets_loop.induct) auto
  then show ?thesis by (auto simp: sameProbeTargets_def)
qed

subsection \<open>The manager's invariant\<close>

text \<open>
  The configuration is sanitised, the version is not negative and is 0 before the first update, and
  the schedule only knows IDs of the current targets.
\<close>

definition manager_inv :: "probeTargetManager \<Rightarrow> bool" where
  "manager_inv m \<longleftrightarrow>
     length (targets m) \<le> 32 \<and> list_all sane_target (targets m) \<and> 0 \<le> version m \<and>
     (\<not> initialized m \<longrightarrow> version m = 0 \<and> targets m = []) \<and>
     dom (lastCompleted (scheduler m)) \<subseteq> target_ID ` set (targets m)"

lemma manager_inv_new: "manager_inv newProbeTargetManager"
  by (simp add: manager_inv_def newProbeTargetManager_def NewProbeScheduler_def)

lemma updateE:
  assumes "update m ts v = Inr m'"
  obtains (same) "v = version m" "targets m = SanitizeProbeTargets ts" "m' = m\<lparr>initialized := True\<rparr>"
  | (changed) "0 \<le> v" "initialized m \<Longrightarrow> version m \<le> v"
      "initialized m \<Longrightarrow> 0 < version m \<Longrightarrow> version m < v"
      "v \<noteq> version m \<or> targets m \<noteq> SanitizeProbeTargets ts"
      "m' = m\<lparr>targets := SanitizeProbeTargets ts, initialized := True, scheduler := NewProbeScheduler,
             version := v, generation := generation m + 1\<rparr>"
proof (cases "v = version m \<and> targets m = SanitizeProbeTargets ts")
  case True
  with assms have "m' = m\<lparr>targets := SanitizeProbeTargets ts, initialized := True\<rparr>"
    by (simp add: update_def Let_def split: if_splits)
  with True have "m' = m\<lparr>initialized := True\<rparr>" by simp
  with True show ?thesis by (intro same) simp_all
next
  case False
  from assms False have "m' = m\<lparr>targets := SanitizeProbeTargets ts, initialized := True,
      scheduler := NewProbeScheduler, version := v, generation := generation m + 1\<rparr>"
    by (auto simp: update_def Let_def split: if_splits)
  moreover from assms False have "0 \<le> v" "initialized m \<Longrightarrow> version m \<le> v"
      "initialized m \<Longrightarrow> 0 < version m \<Longrightarrow> version m < v"
    by (auto simp: update_def Let_def split: if_splits)
  ultimately show ?thesis using False by (intro changed) simp_all
qed

lemma update_inv: "manager_inv m \<Longrightarrow> update m ts v = Inr m' \<Longrightarrow> manager_inv m'"
  by (erule updateE)
    (auto simp: manager_inv_def length_SanitizeProbeTargets all_sane_Sanitize NewProbeScheduler_def)

lemma update_version_mono:
  "manager_inv m \<Longrightarrow> update m ts v = Inr m' \<Longrightarrow> version m \<le> version m' \<and> version m' = v"
  by (erule updateE) (auto simp: manager_inv_def)

lemma update_initialized: "update m ts v = Inr m' \<Longrightarrow> initialized m'"
  by (erule updateE) auto

lemma update_gates: "update m ts v = Inr m' \<Longrightarrow> refreshGate m' = refreshGate m \<and> runGate m' = runGate m"
  by (erule updateE) auto

lemma due_targets_eq:
  "batch_targets (due m now) = LimitProbeTargetsForRun (sched_due (scheduler m) (targets m) now)"
  by (auto simp: due_def sched_due_def Due_def Limit_eq SanitizeProbeTargets_eq)

lemma due_stamp [simp]: "batch_version (due m now) = version m" "batch_generation (due m now) = generation m"
  by (simp_all add: due_def)

lemma Limit_ids: "target_ID ` set (LimitProbeTargetsForRun ts) \<subseteq> target_ID ` set ts"
proof -
  obtain k where "list_all2 count_reduced (LimitProbeTargetsForRun ts) (take k (SanitizeProbeTargets ts))"
    using limit_loop_prefix [OF all_sane_Sanitize] unfolding Limit_eq by blast
  then have "map target_ID (LimitProbeTargetsForRun ts) = map target_ID (take k (SanitizeProbeTargets ts))"
    by (induction rule: list_all2_induct) (auto simp: count_reduced_def, metis ProbeTarget.select_convs(1) ProbeTarget.surjective ProbeTarget.update_convs(6))
  also have "\<dots> = map target_ID (take k (take 32 ts))"
    by (simp add: SanitizeProbeTargets_eq take_map)
  finally have "target_ID ` set (LimitProbeTargetsForRun ts) = target_ID ` set (take k (take 32 ts))"
    by (metis list.set_map)
  also have "\<dots> \<subseteq> target_ID ` set ts" by (meson image_mono order.trans set_take_subset)
  finally show ?thesis .
qed

lemma due_ids: "target_ID ` set (batch_targets (due m now)) \<subseteq> target_ID ` set (targets m)"
  using Limit_ids ps.due_subset unfolding due_targets_eq by (meson image_mono order.trans)

lemma markCompleted_eq:
  "markCompleted m b now =
     (if isCurrent m b then (True, m\<lparr>scheduler := sched_mark (scheduler m) (batch_targets b) now\<rparr>)
      else (False, m))"
  by (auto simp: markCompleted_def isCurrent_def sched_mark_def)

lemma markCompleted_inv:
  assumes "manager_inv m" "isCurrent m b \<Longrightarrow> target_ID ` set (batch_targets b) \<subseteq> target_ID ` set (targets m)"
  shows "manager_inv (snd (markCompleted m b now))"
proof -
  have "dom (lastCompleted (sched_mark (scheduler m) (batch_targets b) now)) \<subseteq> target_ID ` set (targets m)"
    if "isCurrent m b"
  proof -
    have "dom (lastCompleted (scheduler m)) \<union> target_ID ` set (batch_targets b) \<subseteq> target_ID ` set (targets m)"
      using assms that by (simp add: manager_inv_def)
    then show ?thesis
      using ps.recorded_mark_keys [of "scheduler m" "batch_targets b" now] unfolding dom_def by blast
  qed
  then show ?thesis using assms(1) by (auto simp: markCompleted_eq manager_inv_def)
qed

lemma refresh_heldE:
  assumes "refresh_held answer v m = (r, m')"
  obtains (current) "0 < v" "initialized m" "v \<le> version m" "r = Inr (version m)" "m' = m"
  | (failed) e where "r = Inl e" "m' = m"
  | (updated) ts w where "update m ts w = Inr m'" "r = Inr w" "0 < v \<Longrightarrow> v \<le> w"
proof (cases "0 < v \<and> initialized m \<and> version m \<ge> v")
  case True
  with assms show ?thesis by (intro current) (auto simp: refresh_held_def)
next
  case False
  with assms show ?thesis
    by (cases answer)
      (auto simp: refresh_held_def FetchProbeConfig_def split: if_splits sum.splits
        intro: failed updated)
qed

lemma refresh_held_inv:
  assumes "manager_inv m" "refresh_held answer v m = (r, m')"
  shows "manager_inv m'" and "version m \<le> version m'"
  using assms(2) assms(1)
  by (cases rule: refresh_heldE; auto dest: update_inv update_version_mono)+

lemma refresh_held_applied:
  assumes "manager_inv m" "refresh_held answer v m = (Inr a, m')" 
  shows "initialized m' \<and> a = version m' \<and> v \<le> a"
proof -
  from assms(1) have "0 \<le> version m" by (simp add: manager_inv_def)
  from assms(2) show ?thesis
  proof (cases rule: refresh_heldE)
    case (updated ts w)
    then show ?thesis
      using update_version_mono [OF assms(1) updated(1)] update_initialized [OF updated(1)]
        \<open>0 \<le> version m\<close> by (cases "0 < v") auto
  qed (simp_all add: \<open>0 \<le> version m\<close>)
qed

lemma refreshProbeConfig_applied:
  assumes "manager_inv m" "refreshProbeConfig ctx_wins answer v m = Some (Inr a, m')"
  shows "initialized m' \<and> a = version m' \<and> v \<le> a \<and> version m \<le> version m'"
proof -
  have nn: "0 \<le> version m" using assms(1) by (simp add: manager_inv_def)
  show ?thesis
  proof (cases "v > 0 \<and> initialized m \<and> version m \<ge> v")
    case True
    then show ?thesis using assms(2) by (auto simp: refreshProbeConfig_def)
  next
    case False
    then obtain m2 where r: "refresh_held answer v (m\<lparr>refreshGate := False\<rparr>) = (Inr a, m2)" "m' = endRefresh m2"
      using assms(2)
      by (auto simp: refreshProbeConfig_def refreshProbeTargets_def beginRefresh_def split: if_splits prod.splits)
    have inv: "manager_inv (m\<lparr>refreshGate := False\<rparr>)" using assms(1) by (simp add: manager_inv_def)
    show ?thesis
      using refresh_held_applied [OF inv r(1)] refresh_held_inv(2) [OF inv r(1)] r(2) by (simp add: endRefresh_def)
  qed
qed

subsection \<open>Properties\<close>

text \<open>An accepted configuration update keeps the manager's invariant (sanitised targets, a version that is not
  negative, a schedule of current targets only), never lowers the version, and never changes the targets of a
  positive version that is already in force.\<close>

theorem update_keeps_invariant:
  assumes "manager_inv m" "update m ts v = Inr m'"
  shows "manager_inv m' \<and> version m \<le> version m' \<and> version m' = v \<and> initialized m' \<and>
    (initialized m \<and> 0 < version m \<and> v = version m \<longrightarrow> targets m' = targets m)"
  using update_inv [OF assms] update_version_mono [OF assms] update_initialized [OF assms(2)] assms(2)
  by (auto elim!: updateE)

theorem update_keeps_invariant_witness:
  "\<exists>m'. update newProbeTargetManager [example_target ''a''] 7 = Inr m' \<and> manager_inv m' \<and> version m' = 7"
proof -
  obtain m' where m': "update newProbeTargetManager [example_target ''a''] 7 = Inr m'"
    by (auto simp: update_def newProbeTargetManager_def Let_def)
  then show ?thesis using update_keeps_invariant [OF manager_inv_new m'] by blast
qed

text \<open>A refresh that reports success has applied a configuration of at least the requested version, and
  reports exactly the version in force.\<close>

theorem refresh_applies_requested:
  assumes "manager_inv m" "refreshProbeConfig ctx_wins answer v m = Some (Inr a, m')"
  shows "initialized m' \<and> a = version m' \<and> v \<le> a \<and> version m \<le> version m'"
  by (rule refreshProbeConfig_applied [OF assms])

theorem refresh_applies_requested_witness:
  "\<exists>m'. refreshProbeConfig False (Some \<lparr>resp_Targets = [example_target ''a''], resp_Version = 7\<rparr>) 5 newProbeTargetManager
      = Some (Inr 7, m') \<and> version m' = 7"
proof -
  obtain m' where m': "refreshProbeConfig False (Some \<lparr>resp_Targets = [example_target ''a''], resp_Version = 7\<rparr>) 5
      newProbeTargetManager = Some (Inr 7, m')"
    by (simp add: refreshProbeConfig_def refreshProbeTargets_def beginRefresh_def refresh_held_def FetchProbeConfig_def
        update_def newProbeTargetManager_def Let_def)
  then show ?thesis using refresh_applies_requested [OF manager_inv_new m'] by auto
qed

end
