(* ===== verification/Probe_Round.thy ===== *)
theory Probe_Round
  imports Probe_Target
begin

text \<open>
  Probe results (\<open>internal/agent/types.go\<close>) and the version check on a batch of rounds
  (\<open>commonProbeConfigVersion\<close> of \<open>client.go\<close>, used by \<open>PostProbeResults\<close> and by
  \<open>marshalProbeResults\<close> of \<open>probe_spool.go\<close>). A finite \<open>float64\<close> is the rational it denotes.
\<close>

type_synonym float64 = rat

record ProbeSample =
  sample_Seq :: int
  sample_Success :: bool
  sample_LatencyMS :: "float64 option"
  sample_Error :: string

record ProbeRound =
  round_RoundID :: string
  round_ConfigVersion :: int
  round_TargetID :: string
  round_TS :: instant
  round_Type :: string
  round_Samples :: "ProbeSample list"

record probeRoundPayload =
  payload_RoundID :: string
  payload_TargetID :: string
  payload_TS :: int
  payload_Type :: string
  payload_Samples :: "ProbeSample list"

record ProbeResultsRequest =
  request_ConfigVersion :: int
  request_Rounds :: "probeRoundPayload list"

datatype version_error = InvalidConfigVersion int | MixedConfigVersions int int

text \<open>\<open>Time.Unix\<close>: whole seconds since the epoch, rounded down.\<close>

definition Unix :: "instant \<Rightarrow> int" where
  "Unix t = t div Second"

fun common_loop :: "int \<Rightarrow> ProbeRound list \<Rightarrow> version_error + int" where
  "common_loop v [] = Inr v"
| "common_loop v (rnd # rest) =
     (if round_ConfigVersion rnd < 0 then Inl (InvalidConfigVersion (round_ConfigVersion rnd))
      else if v \<noteq> round_ConfigVersion rnd then Inl (MixedConfigVersions v (round_ConfigVersion rnd))
      else common_loop v rest)"

definition commonProbeConfigVersion :: "ProbeRound list \<Rightarrow> version_error + int" where
  "commonProbeConfigVersion rounds =
     (case rounds of
        [] \<Rightarrow> Inr 0
      | r # rest \<Rightarrow>
          if round_ConfigVersion r < 0 then Inl (InvalidConfigVersion (round_ConfigVersion r))
          else common_loop (round_ConfigVersion r) rest)"

definition round_payload :: "ProbeRound \<Rightarrow> probeRoundPayload" where
  "round_payload rnd =
     \<lparr>payload_RoundID = round_RoundID rnd, payload_TargetID = round_TargetID rnd,
      payload_TS = Unix (round_TS rnd), payload_Type = round_Type rnd,
      payload_Samples = round_Samples rnd\<rparr>"

lemma common_loop_iff:
  "common_loop v rs = Inr w \<longleftrightarrow> w = v \<and> (\<forall>r\<in>set rs. round_ConfigVersion r = v \<and> 0 \<le> round_ConfigVersion r)"
  by (induction v rs rule: common_loop.induct) auto

text \<open>The check accepts exactly the batches whose rounds all carry one version, not negative.\<close>

lemma commonProbeConfigVersion_iff:
  "commonProbeConfigVersion rs = Inr v \<longleftrightarrow>
     (if rs = [] then v = 0 else 0 \<le> v \<and> (\<forall>r\<in>set rs. round_ConfigVersion r = v))"
  by (auto simp: commonProbeConfigVersion_def common_loop_iff split: list.splits)

lemma commonProbeConfigVersion_uniform:
  "\<forall>r\<in>set rs. round_ConfigVersion r = v \<Longrightarrow> 0 \<le> v \<Longrightarrow> rs \<noteq> [] \<Longrightarrow> commonProbeConfigVersion rs = Inr v"
  by (simp add: commonProbeConfigVersion_iff)

text \<open>The version check on a batch succeeds exactly when all its rounds carry one and the same version that is
  not negative (an empty batch has version 0).\<close>

theorem version_check_exact:
  "commonProbeConfigVersion rs = Inr v \<longleftrightarrow>
     (if rs = [] then v = 0 else 0 \<le> v \<and> list_all (\<lambda>r. round_ConfigVersion r = v) rs)"
  by (simp add: commonProbeConfigVersion_iff list_all_iff)

end
