(* ===== verification/Manager_Steps.thy ===== *)
theory Manager_Steps
  imports Target_Manager Probe_Round
begin

text \<open>
  The interleavings of the probe configuration (\<open>cmd/zeno-agent/main.go\<close>). Refreshers are the
  presence handler, the configuration poller and the uploader's reaction to a stale batch; runners
  are the callers of \<open>runDueProbes\<close>. There may be any number of each. A step is one critical section
  of the manager's mutex, one operation on a gate, the end of a fetch, of a probe run or of an
  \<open>Enqueue\<close>. The ghost fields count the configuration changes and log the answers given to
  refreshers and the batches persisted.
\<close>

datatype refresher_pc =
    R_Idle
  | R_Wait int                        \<comment> \<open>in \<open>beginRefresh\<close>, with the requested version\<close>
  | R_Held int                        \<comment> \<open>holds the gate, before the second version check\<close>
  | R_Got int ProbeTargetsResponse    \<comment> \<open>after \<open>FetchProbeConfig\<close>\<close>

datatype runner_pc =
    P_Idle
  | P_Held                                              \<comment> \<open>holds the run gate\<close>
  | P_Probing probeTargetBatch
  | P_Probed probeTargetBatch "ProbeRound list"         \<comment> \<open>rounds stamped with the version\<close>
  | P_Checked probeTargetBatch "ProbeRound list"        \<comment> \<open>\<open>isCurrent\<close> held\<close>
  | P_Persisted probeTargetBatch                        \<comment> \<open>\<open>Enqueue\<close> succeeded\<close>

record agent_sys =
  mgr :: probeTargetManager
  refreshers :: "nat \<Rightarrow> refresher_pc"
  runners :: "nat \<Rightarrow> runner_pc"
  updates :: nat
  answers :: "(int \<times> int) list"
  persisted :: "(probeTargetBatch \<times> ProbeRound list) list"

definition init_sys :: agent_sys where
  "init_sys = \<lparr>mgr = newProbeTargetManager, refreshers = (\<lambda>_. R_Idle), runners = (\<lambda>_. P_Idle),
     updates = 0, answers = [], persisted = []\<rparr>"

text \<open>The loop of \<open>runDueProbes\<close> that stamps the rounds with the version of their batch.\<close>

definition stamp_rounds :: "probeTargetBatch \<Rightarrow> ProbeRound list \<Rightarrow> ProbeRound list" where
  "stamp_rounds batch rounds = map (\<lambda>r. r\<lparr>round_ConfigVersion := batch_version batch\<rparr>) rounds"

inductive agent_step :: "agent_sys \<Rightarrow> agent_sys \<Rightarrow> bool" where
  refresh_fast_path:
    "refreshers s i = R_Idle \<Longrightarrow> v > 0 \<Longrightarrow> currentVersion (mgr s) = (cur, True) \<Longrightarrow> cur \<ge> v \<Longrightarrow>
     agent_step s (s\<lparr>answers := (v, cur) # answers s\<rparr>)"
| refresh_call:
    "refreshers s i = R_Idle \<Longrightarrow> v \<ge> 0 \<Longrightarrow>
     agent_step s (s\<lparr>refreshers := (refreshers s)(i := R_Wait v)\<rparr>)"
| refresh_cancelled:
    "refreshers s i = R_Wait v \<Longrightarrow> beginRefresh (mgr s) True = Some (Inl e) \<Longrightarrow>
     agent_step s (s\<lparr>refreshers := (refreshers s)(i := R_Idle)\<rparr>)"
| refresh_enter:
    "refreshers s i = R_Wait v \<Longrightarrow> beginRefresh (mgr s) False = Some (Inr m') \<Longrightarrow>
     agent_step s (s\<lparr>mgr := m', refreshers := (refreshers s)(i := R_Held v)\<rparr>)"
| refresh_current:
    "refreshers s i = R_Held v \<Longrightarrow> v > 0 \<Longrightarrow> currentVersion (mgr s) = (cur, True) \<Longrightarrow> cur \<ge> v \<Longrightarrow>
     agent_step s (s\<lparr>mgr := endRefresh (mgr s), refreshers := (refreshers s)(i := R_Idle),
                     answers := (v, cur) # answers s\<rparr>)"
| refresh_fetch_failed:
    "refreshers s i = R_Held v \<Longrightarrow> \<not> (v > 0 \<and> initialized (mgr s) \<and> version (mgr s) \<ge> v) \<Longrightarrow>
     FetchProbeConfig None = Inl e \<Longrightarrow>
     agent_step s (s\<lparr>mgr := endRefresh (mgr s), refreshers := (refreshers s)(i := R_Idle)\<rparr>)"
| refresh_fetched:
    "refreshers s i = R_Held v \<Longrightarrow> \<not> (v > 0 \<and> initialized (mgr s) \<and> version (mgr s) \<ge> v) \<Longrightarrow>
     FetchProbeConfig (Some answer) = Inr response \<Longrightarrow>
     agent_step s (s\<lparr>refreshers := (refreshers s)(i := R_Got v response)\<rparr>)"
| refresh_too_old:
    "refreshers s i = R_Got v response \<Longrightarrow> v > 0 \<Longrightarrow> resp_Version response < v \<Longrightarrow>
     agent_step s (s\<lparr>mgr := endRefresh (mgr s), refreshers := (refreshers s)(i := R_Idle)\<rparr>)"
| refresh_update_failed:
    "refreshers s i = R_Got v response \<Longrightarrow> \<not> (v > 0 \<and> resp_Version response < v) \<Longrightarrow>
     update (mgr s) (resp_Targets response) (resp_Version response) = Inl e \<Longrightarrow>
     agent_step s (s\<lparr>mgr := endRefresh (mgr s), refreshers := (refreshers s)(i := R_Idle)\<rparr>)"
| refresh_updated:
    "refreshers s i = R_Got v response \<Longrightarrow> \<not> (v > 0 \<and> resp_Version response < v) \<Longrightarrow>
     update (mgr s) (resp_Targets response) (resp_Version response) = Inr m' \<Longrightarrow>
     agent_step s (s\<lparr>mgr := endRefresh m', refreshers := (refreshers s)(i := R_Idle),
                     updates := updates s + (if generation m' = generation (mgr s) then 0 else 1),
                     answers := (v, resp_Version response) # answers s\<rparr>)"
| run_enter:
    "runners s i = P_Idle \<Longrightarrow> beginRun (mgr s) False = Some (Inr m') \<Longrightarrow>
     agent_step s (s\<lparr>mgr := m', runners := (runners s)(i := P_Held)\<rparr>)"
| run_nothing_due:
    "runners s i = P_Held \<Longrightarrow> batch_targets (due (mgr s) now) = [] \<Longrightarrow>
     agent_step s (s\<lparr>mgr := endRun (mgr s), runners := (runners s)(i := P_Idle)\<rparr>)"
| run_due:
    "runners s i = P_Held \<Longrightarrow> batch_targets (due (mgr s) now) \<noteq> [] \<Longrightarrow>
     agent_step s (s\<lparr>runners := (runners s)(i := P_Probing (due (mgr s) now))\<rparr>)"
| run_probed:
    "runners s i = P_Probing b \<Longrightarrow> length rounds = length (batch_targets b) \<Longrightarrow>
     agent_step s (s\<lparr>runners := (runners s)(i := P_Probed b (stamp_rounds b rounds))\<rparr>)"
| run_stale:
    "runners s i = P_Probed b rounds \<Longrightarrow> \<not> isCurrent (mgr s) b \<Longrightarrow>
     agent_step s (s\<lparr>mgr := endRun (mgr s), runners := (runners s)(i := P_Idle)\<rparr>)"
| run_current:
    "runners s i = P_Probed b rounds \<Longrightarrow> isCurrent (mgr s) b \<Longrightarrow>
     agent_step s (s\<lparr>runners := (runners s)(i := P_Checked b rounds)\<rparr>)"
| run_enqueue_failed:
    "runners s i = P_Checked b rounds \<Longrightarrow>
     agent_step s (s\<lparr>mgr := endRun (mgr s), runners := (runners s)(i := P_Idle)\<rparr>)"
| run_enqueued:
    "runners s i = P_Checked b rounds \<Longrightarrow>
     agent_step s (s\<lparr>runners := (runners s)(i := P_Persisted b),
                     persisted := (b, rounds) # persisted s\<rparr>)"
| run_marked:
    "runners s i = P_Persisted b \<Longrightarrow>
     agent_step s (s\<lparr>mgr := endRun (snd (markCompleted (mgr s) b now)),
                     runners := (runners s)(i := P_Idle)\<rparr>)"

inductive agent_reachable :: "agent_sys \<Rightarrow> bool" where
  agent_init: "agent_reachable init_sys"
| agent_next: "agent_reachable s \<Longrightarrow> agent_step s t \<Longrightarrow> agent_reachable t"

inductive_cases agent_stepE: "agent_step s t"

subsection \<open>One-token gates\<close>

text \<open>
  \<open>exclusive P token pcs\<close>: at most one process is in a state that holds the token (\<open>P\<close>), and none
  is while the token is in the channel.
\<close>

definition exclusive :: "('p \<Rightarrow> bool) \<Rightarrow> bool \<Rightarrow> (nat \<Rightarrow> 'p) \<Rightarrow> bool" where
  "exclusive P token pcs \<longleftrightarrow>
     (\<forall>i. P (pcs i) \<longrightarrow> \<not> token) \<and> (\<forall>i j. P (pcs i) \<longrightarrow> P (pcs j) \<longrightarrow> i = j)"

lemma exclusive_init: "\<not> P p \<Longrightarrow> exclusive P t (\<lambda>_. p)"
  by (simp add: exclusive_def)

lemma exclusive_acquire: "exclusive P True pcs \<Longrightarrow> exclusive P False (pcs(i := p))"
  by (auto simp: exclusive_def)

lemma exclusive_release: "exclusive P t pcs \<Longrightarrow> P (pcs i) \<Longrightarrow> \<not> P p \<Longrightarrow> exclusive P t' (pcs(i := p))"
  by (auto simp: exclusive_def)

lemma exclusive_keep: "exclusive P t pcs \<Longrightarrow> P (pcs i) = P p \<Longrightarrow> exclusive P t (pcs(i := p))"
  by (auto simp: exclusive_def)

lemma exclusive_drop: "exclusive P t pcs \<Longrightarrow> \<not> P p \<Longrightarrow> exclusive P t (pcs(i := p))"
  by (auto simp: exclusive_def)

fun holds_refresh :: "refresher_pc \<Rightarrow> bool" where
  "holds_refresh (R_Held v) = True"
| "holds_refresh (R_Got v r) = True"
| "holds_refresh _ = False"

fun holds_run :: "runner_pc \<Rightarrow> bool" where
  "holds_run P_Idle = False"
| "holds_run _ = True"

definition gates_ok :: "agent_sys \<Rightarrow> bool" where
  "gates_ok s \<longleftrightarrow> exclusive holds_refresh (refreshGate (mgr s)) (refreshers s) \<and>
     exclusive holds_run (runGate (mgr s)) (runners s)"

lemma gate_simps [simp]:
  "refreshGate (endRefresh m) = True" "runGate (endRefresh m) = runGate m"
  "refreshGate (endRun m) = refreshGate m" "runGate (endRun m) = True"
  "refreshGate (snd (markCompleted m b now)) = refreshGate m"
  "runGate (snd (markCompleted m b now)) = runGate m"
  by (simp_all add: endRefresh_def endRun_def markCompleted_def)

lemma gate_enter:
  "beginRefresh m False = Some (Inr m') \<Longrightarrow> refreshGate m \<and> m' = m\<lparr>refreshGate := False\<rparr>"
  "beginRun m False = Some (Inr m') \<Longrightarrow> runGate m \<and> m' = m\<lparr>runGate := False\<rparr>"
  by (auto simp: beginRefresh_def beginRun_def split: if_splits)

lemma agent_step_gates: "agent_step s t \<Longrightarrow> gates_ok s \<Longrightarrow> gates_ok t"
  by (induction rule: agent_step.induct)
    (auto simp: gates_ok_def dest!: gate_enter update_gates
      intro: exclusive_acquire exclusive_release exclusive_keep exclusive_drop)

lemma reachable_gates: "agent_reachable s \<Longrightarrow> gates_ok s"
proof (induction rule: agent_reachable.induct)
  case agent_init
  show ?case by (simp add: gates_ok_def init_sys_def exclusive_init)
qed (rule agent_step_gates)

subsection \<open>Versions, batches and the schedule\<close>

fun pc_batch :: "runner_pc \<Rightarrow> probeTargetBatch option" where
  "pc_batch (P_Probing b) = Some b"
| "pc_batch (P_Probed b rs) = Some b"
| "pc_batch (P_Checked b rs) = Some b"
| "pc_batch (P_Persisted b) = Some b"
| "pc_batch _ = None"

fun pc_rounds :: "runner_pc \<Rightarrow> ProbeRound list option" where
  "pc_rounds (P_Probed b rs) = Some rs"
| "pc_rounds (P_Checked b rs) = Some rs"
| "pc_rounds _ = None"

text \<open>
  A batch taken at generation \<open>k\<close> of \<open>n\<close> changes; while no change happened since, its version is the
  current one and its targets are current targets.
\<close>

definition batch_ok :: "nat \<Rightarrow> probeTargetManager \<Rightarrow> probeTargetBatch \<Rightarrow> bool" where
  "batch_ok n m b \<longleftrightarrow>
     0 \<le> batch_version b \<and> batch_version b \<le> version m \<and> batch_targets b \<noteq> [] \<and>
     (\<exists>k\<le>n. batch_generation b = of_nat k \<and>
        (k = n \<longrightarrow> target_ID ` set (batch_targets b) \<subseteq> target_ID ` set (targets m)))"

definition rounds_ok :: "probeTargetBatch \<Rightarrow> ProbeRound list \<Rightarrow> bool" where
  "rounds_ok b rs \<longleftrightarrow> length rs = length (batch_targets b) \<and>
     (\<forall>r\<in>set rs. round_ConfigVersion r = batch_version b)"

definition sys_inv :: "agent_sys \<Rightarrow> bool" where
  "sys_inv s \<longleftrightarrow>
     manager_inv (mgr s) \<and> generation (mgr s) = of_nat (updates s) \<and>
     (\<forall>i b. pc_batch (runners s i) = Some b \<longrightarrow> batch_ok (updates s) (mgr s) b) \<and>
     (\<forall>i b rs. pc_batch (runners s i) = Some b \<longrightarrow> pc_rounds (runners s i) = Some rs \<longrightarrow> rounds_ok b rs) \<and>
     (\<forall>(v, a)\<in>set (answers s). v \<le> a \<and> a \<le> version (mgr s) \<and> initialized (mgr s)) \<and>
     (\<forall>(b, rs)\<in>set (persisted s). rounds_ok b rs \<and> rs \<noteq> [] \<and> 0 \<le> batch_version b \<and>
        batch_version b \<le> version (mgr s))"

text \<open>Operations on the gates do not touch what the invariant speaks of.\<close>

lemma gate_frame [simp]:
  "manager_inv (endRefresh m) = manager_inv m" "manager_inv (endRun m) = manager_inv m"
  "manager_inv (m\<lparr>refreshGate := g\<rparr>) = manager_inv m" "manager_inv (m\<lparr>runGate := g\<rparr>) = manager_inv m"
  "generation (endRefresh m) = generation m" "generation (endRun m) = generation m"
  "version (endRefresh m) = version m" "version (endRun m) = version m"
  "initialized (endRefresh m) = initialized m" "initialized (endRun m) = initialized m"
  "batch_ok n (endRefresh m) b = batch_ok n m b" "batch_ok n (endRun m) b = batch_ok n m b"
  "batch_ok n (m\<lparr>refreshGate := g\<rparr>) b = batch_ok n m b" "batch_ok n (m\<lparr>runGate := g\<rparr>) b = batch_ok n m b"
  by (simp_all add: manager_inv_def endRefresh_def endRun_def batch_ok_def)

lemma mark_frame [simp]:
  "generation (snd (markCompleted m b now)) = generation m"
  "version (snd (markCompleted m b now)) = version m"
  "initialized (snd (markCompleted m b now)) = initialized m"
  "batch_ok n (snd (markCompleted m b now)) c = batch_ok n m c"
  by (simp_all add: markCompleted_def batch_ok_def)

lemma update_generation:
  assumes "update m ts v = Inr m'" "generation m = of_nat n"
  shows "generation m' = of_nat (n + (if generation m' = generation m then 0 else 1))"
  using assms(1) by (cases rule: updateE) (simp_all add: assms(2) add.commute)

lemma batch_ok_update:
  assumes "manager_inv m" "update m ts v = Inr m'" "batch_ok n m b"
  shows "batch_ok (n + (if generation m' = generation m then 0 else 1)) m' b"
  using assms(2)
proof (cases rule: updateE)
  case same
  then show ?thesis using assms(3) by (simp add: batch_ok_def)
next
  case changed
  have "version m \<le> version m'" using update_version_mono [OF assms(1,2)] by simp
  then show ?thesis using assms(3) changed(5) by (auto simp: batch_ok_def intro!: le_SucI)
qed

lemma batch_ok_due:
  "manager_inv m \<Longrightarrow> generation m = of_nat n \<Longrightarrow> batch_targets (due m now) \<noteq> [] \<Longrightarrow> batch_ok n m (due m now)"
  using due_ids [of m now] by (auto simp: batch_ok_def manager_inv_def)

text \<open>Below \<open>2 ^ 64\<close> changes a batch passes \<open>isCurrent\<close> only if no change happened since it was taken.\<close>

lemma batch_ok_current:
  assumes "batch_ok n m b" "generation m = of_nat n" "n < 2 ^ 64" "isCurrent m b"
  shows "target_ID ` set (batch_targets b) \<subseteq> target_ID ` set (targets m)"
proof -
  obtain k where k: "k \<le> n" "batch_generation b = of_nat k"
    "k = n \<longrightarrow> target_ID ` set (batch_targets b) \<subseteq> target_ID ` set (targets m)"
    using assms(1) by (auto simp: batch_ok_def)
  have "(of_nat k :: 64 word) = of_nat n" using assms(2,4) k(2) by (simp add: isCurrent_def)
  then have "k mod 2 ^ 64 = n mod 2 ^ 64"
    using word_of_nat_eq_iff [where ?'a = 64] by (simp add: take_bit_eq_mod)
  then have "k = n" using k(1) assms(3) by simp
  then show ?thesis using k(3) by simp
qed

lemma rounds_ok_stamp:
  "length rs = length (batch_targets b) \<Longrightarrow> rounds_ok b (stamp_rounds b rs)"
  by (auto simp: rounds_ok_def stamp_rounds_def)

definition core_inv :: "agent_sys \<Rightarrow> bool" where
  "core_inv s \<longleftrightarrow>
     manager_inv (mgr s) \<and> generation (mgr s) = of_nat (updates s) \<and>
     (\<forall>i b. pc_batch (runners s i) = Some b \<longrightarrow> batch_ok (updates s) (mgr s) b)"

definition rounds_inv :: "agent_sys \<Rightarrow> bool" where
  "rounds_inv s \<longleftrightarrow> (\<forall>i b rs. pc_batch (runners s i) = Some b \<longrightarrow> pc_rounds (runners s i) = Some rs \<longrightarrow>
     rounds_ok b rs)"

definition answers_inv :: "agent_sys \<Rightarrow> bool" where
  "answers_inv s \<longleftrightarrow> (\<forall>(v, a)\<in>set (answers s). v \<le> a \<and> a \<le> version (mgr s) \<and> initialized (mgr s))"

definition persisted_inv :: "agent_sys \<Rightarrow> bool" where
  "persisted_inv s \<longleftrightarrow> (\<forall>(b, rs)\<in>set (persisted s). rounds_ok b rs \<and> rs \<noteq> [] \<and> 0 \<le> batch_version b \<and>
     batch_version b \<le> version (mgr s))"

lemma step_version_mono: "agent_step s t \<Longrightarrow> manager_inv (mgr s) \<Longrightarrow> version (mgr s) \<le> version (mgr t)"
  by (induction rule: agent_step.induct) (auto dest!: gate_enter update_version_mono)

lemma step_initialized: "agent_step s t \<Longrightarrow> initialized (mgr s) \<Longrightarrow> initialized (mgr t)"
  by (induction rule: agent_step.induct) (auto dest!: gate_enter update_initialized)

lemma step_updates_mono: "agent_step s t \<Longrightarrow> updates s \<le> updates t"
  by (induction rule: agent_step.induct) auto

lemma step_core: "agent_step s t \<Longrightarrow> core_inv s \<Longrightarrow> updates s < 2 ^ 64 \<Longrightarrow> core_inv t"
proof (induction rule: agent_step.induct)
  case (refresh_updated s i v response m')
  then show ?case
    using update_generation [OF refresh_updated(3)] batch_ok_update [OF _ refresh_updated(3)]
      update_inv [OF _ refresh_updated(3)]
    by (auto simp: core_inv_def split: if_splits)
next
  case (run_due s i now)
  then show ?case by (auto simp: core_inv_def batch_ok_due)
next
  case (run_marked s i b now)
  then have "batch_ok (updates s) (mgr s) b" unfolding core_inv_def by (metis pc_batch.simps(4))
  then have "manager_inv (snd (markCompleted (mgr s) b now))"
    using run_marked by (intro markCompleted_inv batch_ok_current) (auto simp: core_inv_def)
  with run_marked show ?case by (auto simp: core_inv_def)
qed (auto simp: core_inv_def dest!: gate_enter, (metis pc_batch.simps(1,2,3))+)

lemma step_rounds: "agent_step s t \<Longrightarrow> rounds_inv s \<Longrightarrow> rounds_inv t"
proof (induction rule: agent_step.induct)
  case (run_current s i b rounds)
  then have "rounds_ok b rounds" unfolding rounds_inv_def by (metis pc_batch.simps(2) pc_rounds.simps(1))
  with run_current show ?case by (auto simp: rounds_inv_def)
qed (auto simp: rounds_inv_def rounds_ok_stamp)

lemma step_answers:
  assumes "agent_step s t" "answers_inv s" "core_inv s"
  shows "answers_inv t"
proof -
  have mono: "version (mgr s) \<le> version (mgr t)" "initialized (mgr s) \<Longrightarrow> initialized (mgr t)"
    using assms step_version_mono step_initialized by (auto simp: core_inv_def)
  have nonneg: "0 \<le> version (mgr s)" using assms(3) by (simp add: core_inv_def manager_inv_def)
  have old: "\<forall>(v, a)\<in>set (answers s). v \<le> a \<and> a \<le> version (mgr t) \<and> initialized (mgr t)"
    using assms(2) mono by (fastforce simp: answers_inv_def)
  from assms(1) show ?thesis
  proof (cases rule: agent_step.cases)
    case (refresh_updated i v response m')
    have "version m' = resp_Version response" "initialized m'" "version (mgr s) \<le> version m'"
      using refresh_updated assms(3) update_version_mono update_initialized by (auto simp: core_inv_def)
    then show ?thesis using refresh_updated old nonneg by (cases "v > 0") (auto simp: answers_inv_def)
  qed (use old in \<open>auto simp: answers_inv_def currentVersion_def\<close>)
qed

lemma step_persisted:
  assumes "agent_step s t" "persisted_inv s" "core_inv s" "rounds_inv s"
  shows "persisted_inv t"
proof -
  have "version (mgr s) \<le> version (mgr t)"
    using assms step_version_mono by (auto simp: core_inv_def)
  then have old: "\<forall>(b, rs)\<in>set (persisted s). rounds_ok b rs \<and> rs \<noteq> [] \<and> 0 \<le> batch_version b \<and>
     batch_version b \<le> version (mgr t)"
    using assms(2) by (fastforce simp: persisted_inv_def)
  from assms(1) show ?thesis
  proof (cases rule: agent_step.cases)
    case (run_enqueued i b rounds)
    have "rounds_ok b rounds" "batch_ok (updates s) (mgr s) b"
      using assms(3,4) run_enqueued unfolding rounds_inv_def core_inv_def
      by (metis pc_batch.simps(3) pc_rounds.simps(2))+
    then show ?thesis using run_enqueued old
      by (auto simp: persisted_inv_def batch_ok_def rounds_ok_def)
  qed (use old in \<open>auto simp: persisted_inv_def\<close>)
qed

lemmas sys_inv_parts = core_inv_def rounds_inv_def answers_inv_def persisted_inv_def

lemma sys_inv_split: "sys_inv s \<longleftrightarrow> core_inv s \<and> rounds_inv s \<and> answers_inv s \<and> persisted_inv s"
  by (auto simp: sys_inv_def sys_inv_parts)

lemma reachable_sys_inv: "agent_reachable s \<Longrightarrow> updates s < 2 ^ 64 \<Longrightarrow> sys_inv s"
proof (induction rule: agent_reachable.induct)
  case agent_init
  show ?case by (simp add: sys_inv_def init_sys_def manager_inv_new newProbeTargetManager_def
      manager_inv_def NewProbeScheduler_def)
next
  case (agent_next s t)
  have "updates s < 2 ^ 64" using step_updates_mono [OF agent_next(2)] agent_next(4) by simp
  with agent_next show ?case
    using step_core step_rounds step_answers step_persisted by (auto simp: sys_inv_split)
qed

subsection \<open>Properties\<close>

text \<open>C17: In every reachable interleaving at most one goroutine is inside a configuration refresh and at most one
  inside a probe run, and none is while the token of the gate is free.\<close>

theorem one_refresher_one_runner:
  assumes "agent_reachable s"
  shows "gates_ok s"
  using assms by (rule reachable_gates)

text \<open>C18: A version reported to a caller of the refresh (and thus acknowledged to the Controller) is at least the
  version asked for and has been applied: the version in force is never below it.\<close>

theorem refresh_answers_applied:
  assumes "agent_reachable s" "updates s < 2 ^ 64" "(v, a) \<in> set (answers s)"
  shows "v \<le> a \<and> a \<le> version (mgr s) \<and> initialized (mgr s)"
  using reachable_sys_inv [OF assms(1,2)] assms(3) by (auto simp: sys_inv_def)


text \<open>In every reachable state the configuration is sanitised and the schedule knows only IDs of current
  targets: a run that ends after a refresh records nothing for the replaced targets.\<close>

theorem schedule_of_current_targets:
  assumes "agent_reachable s" "updates s < 2 ^ 64"
  shows "manager_inv (mgr s) \<and> dom (lastCompleted (scheduler (mgr s))) \<subseteq> target_ID ` set (targets (mgr s))"
  using reachable_sys_inv [OF assms] by (simp add: sys_inv_def manager_inv_def)

subsection \<open>A concrete interleaving\<close>

text \<open>
  One refresher fetches version 7 on request of version 5; then one runner probes the target of that
  configuration and hands its batch to the spool.
\<close>

definition example_response :: ProbeTargetsResponse where
  "example_response = \<lparr>resp_Targets = [sanitize_target (example_target ''a'')], resp_Version = 7\<rparr>"

definition example_manager :: probeTargetManager where
  "example_manager = newProbeTargetManager\<lparr>targets := [sanitize_target (example_target ''a'')], initialized := True,
     version := 7, generation := 1\<rparr>"

definition example_refreshed :: agent_sys where
  "example_refreshed = init_sys\<lparr>mgr := example_manager, updates := 1, answers := [(5, 7)]\<rparr>"

lemma example_refresh_held:
  "agent_reachable (init_sys\<lparr>mgr := newProbeTargetManager\<lparr>refreshGate := False\<rparr>, refreshers := (\<lambda>_. R_Idle)(0 := R_Held 5)\<rparr>)"
proof -
  have "agent_step init_sys (init_sys\<lparr>refreshers := (refreshers init_sys)(0 := R_Wait 5)\<rparr>)"
    by (rule refresh_call) (simp_all add: init_sys_def)
  then have w: "agent_reachable (init_sys\<lparr>refreshers := (\<lambda>_. R_Idle)(0 := R_Wait 5)\<rparr>)"
    using agent_next [OF agent_init] by (simp add: init_sys_def)
  have "agent_step (init_sys\<lparr>refreshers := (\<lambda>_. R_Idle)(0 := R_Wait 5)\<rparr>)
     (init_sys\<lparr>mgr := newProbeTargetManager\<lparr>refreshGate := False\<rparr>, refreshers := (\<lambda>_. R_Idle)(0 := R_Held 5)\<rparr>)"
    using refresh_enter [of "init_sys\<lparr>refreshers := (\<lambda>_. R_Idle)(0 := R_Wait 5)\<rparr>" 0 5 "newProbeTargetManager\<lparr>refreshGate := False\<rparr>"]
    by (simp add: init_sys_def beginRefresh_def newProbeTargetManager_def)
  then show ?thesis using agent_next [OF w] by simp
qed

lemma example_refreshed_reachable: "agent_reachable example_refreshed"
proof -
  let ?h = "init_sys\<lparr>mgr := newProbeTargetManager\<lparr>refreshGate := False\<rparr>, refreshers := (\<lambda>_. R_Idle)(0 := R_Held 5)\<rparr>"
  let ?g = "?h\<lparr>refreshers := (\<lambda>_. R_Idle)(0 := R_Got 5 example_response)\<rparr>"
  have resp: "FetchProbeConfig (Some example_response) = Inr example_response"
    by (simp add: FetchProbeConfig_def example_response_def SanitizeProbeTargets_eq sanitize_target_sane_id sane_sanitize_target)
  have "agent_step ?h ?g"
    using refresh_fetched [of ?h 0 5 example_response example_response] resp by (simp add: newProbeTargetManager_def)
  then have g: "agent_reachable ?g" using agent_next [OF example_refresh_held] by blast
  have "update (mgr ?g) (resp_Targets example_response) (resp_Version example_response) =
      Inr (example_manager\<lparr>refreshGate := False\<rparr>)"
    by (simp add: update_def example_response_def example_manager_def newProbeTargetManager_def Let_def
        SanitizeProbeTargets_eq sanitize_target_sane_id sane_sanitize_target NewProbeScheduler_def)
  then have "agent_step ?g example_refreshed"
    using refresh_updated [of ?g 0 5 example_response "example_manager\<lparr>refreshGate := False\<rparr>"]
    by (simp add: example_response_def example_manager_def newProbeTargetManager_def example_refreshed_def init_sys_def
        endRefresh_def fun_upd_idem)
  then show ?thesis using agent_next [OF g] by blast
qed

definition example_batch :: probeTargetBatch where
  "example_batch = due example_manager 0"

lemma example_batch_targets: "batch_targets example_batch \<noteq> []"
proof -
  have "sched_due NewProbeScheduler [sanitize_target (example_target ''a'')] 0 \<noteq> []" by (simp add: ps.due_fresh)
  then show ?thesis
    by (simp add: example_batch_def due_targets_eq Limit_empty_iff example_manager_def newProbeTargetManager_def)
qed

definition example_round :: ProbeRound where
  "example_round = \<lparr>round_RoundID = ''r1'', round_ConfigVersion = 0, round_TargetID = ''a'', round_TS = 0,
     round_Type = ''tcp'', round_Samples = []\<rparr>"

definition example_rounds :: "ProbeRound list" where
  "example_rounds = stamp_rounds example_batch (replicate (length (batch_targets example_batch)) example_round)"

definition example_run :: "runner_pc \<Rightarrow> agent_sys" where
  "example_run pc = example_refreshed\<lparr>mgr := example_manager\<lparr>runGate := False\<rparr>, runners := (\<lambda>_. P_Idle)(0 := pc)\<rparr>"

lemma example_due: "due (example_manager\<lparr>runGate := False\<rparr>) 0 = example_batch"
  by (simp add: example_batch_def due_def)

lemma example_run_step:
  assumes "agent_reachable (example_run pc)" "agent_step (example_run pc) (example_run pc\<lparr>runners := (runners (example_run pc))(0 := pc')\<rparr>)"
  shows "agent_reachable (example_run pc')"
  using agent_next [OF assms] by (simp add: example_run_def)

lemma example_checked_reachable: "agent_reachable (example_run (P_Checked example_batch example_rounds))"
proof -
  have "agent_step example_refreshed (example_run P_Held)"
    using run_enter [of example_refreshed 0 "example_manager\<lparr>runGate := False\<rparr>"]
    by (simp add: example_run_def example_refreshed_def init_sys_def beginRun_def example_manager_def newProbeTargetManager_def)
  then have h: "agent_reachable (example_run P_Held)" by (rule agent_next [OF example_refreshed_reachable])
  have p: "agent_reachable (example_run (P_Probing example_batch))"
    using run_due [of "example_run P_Held" 0 0] example_batch_targets
    by (intro example_run_step [OF h]) (simp add: example_run_def example_due)
  have d: "agent_reachable (example_run (P_Probed example_batch example_rounds))"
    using run_probed [of "example_run (P_Probing example_batch)" 0 example_batch
        "replicate (length (batch_targets example_batch)) example_round"]
    by (intro example_run_step [OF p]) (simp add: example_run_def example_rounds_def)
  show ?thesis
    using run_current [of "example_run (P_Probed example_batch example_rounds)" 0 example_batch example_rounds]
    by (intro example_run_step [OF d]) (simp add: example_run_def isCurrent_def example_batch_def)
qed

definition example_persisted :: agent_sys where
  "example_persisted = example_run (P_Persisted example_batch)\<lparr>persisted := [(example_batch, example_rounds)]\<rparr>"

lemma example_persisted_reachable: "agent_reachable example_persisted"
  using agent_next [OF example_checked_reachable run_enqueued [of _ 0 example_batch example_rounds]]
  by (simp add: example_persisted_def example_run_def example_refreshed_def init_sys_def)

theorem one_refresher_one_runner_witness:
  "\<exists>s. agent_reachable s \<and> refreshers s 0 = R_Held 5 \<and> gates_ok s"
  using one_refresher_one_runner [OF example_refresh_held] example_refresh_held by fastforce

theorem refresh_answers_applied_witness:
  "(5, 7) \<in> set (answers example_refreshed) \<and> 7 \<le> version (mgr example_refreshed)"
  using refresh_answers_applied [OF example_refreshed_reachable, of 5 7] by (simp add: example_refreshed_def)


theorem schedule_of_current_targets_witness:
  "manager_inv (mgr example_persisted)"
  using schedule_of_current_targets [OF example_persisted_reachable]
  by (simp add: example_persisted_def example_run_def example_refreshed_def)

end
