(* ===== verification/Net_Address.thy ===== *)
theory Net_Address
  imports Agent_Prelude
begin

unbundle bit_operations_syntax

text \<open>
  Addresses of \<open>net/netip\<close>: an IPv4 address is a 32-bit word, an IPv6 address a 128-bit word with a zone
  (empty when there is none). The predicates are those of the package: tests on the leading bits;
  \<open>IsUnspecified\<close> compares the zone too, and a prefix contains no address with a zone.
\<close>

datatype Addr =
    InvalidAddr
  | A4 "32 word"
  | A6 "128 word" string

fun Is4 :: "Addr \<Rightarrow> bool" where
  "Is4 (A4 w) = True"
| "Is4 _ = False"

fun Is6 :: "Addr \<Rightarrow> bool" where
  "Is6 (A6 w z) = True"
| "Is6 _ = False"

fun Is4In6 :: "Addr \<Rightarrow> bool" where
  "Is4In6 (A6 w z) \<longleftrightarrow> drop_bit 32 w = 0xFFFF"
| "Is4In6 _ = False"

fun Unmap :: "Addr \<Rightarrow> Addr" where
  "Unmap (A6 w z) = (if drop_bit 32 w = 0xFFFF then A4 (ucast w) else A6 w z)"
| "Unmap a = a"

definition IsValid :: "Addr \<Rightarrow> bool" where
  "IsValid a \<longleftrightarrow> a \<noteq> InvalidAddr"

definition IsUnspecified :: "Addr \<Rightarrow> bool" where
  "IsUnspecified a \<longleftrightarrow> a = A4 0 \<or> a = A6 0 []"

fun multicast :: "Addr \<Rightarrow> bool" where
  "multicast (A4 w) \<longleftrightarrow> drop_bit 28 w = 0xE"
| "multicast (A6 w z) \<longleftrightarrow> drop_bit 120 w = 0xFF"
| "multicast InvalidAddr = False"

fun link_local_unicast :: "Addr \<Rightarrow> bool" where
  "link_local_unicast (A4 w) \<longleftrightarrow> drop_bit 16 w = 0xA9FE"
| "link_local_unicast (A6 w z) \<longleftrightarrow> drop_bit 118 w = 0x3FA"
| "link_local_unicast InvalidAddr = False"

fun link_local_multicast :: "Addr \<Rightarrow> bool" where
  "link_local_multicast (A4 w) \<longleftrightarrow> drop_bit 8 w = 0xE00000"
| "link_local_multicast (A6 w z) \<longleftrightarrow> drop_bit 112 w AND 0xFF0F = 0xFF02"
| "link_local_multicast InvalidAddr = False"

fun loopback :: "Addr \<Rightarrow> bool" where
  "loopback (A4 w) \<longleftrightarrow> drop_bit 24 w = 127"
| "loopback (A6 w z) \<longleftrightarrow> w = 1"
| "loopback InvalidAddr = False"

text \<open>The exported predicates look through the IPv4-mapped form.\<close>

definition IsMulticast :: "Addr \<Rightarrow> bool" where "IsMulticast a = multicast (Unmap a)"
definition IsLinkLocalUnicast :: "Addr \<Rightarrow> bool" where "IsLinkLocalUnicast a = link_local_unicast (Unmap a)"
definition IsLinkLocalMulticast :: "Addr \<Rightarrow> bool" where "IsLinkLocalMulticast a = link_local_multicast (Unmap a)"
definition IsLoopback :: "Addr \<Rightarrow> bool" where "IsLoopback a = loopback (Unmap a)"

datatype Prefix = P4 "32 word" nat | P6 "128 word" nat

fun Contains :: "Prefix \<Rightarrow> Addr \<Rightarrow> bool" where
  "Contains (P4 p n) (A4 w) \<longleftrightarrow> drop_bit (32 - n) w = drop_bit (32 - n) p"
| "Contains (P6 p n) (A6 w z) \<longleftrightarrow> z = [] \<and> drop_bit (128 - n) w = drop_bit (128 - n) p"
| "Contains _ _ = False"

lemma Unmap_idem [simp]: "Unmap (Unmap a) = Unmap a"
  by (cases a) simp_all

lemma unmapped_Unmap: "\<not> Is4In6 (Unmap a)"
  by (cases a) simp_all

lemma Unmap_id: "\<not> Is4In6 a \<Longrightarrow> Unmap a = a"
  by (cases a) simp_all

text \<open>Leading bits as a range of addresses.\<close>

lemma drop_bit_range:
  fixes w :: "'a::len word"
  assumes "0 \<le> k" "k < 2 ^ LENGTH('a)"
  shows "drop_bit n w = word_of_int k \<longleftrightarrow> k * 2 ^ n \<le> uint w \<and> uint w < (k + 1) * 2 ^ n"
proof -
  have "uint (drop_bit n w) = uint w div 2 ^ n"
    by (simp add: unsigned_drop_bit_eq drop_bit_eq_div [where 'a = int] take_bit_int_eq_self)
  then have "drop_bit n w = word_of_int k \<longleftrightarrow> uint w div 2 ^ n = k"
    using assms by (simp add: word_uint_eq_iff uint_word_of_int)
  also have "\<dots> \<longleftrightarrow> k * 2 ^ n \<le> uint w \<and> uint w < (k + 1) * 2 ^ n"
  proof
    assume "uint w div 2 ^ n = k"
    moreover have "0 \<le> uint w mod 2 ^ n" "uint w mod 2 ^ n < 2 ^ n" by simp_all
    ultimately show "k * 2 ^ n \<le> uint w \<and> uint w < (k + 1) * 2 ^ n"
      using div_mult_mod_eq [of "uint w" "2 ^ n"] by (simp only: distrib_right mult_1) linarith
  next
    assume r: "k * 2 ^ n \<le> uint w \<and> uint w < (k + 1) * 2 ^ n"
    then show "uint w div 2 ^ n = k"
      by (intro int_div_pos_eq [of _ _ _ "uint w - k * 2 ^ n"]) (simp_all add: algebra_simps)
  qed
  finally show ?thesis .
qed

end
