(* ===== verification/Go_Strconv.thy ===== *)
theory Go_Strconv
  imports Agent_Prelude
begin

text \<open>
  Decimal numbers as text: the functions \<open>strconv.ParseUint\<close> and \<open>strconv.ParseInt\<close> (base 10, 64 bits,
  every error is \<open>None\<close>, since no caller tells the errors apart), that they invert \<open>strconv.Itoa\<close>, and
  the order of the zero-padded numbers the spool uses in file names.
\<close>

definition is_digit :: "char \<Rightarrow> bool" where
  [go_eval]: "is_digit c \<longleftrightarrow> CHR ''0'' \<le> c \<and> c \<le> CHR ''9''"

definition digit_val :: "char \<Rightarrow> nat" where
  [go_eval]: "digit_val c = of_char c - 48"

definition digits_val :: "string \<Rightarrow> nat" where
  [go_eval]: "digits_val s = foldl (\<lambda>n c. 10 * n + digit_val c) 0 s"

definition ParseUint :: "string \<Rightarrow> int option" where
  [go_eval]: "ParseUint s =
     (if s \<noteq> [] \<and> list_all is_digit s \<and> digits_val s < 2 ^ 64 then Some (int (digits_val s)) else None)"

definition ParseInt :: "string \<Rightarrow> int option" where
  [go_eval]: "ParseInt s =
     (case s of
        [] \<Rightarrow> None
      | ch # rest \<Rightarrow>
          let neg = (ch = CHR ''-''); body = (if ch = CHR ''-'' \<or> ch = CHR ''+'' then rest else s)
          in case ParseUint body of
               None \<Rightarrow> None
             | Some n \<Rightarrow>
                 if \<not> neg \<and> n \<ge> 2 ^ 63 then None
                 else if neg \<and> n > 2 ^ 63 then None
                 else Some (if neg then - n else n))"

subsection \<open>Bounds\<close>

lemma ParseUint_range: "ParseUint s = Some n \<Longrightarrow> 0 \<le> n \<and> n < 2 ^ 64"
  by (auto simp: ParseUint_def split: if_splits)

lemma ParseInt_fits: "ParseInt s = Some n \<Longrightarrow> fits64 n"
  by (auto simp: ParseInt_def fits64_def minInt64_def maxInt64_def Let_def
      dest!: ParseUint_range split: list.splits option.splits if_splits)

subsection \<open>Round trip with Itoa\<close>

lemma of_char_digit: "n < 10 \<Longrightarrow> of_char (char_of (48 + n) :: char) = 48 + (n::nat)"
  by (simp add: of_char_of)

lemma is_digit_iff: "is_digit c \<longleftrightarrow> 48 \<le> (of_char c :: nat) \<and> (of_char c :: nat) \<le> 57"
  by (simp add: is_digit_def less_eq_char_def)

lemma is_digit_char: "n < 10 \<Longrightarrow> is_digit (char_of (48 + n :: nat))"
  by (simp add: is_digit_iff of_char_digit)

lemma is_digit_dec [simp]: "list_all is_digit (dec_digits n)"
proof (induction n rule: dec_digits.induct)
  case (1 n)
  then show ?case by (subst dec_digits.simps) (simp add: is_digit_char)
qed

lemma dec_digits_not_Nil [simp]: "dec_digits n \<noteq> []"
  by (subst dec_digits.simps) simp

lemma digits_val_append: "digits_val (s @ [c]) = 10 * digits_val s + digit_val c"
  by (simp add: digits_val_def)

lemma digits_val_dec [simp]: "digits_val (dec_digits n) = n"
proof (induction n rule: dec_digits.induct)
  case (1 n)
  show ?case
  proof (cases "n < 10")
    case True
    then show ?thesis by (subst dec_digits.simps) (simp add: digits_val_def digit_val_def of_char_digit)
  next
    case False
    then show ?thesis
      using 1 by (subst dec_digits.simps) (simp add: digits_val_append digit_val_def of_char_digit)
  qed
qed

lemma ParseUint_Itoa: "0 \<le> n \<Longrightarrow> n < 2 ^ 64 \<Longrightarrow> ParseUint (Itoa n) = Some n"
  by (simp add: ParseUint_def Itoa_def)

lemma digit_not_sign: "is_digit c \<Longrightarrow> c \<noteq> CHR ''-'' \<and> c \<noteq> CHR ''+''"
  by (auto simp: is_digit_def less_eq_char_def)

lemma ParseInt_unsigned:
  assumes "list_all is_digit s"
  shows "ParseInt s = (case ParseUint s of None \<Rightarrow> None | Some n \<Rightarrow> if n \<ge> 2 ^ 63 then None else Some n)"
proof (cases s)
  case Nil
  then show ?thesis by (simp add: ParseInt_def ParseUint_def)
next
  case (Cons c cs)
  then show ?thesis using assms digit_not_sign [of c] by (simp add: ParseInt_def Let_def split: option.split)
qed

lemma ParseInt_Itoa: "fits64 n \<Longrightarrow> ParseInt (Itoa n) = Some n"
proof (cases "n < 0")
  case True
  assume "fits64 n"
  with True have "ParseUint (dec_digits (nat (- n))) = Some (- n)"
    using ParseUint_Itoa [of "- n"] by (simp add: Itoa_def fits64_def minInt64_def)
  then show ?thesis
    using True \<open>fits64 n\<close> by (simp add: ParseInt_def Itoa_def fits64_def minInt64_def)
next
  case False
  assume "fits64 n"
  with False show ?thesis
    using ParseUint_Itoa [of n] ParseInt_unsigned [of "Itoa n"]
    by (simp add: Itoa_def fits64_def maxInt64_def)
qed

subsection \<open>Zero-padded numbers\<close>

lemma digit_val_less: "is_digit c \<Longrightarrow> digit_val c < 10"
  by (auto simp: is_digit_iff digit_val_def)

lemma digit_order: "is_digit c \<Longrightarrow> is_digit d \<Longrightarrow> c < d \<longleftrightarrow> digit_val c < digit_val d"
  by (auto simp: is_digit_iff less_char_def digit_val_def)

lemma digit_eq: "is_digit c \<Longrightarrow> is_digit d \<Longrightarrow> digit_val c = digit_val d \<Longrightarrow> c = d"
proof -
  assume "is_digit c" "is_digit d" "digit_val c = digit_val d"
  then have "\<not> c < d" "\<not> d < c" using digit_order by simp_all
  then show "c = d" by simp
qed

lemma digits_val_acc: "foldl (\<lambda>n c. 10 * n + digit_val c) a s = a * 10 ^ length s + digits_val s"
proof (induction s arbitrary: a)
  case (Cons c s)
  from Cons [of "10 * a + digit_val c"] Cons [of "digit_val c"] show ?case
    by (simp add: digits_val_def algebra_simps)
qed (simp add: digits_val_def)

lemma digits_val_Cons: "digits_val (c # s) = digit_val c * 10 ^ length s + digits_val s"
  using digits_val_acc [of "digit_val c" s] by (simp add: digits_val_def)

lemma digits_val_less: "list_all is_digit s \<Longrightarrow> digits_val s < 10 ^ length s"
proof (induction s)
  case (Cons c s)
  then have "digit_val c + 1 \<le> 10" "digits_val s < 10 ^ length s" using digit_val_less [of c] by simp_all
  then have "digits_val (c # s) < (digit_val c + 1) * 10 ^ length s" by (simp add: digits_val_Cons)
  also have "\<dots> \<le> 10 * 10 ^ length s" using \<open>digit_val c + 1 \<le> 10\<close> by (rule mult_le_mono1)
  finally show ?case by simp
qed (simp add: digits_val_def)

text \<open>Digit strings of one length are ordered like the numbers they denote.\<close>

lemma digits_order:
  assumes "length s = length t" "list_all is_digit s" "list_all is_digit t" "digits_val s < digits_val t"
  shows "s @ u < t @ v"
  using assms
proof (induction s t rule: list_induct2)
  case (Cons c s d t)
  have c: "is_digit c" "is_digit d" using Cons.prems by simp_all
  have bounds: "digits_val s < 10 ^ length s" "digits_val t < 10 ^ length s"
    using Cons digits_val_less [of s] digits_val_less [of t] by simp_all
  have "\<not> digit_val d < digit_val c"
  proof
    assume "digit_val d < digit_val c"
    then have "(digit_val d + 1) * 10 ^ length s \<le> digit_val c * 10 ^ length s" by (intro mult_le_mono1) simp
    then show False using bounds Cons.prems(3) Cons.hyps by (simp add: digits_val_Cons)
  qed
  then consider "digit_val c < digit_val d" | "digit_val c = digit_val d" by linarith
  then show ?case
  proof cases
    case 1
    then show ?thesis using digit_order [OF c] by simp
  next
    case 2
    then show ?thesis using digit_eq [OF c] Cons by (simp add: digits_val_Cons)
  qed
qed simp

lemma dec_digits_length: "n < 10 ^ k \<Longrightarrow> 0 < k \<Longrightarrow> length (dec_digits n) \<le> k"
proof (induction n arbitrary: k rule: dec_digits.induct)
  case (1 n)
  show ?case
  proof (cases "n < 10")
    case True
    then show ?thesis using "1.prems" by (subst dec_digits.simps) simp
  next
    case False
    with "1.prems" obtain j where k: "k = Suc j" by (cases k) simp_all
    have "0 < j" using "1.prems" False k by (cases j) simp_all
    have "n div 10 < 10 ^ j" using "1.prems" k by (simp add: less_mult_imp_div_less)
    with False k \<open>0 < j\<close> "1.IH" [of j] show ?thesis by (subst dec_digits.simps) simp
  qed
qed

lemma digits_val_zeros: "digits_val (replicate k CHR ''0'' @ s) = digits_val s"
  by (induction k) (simp_all add: digits_val_Cons digit_val_def)

lemma is_digit_zeros: "list_all is_digit (replicate k CHR ''0'')"
  by (simp add: list_all_iff is_digit_iff)

lemma pad20_digits: "0 \<le> i \<Longrightarrow> list_all is_digit (pad20 i)"
  by (simp add: pad20_def Let_def is_digit_zeros)

lemma pad20_val: "0 \<le> i \<Longrightarrow> digits_val (pad20 i) = nat i"
  by (simp add: pad20_def Let_def digits_val_zeros)

lemma pad20_length: "0 \<le> i \<Longrightarrow> i < 10 ^ 20 \<Longrightarrow> length (pad20 i) = 20"
  using dec_digits_length [of "nat i" 20] by (simp add: pad20_def Let_def nat_less_iff)

lemma pad20_mono:
  assumes "0 \<le> i" "i < j" "j < 10 ^ 20"
  shows "pad20 i @ u < pad20 j @ v"
  using assms by (intro digits_order) (simp_all add: pad20_length pad20_digits pad20_val)

subsection \<open>Graphic characters are not trimmed\<close>

text \<open>The visible ASCII characters; none of them begins or ends the encoding of white space.\<close>

definition graphic :: "char \<Rightarrow> bool" where
  "graphic c \<longleftrightarrow> 33 \<le> (of_char c :: nat) \<and> (of_char c :: nat) \<le> 126"

lemma strip_one_graphic:
  assumes "list_all graphic s" "\<And>r. r \<in> set rs \<Longrightarrow> r \<noteq> [] \<and> \<not> graphic (hd r)"
  shows "strip_one rs s = None"
  unfolding strip_one_None_iff
proof
  fix r assume "r \<in> set rs"
  then have r: "r \<noteq> []" "\<not> graphic (hd r)" using assms(2) by auto
  then show "\<not> has_prefix s r" using assms(1) by (cases r) (auto simp: has_prefix_iff)
qed

lemma TrimSpace_graphic: "list_all graphic s \<Longrightarrow> TrimSpace s = s"
proof -
  assume s: "list_all graphic s"
  have "strip_one space_runes s = None"
    by (rule strip_one_graphic [OF s]) (auto simp: space_runes_def graphic_def)
  moreover have "strip_one (map rev space_runes) (rev s) = None"
    by (rule strip_one_graphic) (use s in \<open>auto simp: space_runes_def graphic_def list_all_iff\<close>)
  ultimately show ?thesis
    by (simp add: TrimSpace_def trim_left.simps [of s] trim_rev.simps [of "rev s"])
qed

lemma digit_graphic: "is_digit c \<Longrightarrow> graphic c"
  by (simp add: is_digit_iff graphic_def)

lemma TrimSpace_digits: "list_all is_digit s \<Longrightarrow> TrimSpace s = s"
  by (rule TrimSpace_graphic) (auto simp: list_all_iff digit_graphic)

lemma hex_chars: "ch \<in> set (hex_EncodeToString s) \<Longrightarrow>
  \<exists>n<16. ch = hex_digit n"
proof (induction s)
  case (Cons a s)
  have "(of_char a :: nat) < 256" using of_char_mod_256 [of a, where 'a = nat] by (metis mod_less_divisor zero_less_numeral)
  then have "(of_char a :: nat) div 16 < 16" "(of_char a :: nat) mod 16 < 16" by linarith+
  then have "\<exists>n<16. hex_digit (of_char a div 16) = hex_digit n" "\<exists>n<16. hex_digit (of_char a mod 16) = hex_digit n"
    by blast+
  with Cons show ?case by (auto simp: hex_EncodeToString_def Let_def)
qed (simp add: hex_EncodeToString_def)

lemma hex_digit_graphic: "n < 16 \<Longrightarrow> graphic (hex_digit n)"
  by (simp add: hex_digit_def graphic_def)

lemma hex_graphic: "list_all graphic (hex_EncodeToString s)"
  using hex_chars hex_digit_graphic by (fastforce simp: list_all_iff)

end
