(* ===== verification/Safe_Resolver.thy ===== *)
theory Safe_Resolver
  imports Net_Address Go_Strconv
begin

text \<open>
  The address guard of the probes (\<open>internal/agent/probe.go\<close>): \<open>validateSafeProbeAddress\<close>,
  \<open>resolveSafeProbeHostWithLookup\<close>, the caching resolver that pins a host name to its first answer, and
  the dialers. \<open>netip.ParseAddr\<close> and the DNS lookup are parameters (\<open>parse\<close>, \<open>lookup\<close>), about which
  nothing is assumed. A context is the answer of \<open>ctx.Err()\<close>.
\<close>

datatype ctx_err = Canceled | DeadlineExceeded

datatype probe_error =
    InvalidProbeTarget
  | UnsafeProbeTarget
  | UnsafeProbeRedirect
  | ProbeDNS
  | Ctx ctx_err
  | Net string bool           \<comment> \<open>another error: its text, and whether \<open>Timeout()\<close> holds\<close>

type_synonym ctx = "ctx_err option"

subsection \<open>Addresses\<close>

definition alwaysUnsafeProbeAddressPrefixes :: "Prefix list" where
  "alwaysUnsafeProbeAddressPrefixes =
     [P4 0 8, P4 0xA9FE0000 16, P4 0x646464C8 32, P6 0xfd000ec2000000000000000000000254 128, P6 0 128,
      P6 0xfe800000000000000000000000000000 10]"

definition validateSafeProbeAddress :: "Addr \<Rightarrow> bool \<Rightarrow> probe_error option" where
  "validateSafeProbeAddress address allowLoopback =
     (if \<not> IsValid address \<or> IsUnspecified address \<or> IsMulticast address \<or> IsLinkLocalUnicast address \<or>
         IsLinkLocalMulticast address then Some UnsafeProbeTarget
      else if list_ex (\<lambda>p. Contains p address) alwaysUnsafeProbeAddressPrefixes then Some UnsafeProbeTarget
      else if allowLoopback \<and> IsLoopback address then None
      else if IsLoopback address then Some UnsafeProbeTarget
      else None)"

definition validProbePort :: "int \<Rightarrow> bool" where
  "validProbePort port \<longleftrightarrow> port > 0 \<and> port \<le> 65535"

subsection \<open>Host names\<close>

definition strings_Trim :: "string \<Rightarrow> string \<Rightarrow> string" where
  "strings_Trim s cutset =
     rev (dropWhile (\<lambda>ch. ch \<in> set cutset) (rev (dropWhile (\<lambda>ch. ch \<in> set cutset) s)))"

definition normalizeProbeHost :: "string \<Rightarrow> string" where
  "normalizeProbeHost host = TrimSpace (strings_Trim host ''[]'')"

definition classifyContextError :: "probe_error \<Rightarrow> string" where
  "classifyContextError e =
     (case e of Ctx Canceled \<Rightarrow> ''cancelled'' | Ctx DeadlineExceeded \<Rightarrow> ''timeout'' | _ \<Rightarrow> [])"

text \<open>The loop over the answers of the DNS.\<close>

fun resolve_loop :: "bool \<Rightarrow> Addr list \<Rightarrow> Addr list \<Rightarrow> probe_error + Addr list" where
  "resolve_loop allowLocalhost [] result = Inr (rev result)"
| "resolve_loop allowLocalhost (raw # rest) result =
     (let address = Unmap raw in
      if allowLocalhost \<and> \<not> IsLoopback address then Inl UnsafeProbeTarget
      else case validateSafeProbeAddress address allowLocalhost of
        Some e \<Rightarrow> Inl e
      | None \<Rightarrow>
          if address \<in> set result then resolve_loop allowLocalhost rest result
          else resolve_loop allowLocalhost rest (address # result))"

text \<open>
  \<open>ctx1\<close> is the context before the lookup, \<open>ctx2\<close> after it failed. The lookup gives its error or its
  answers.
\<close>

type_synonym lookup_fun = "string \<Rightarrow> probe_error + Addr list"

definition resolveSafeProbeHostWithLookup ::
  "(string \<Rightarrow> Addr option) \<Rightarrow> ctx \<Rightarrow> ctx \<Rightarrow> string \<Rightarrow> bool \<Rightarrow> lookup_fun \<Rightarrow> probe_error + Addr list" where
  "resolveSafeProbeHostWithLookup parse ctx1 ctx2 host0 allowExplicitLoopback lookup =
     (let host = normalizeProbeHost host0 in
      if host = [] \<or> HasPrefix host ''-'' then Inl InvalidProbeTarget
      else case parse host of
        Some raw \<Rightarrow>
          (let address = Unmap raw in
           case validateSafeProbeAddress address allowExplicitLoopback of
             Some e \<Rightarrow> Inl e
           | None \<Rightarrow> Inr [address])
      | None \<Rightarrow>
          (case ctx1 of
             Some e \<Rightarrow> Inl (Ctx e)
           | None \<Rightarrow>
               (case lookup host of
                  Inl err \<Rightarrow>
                    (case ctx2 of
                       Some e \<Rightarrow> Inl (Ctx e)
                     | None \<Rightarrow> if classifyContextError err \<noteq> [] then Inl err else Inl ProbeDNS)
                | Inr addresses \<Rightarrow>
                    if addresses = [] then Inl ProbeDNS
                    else resolve_loop (allowExplicitLoopback \<and> EqualFold host ''localhost'') addresses [])))"

subsection \<open>The caching resolver\<close>

type_synonym resolver_cache = "string \<rightharpoonup> Addr list"

text \<open>
  \<open>resolve\<close> looks into the cache, resolves with the lock released, and looks again before it stores.
  \<open>other\<close> is the cache as it is when the lock is taken the second time: what other goroutines stored in
  between. The result is paired with the cache after the call.
\<close>

definition resolve ::
  "(string \<Rightarrow> Addr option) \<Rightarrow> ctx \<Rightarrow> ctx \<Rightarrow> string \<Rightarrow> bool \<Rightarrow> lookup_fun \<Rightarrow> resolver_cache \<Rightarrow> resolver_cache \<Rightarrow>
   (probe_error + Addr list) \<times> resolver_cache" where
  "resolve parse ctx1 ctx2 host allowExplicitLoopback lookup cache other =
     (let normalizedHost = normalizeProbeHost host in
      if normalizedHost = [] \<or> HasPrefix normalizedHost ''-'' then (Inl InvalidProbeTarget, cache)
      else if parse normalizedHost \<noteq> None then
        (resolveSafeProbeHostWithLookup parse ctx1 ctx2 normalizedHost allowExplicitLoopback lookup, cache)
      else
        let cacheKey = ToLower normalizedHost in
        case cache cacheKey of
          Some cached \<Rightarrow> (Inr cached, cache)
        | None \<Rightarrow>
            (case resolveSafeProbeHostWithLookup parse ctx1 ctx2 normalizedHost allowExplicitLoopback lookup of
               Inl e \<Rightarrow> (Inl e, other)
             | Inr addresses \<Rightarrow>
                 (case other cacheKey of
                    Some cached \<Rightarrow> (Inr cached, other)
                  | None \<Rightarrow> (Inr addresses, other(cacheKey \<mapsto> addresses)))))"

subsection \<open>Dialing\<close>

text \<open>
  \<open>dial\<close> is the answer of the operating system for one address: \<open>None\<close> is a connection. The result names
  the addresses that were dialed, in order.
\<close>

definition skipped :: "string \<Rightarrow> Addr \<Rightarrow> bool" where
  "skipped network address \<longleftrightarrow> (network = ''tcp4'' \<and> \<not> Is4 address) \<or> (network = ''tcp6'' \<and> \<not> Is6 address)"

fun dial_loop ::
  "(Addr \<Rightarrow> probe_error option) \<Rightarrow> string \<Rightarrow> Addr list \<Rightarrow> probe_error option \<Rightarrow> (probe_error + Addr) \<times> Addr list" where
  "dial_loop dial network [] lastErr = (Inl (case lastErr of Some e \<Rightarrow> e | None \<Rightarrow> InvalidProbeTarget), [])"
| "dial_loop dial network (address # rest) lastErr =
     (if skipped network address then dial_loop dial network rest lastErr
      else case dial address of
        None \<Rightarrow> (Inr address, [address])
      | Some e \<Rightarrow> (let (r, tried) = dial_loop dial network rest (Some e) in (r, address # tried)))"

definition dialResolvedProbeAddress ::
  "(Addr \<Rightarrow> probe_error option) \<Rightarrow> string \<Rightarrow> Addr list \<Rightarrow> int \<Rightarrow> (probe_error + Addr) \<times> Addr list" where
  "dialResolvedProbeAddress dial network addresses port =
     (if \<not> validProbePort port \<or> addresses = [] then (Inl InvalidProbeTarget, [])
      else dial_loop dial network addresses None)"

text \<open>\<open>net.SplitHostPort\<close> is the parameter \<open>split\<close>; \<open>strconv.Atoi\<close> of a 64-bit platform is \<open>ParseInt\<close>.\<close>

definition dialSafeProbeNetworkAddressWithResolver ::
  "(string \<Rightarrow> (string \<times> string) option) \<Rightarrow> (string \<Rightarrow> Addr option) \<Rightarrow> ctx \<Rightarrow> ctx \<Rightarrow> lookup_fun \<Rightarrow>
   (Addr \<Rightarrow> probe_error option) \<Rightarrow> string \<Rightarrow> string \<Rightarrow> resolver_cache \<Rightarrow> resolver_cache \<Rightarrow>
   ((probe_error + Addr) \<times> Addr list) \<times> resolver_cache" where
  "dialSafeProbeNetworkAddressWithResolver split parse ctx1 ctx2 lookup dial network address cache other =
     (case split address of
        None \<Rightarrow> ((Inl InvalidProbeTarget, []), cache)
      | Some (host, portText) \<Rightarrow>
          (case ParseInt portText of
             None \<Rightarrow> ((Inl InvalidProbeTarget, []), cache)
           | Some port \<Rightarrow>
               if \<not> validProbePort port then ((Inl InvalidProbeTarget, []), cache)
               else case resolve parse ctx1 ctx2 host True lookup cache other of
                 (Inl e, cache') \<Rightarrow> ((Inl e, []), cache')
               | (Inr addresses, cache') \<Rightarrow> (dialResolvedProbeAddress dial network addresses port, cache')))"

subsection \<open>Which addresses are accepted\<close>

text \<open>The blocked addresses as numeric ranges, for addresses without a zone.\<close>

definition blocked4 :: "int \<Rightarrow> bool" where
  "blocked4 n \<longleftrightarrow> n < 0x1000000 \<or> (0xA9FE0000 \<le> n \<and> n \<le> 0xA9FEFFFF) \<or> n = 0x646464C8 \<or>
     (0xE0000000 \<le> n \<and> n \<le> 0xEFFFFFFF)"

definition blocked6 :: "int \<Rightarrow> bool" where
  "blocked6 n \<longleftrightarrow> n = 0 \<or> n = 0xfd000ec2000000000000000000000254 \<or>
     (0xfe800000000000000000000000000000 \<le> n \<and> n \<le> 0xfebfffffffffffffffffffffffffffff) \<or>
     0xff000000000000000000000000000000 \<le> n"

lemma link_local_multicast_multicast: "link_local_multicast a \<Longrightarrow> multicast a"
proof (cases a)
  case (A4 w)
  assume "link_local_multicast a"
  then have "drop_bit 20 (drop_bit 8 w) = drop_bit 20 (0xE00000 :: 32 word)" using A4 by simp
  then show ?thesis using A4 by simp
next
  case (A6 w z)
  assume "link_local_multicast a"
  then have "drop_bit 8 (drop_bit 112 w AND 0xFF0F) = drop_bit 8 (0xFF02 :: 128 word)" using A6 by simp
  then have "drop_bit 120 w AND 0xFF = (0xFF :: 128 word)" by (simp add: drop_bit_and)
  moreover have "drop_bit 120 w AND 0xFF = drop_bit 120 w"
  proof -
    have "drop_bit 120 w AND mask 8 = take_bit 8 (drop_bit 120 w)" by (simp add: take_bit_eq_mask)
    also have "\<dots> = drop_bit 120 w"
      using take_bit_length_eq [of w] by (simp add: take_bit_drop_bit)
    finally show ?thesis by (simp add: mask_eq_exp_minus_1)
  qed
  ultimately show ?thesis using A6 by simp
qed simp

lemma validate_A4:
  "validateSafeProbeAddress (A4 w) allow = None \<longleftrightarrow>
     \<not> blocked4 (uint w) \<and> (0x7F000000 \<le> uint w \<and> uint w \<le> 0x7FFFFFFF \<longrightarrow> allow)"
proof -
  have top: "drop_bit 24 w = 0 \<longleftrightarrow> uint w < 0x1000000" "drop_bit 24 w = 127 \<longleftrightarrow> 0x7F000000 \<le> uint w \<and> uint w < 0x80000000"
    "drop_bit 28 w = 0xE \<longleftrightarrow> 0xE0000000 \<le> uint w \<and> uint w < 0xF0000000"
    "drop_bit 16 w = 0xA9FE \<longleftrightarrow> 0xA9FE0000 \<le> uint w \<and> uint w < 0xA9FF0000"
    using drop_bit_range [of 0 24 w] drop_bit_range [of 127 24 w] drop_bit_range [of "0xE" 28 w]
      drop_bit_range [of "0xA9FE" 16 w] by simp_all
  have zero: "w = 0 \<Longrightarrow> drop_bit 24 w = 0" by simp
  have multi: "drop_bit 8 w = 0xE00000 \<Longrightarrow> drop_bit 28 w = 0xE"
    using link_local_multicast_multicast [of "A4 w"] by simp
  have exact: "w = 0x646464C8 \<longleftrightarrow> uint w = 0x646464C8" by (simp add: word_uint_eq_iff)
  have "validateSafeProbeAddress (A4 w) allow = None \<longleftrightarrow>
     \<not> drop_bit 24 w = 0 \<and> \<not> drop_bit 28 w = 0xE \<and> \<not> drop_bit 16 w = 0xA9FE \<and> w \<noteq> 0x646464C8 \<and>
     (drop_bit 24 w = 127 \<longrightarrow> allow)"
    using zero multi
    by (auto simp: validateSafeProbeAddress_def alwaysUnsafeProbeAddressPrefixes_def IsValid_def IsUnspecified_def
        IsMulticast_def IsLinkLocalUnicast_def IsLinkLocalMulticast_def IsLoopback_def)
  then show ?thesis by (simp only: top exact blocked4_def) auto
qed

lemma validate_A6:
  assumes "drop_bit 32 w \<noteq> 0xFFFF"
  shows "validateSafeProbeAddress (A6 w []) allow = None \<longleftrightarrow> \<not> blocked6 (uint w) \<and> (w = 1 \<longrightarrow> allow)"
proof -
  have lt: "uint w < 2 ^ 128" using uint_lt2p [of w] by simp
  have top: "drop_bit 120 w = 0xFF \<longleftrightarrow> 0xff000000000000000000000000000000 \<le> uint w"
    "drop_bit 118 w = 0x3FA \<longleftrightarrow> 0xfe800000000000000000000000000000 \<le> uint w \<and> uint w < 0xfec00000000000000000000000000000"
    using drop_bit_range [of "0xFF" 120 w] drop_bit_range [of "0x3FA" 118 w] lt by simp_all
  have multi: "drop_bit 112 w AND 0xFF0F = 0xFF02 \<Longrightarrow> drop_bit 120 w = 0xFF"
    using link_local_multicast_multicast [of "A6 w []"] by simp
  have exact: "w = 0xfd000ec2000000000000000000000254 \<longleftrightarrow> uint w = 0xfd000ec2000000000000000000000254" "w = 0 \<longleftrightarrow> uint w = 0"
    by (simp_all add: word_uint_eq_iff)
  have "validateSafeProbeAddress (A6 w []) allow = None \<longleftrightarrow>
     w \<noteq> 0 \<and> \<not> drop_bit 120 w = 0xFF \<and> \<not> drop_bit 118 w = 0x3FA \<and> w \<noteq> 0xfd000ec2000000000000000000000254 \<and>
     (w = 1 \<longrightarrow> allow)"
    using assms multi
    by (auto simp: validateSafeProbeAddress_def alwaysUnsafeProbeAddressPrefixes_def IsValid_def IsUnspecified_def
        IsMulticast_def IsLinkLocalUnicast_def IsLinkLocalMulticast_def IsLoopback_def)
  then show ?thesis by (simp only: top exact blocked6_def) auto
qed

text \<open>A zone takes an address out of every prefix and out of \<open>IsUnspecified\<close>.\<close>

lemma validate_zoned:
  assumes "drop_bit 32 w \<noteq> 0xFFFF" "z \<noteq> []"
  shows "validateSafeProbeAddress (A6 w z) allow = None \<longleftrightarrow>
    \<not> multicast (A6 w z) \<and> \<not> link_local_unicast (A6 w z) \<and> (w = 1 \<longrightarrow> allow)"
  using assms link_local_multicast_multicast [of "A6 w z"]
  by (auto simp: validateSafeProbeAddress_def alwaysUnsafeProbeAddressPrefixes_def IsValid_def IsUnspecified_def
      IsMulticast_def IsLinkLocalUnicast_def IsLinkLocalMulticast_def IsLoopback_def)

lemma validate_mono: "validateSafeProbeAddress a False = None \<Longrightarrow> validateSafeProbeAddress a True = None"
  by (auto simp: validateSafeProbeAddress_def split: if_splits)

lemma validate_loopback: "validateSafeProbeAddress a True = None \<Longrightarrow> \<not> IsLoopback a \<Longrightarrow> validateSafeProbeAddress a False = None"
  by (auto simp: validateSafeProbeAddress_def split: if_splits)

subsection \<open>Answers of the resolver\<close>

text \<open>
  What \<open>resolveSafeProbeHostWithLookup\<close> promises of its answer for a normalized host: not empty, no
  repetition, no IPv4-mapped form, every address valid; a loopback address only for a literal or for
  \<open>localhost\<close> with loopback allowed, and then nothing but loopback for \<open>localhost\<close>.
\<close>

definition answer_safe :: "(string \<Rightarrow> Addr option) \<Rightarrow> string \<Rightarrow> bool \<Rightarrow> Addr list \<Rightarrow> bool" where
  "answer_safe parse host allow addrs \<longleftrightarrow>
     addrs \<noteq> [] \<and> distinct addrs \<and> (\<forall>a\<in>set addrs. \<not> Is4In6 a) \<and>
     (\<forall>a\<in>set addrs. validateSafeProbeAddress a (allow \<and> (parse host \<noteq> None \<or> EqualFold host ''localhost'')) = None) \<and>
     (allow \<and> parse host = None \<and> EqualFold host ''localhost'' \<longrightarrow> (\<forall>a\<in>set addrs. IsLoopback a))"

lemma resolve_loop_ok:
  assumes "resolve_loop allow raws result = Inr addrs"
    "distinct result" "\<forall>a\<in>set result. \<not> Is4In6 a \<and> validateSafeProbeAddress a allow = None \<and> (allow \<longrightarrow> IsLoopback a)"
  shows "distinct addrs \<and> (\<forall>a\<in>set addrs. \<not> Is4In6 a \<and> validateSafeProbeAddress a allow = None \<and> (allow \<longrightarrow> IsLoopback a))
    \<and> set addrs = Unmap ` set raws \<union> set result"
  using assms
proof (induction allow raws result rule: resolve_loop.induct)
  case (2 allow raw rest result)
  let ?a = "Unmap raw"
  have valid: "allow \<longrightarrow> IsLoopback ?a" "validateSafeProbeAddress ?a allow = None"
    using "2.prems"(1) by (auto simp: Let_def split: if_splits option.splits)
  show ?case
  proof (cases "?a \<in> set result")
    case True
    then have "resolve_loop allow rest result = Inr addrs" using "2.prems"(1) valid by (auto simp: Let_def split: if_splits)
    then show ?thesis using "2.IH"(1) [OF refl _ valid(2) True] "2.prems" valid True by auto
  next
    case False
    then have "resolve_loop allow rest (?a # result) = Inr addrs" using "2.prems"(1) valid by (auto simp: Let_def split: if_splits)
    then show ?thesis using "2.IH"(2) [OF refl _ valid(2) False] "2.prems" valid False unmapped_Unmap by auto
  qed
qed auto

lemma resolveSafe_answer:
  assumes "resolveSafeProbeHostWithLookup parse ctx1 ctx2 host allow lookup = Inr addrs"
  shows "answer_safe parse (normalizeProbeHost host) allow addrs"
proof (cases "parse (normalizeProbeHost host)")
  case None
  define lo where "lo \<longleftrightarrow> allow \<and> EqualFold (normalizeProbeHost host) ''localhost''"
  obtain raws where raws: "raws \<noteq> []" "resolve_loop lo raws [] = Inr addrs"
    using assms None unfolding lo_def
    by (auto simp: resolveSafeProbeHostWithLookup_def Let_def split: if_splits option.splits sum.splits)
  then show ?thesis
    using resolve_loop_ok [OF raws(2)] None by (auto simp: answer_safe_def lo_def)
next
  case (Some raw)
  then show ?thesis
    using assms unmapped_Unmap [of raw]
    by (auto simp: resolveSafeProbeHostWithLookup_def answer_safe_def Let_def split: if_splits option.splits)
qed

subsection \<open>The cache pins host names\<close>

definition cache_safe :: "(string \<Rightarrow> Addr option) \<Rightarrow> resolver_cache \<Rightarrow> bool" where
  "cache_safe parse cache \<longleftrightarrow>
     (\<forall>key addrs. cache key = Some addrs \<longrightarrow>
        (\<exists>h allow. ToLower h = key \<and> answer_safe parse (normalizeProbeHost h) allow addrs))"

lemma cache_safe_empty: "cache_safe parse Map.empty"
  by (simp add: cache_safe_def)

text \<open>Case analysis of \<open>resolve\<close>: no answer, a literal, a cached answer, or a new one.\<close>

lemma resolve_cases:
  assumes r: "resolve parse ctx1 ctx2 host allow lookup cache other = (r, cache')"
  obtains
    (failed) e where "r = Inl e" "cache' = cache \<or> cache' = other"
  | (literal) addrs where "r = Inr addrs" "cache' = cache" "parse (normalizeProbeHost host) \<noteq> None"
      "answer_safe parse (normalizeProbeHost (normalizeProbeHost host)) allow addrs"
  | (hit) addrs where "r = Inr addrs" "cache' = cache" "cache (ToLower (normalizeProbeHost host)) = Some addrs"
  | (late) addrs where "r = Inr addrs" "cache' = other" "other (ToLower (normalizeProbeHost host)) = Some addrs"
  | (new) addrs where "r = Inr addrs" "cache' = other(ToLower (normalizeProbeHost host) \<mapsto> addrs)"
      "other (ToLower (normalizeProbeHost host)) = None"
      "answer_safe parse (normalizeProbeHost (normalizeProbeHost host)) allow addrs"
proof -
  let ?h = "normalizeProbeHost host" and ?res = "resolveSafeProbeHostWithLookup parse ctx1 ctx2 (normalizeProbeHost host) allow lookup"
  have safe: "answer_safe parse (normalizeProbeHost ?h) allow addrs" if "?res = Inr addrs" for addrs
    using resolveSafe_answer [OF that] .
  consider "?h = [] \<or> HasPrefix ?h ''-''" | "\<not> (?h = [] \<or> HasPrefix ?h ''-'')" "parse ?h \<noteq> None"
    | "\<not> (?h = [] \<or> HasPrefix ?h ''-'')" "parse ?h = None" by blast
  then show thesis
  proof cases
    case 1
    then show ?thesis using r failed by (auto simp: resolve_def Let_def)
  next
    case 2
    then have "r = ?res" "cache' = cache" using r by (auto simp: resolve_def Let_def)
    then show ?thesis using 2 failed literal safe by (cases ?res) simp_all
  next
    case 3
    then have eq: "(r, cache') =
       (case cache (ToLower ?h) of Some cached \<Rightarrow> (Inr cached, cache)
        | None \<Rightarrow> (case ?res of Inl e \<Rightarrow> (Inl e, other)
            | Inr addresses \<Rightarrow> (case other (ToLower ?h) of Some cached \<Rightarrow> (Inr cached, other)
                | None \<Rightarrow> (Inr addresses, other(ToLower ?h \<mapsto> addresses)))))"
      using r by (auto simp: resolve_def Let_def)
    show ?thesis
    proof (cases "cache (ToLower ?h)")
      case None
      show ?thesis
      proof (cases ?res)
        case (Inl e)
        then show ?thesis using eq None failed by simp
      next
        case (Inr addrs)
        then show ?thesis using eq None late new safe by (cases "other (ToLower ?h)") simp_all
      qed
    qed (use eq hit in simp)
  qed
qed

lemma resolve_cache_safe:
  assumes "resolve parse ctx1 ctx2 host allow lookup cache other = (r, cache')"
    "cache_safe parse cache" "cache_safe parse other"
  shows "cache_safe parse cache'"
  using assms(1)
proof (cases rule: resolve_cases)
  case (new addrs)
  then show ?thesis
    using assms(3) unfolding cache_safe_def by (auto split: if_splits)
qed (use assms in auto)

lemma resolve_safe:
  assumes "resolve parse ctx1 ctx2 host allow lookup cache other = (Inr addrs, cache')"
    "cache_safe parse cache" "cache_safe parse other"
  shows "\<exists>h allow'. ToLower h = ToLower (normalizeProbeHost host) \<and> answer_safe parse (normalizeProbeHost h) allow' addrs"
  using assms(1) by (cases rule: resolve_cases) (use assms(2,3) in \<open>auto simp: cache_safe_def\<close>)

lemma resolve_pinned:
  assumes "resolve parse ctx1 ctx2 host allow lookup cache other = (Inr addrs, cache')"
    "parse (normalizeProbeHost host) = None"
  shows "cache' (ToLower (normalizeProbeHost host)) = Some addrs"
  using assms(1) by (cases rule: resolve_cases) (use assms(2) in auto)

lemma resolve_keeps:
  assumes "resolve parse ctx1 ctx2 host allow lookup cache other = (r, cache')" "cache \<subseteq>\<^sub>m other"
  shows "cache \<subseteq>\<^sub>m cache'"
  using assms(1)
proof (cases rule: resolve_cases)
  case (new addrs)
  then show ?thesis using assms(2) by (auto simp: map_le_def dom_def)
qed (use assms in auto)

lemma resolve_valid_host:
  "resolve parse ctx1 ctx2 host allow lookup cache other = (Inr addrs, cache') \<Longrightarrow>
   normalizeProbeHost host \<noteq> [] \<and> \<not> HasPrefix (normalizeProbeHost host) ''-''"
  by (auto simp: resolve_def Let_def split: if_splits)

lemma resolve_cached:
  assumes "cache (ToLower (normalizeProbeHost host)) = Some addrs" "parse (normalizeProbeHost host) = None"
    "normalizeProbeHost host \<noteq> []" "\<not> HasPrefix (normalizeProbeHost host) ''-''"
  shows "resolve parse ctx1 ctx2 host allow lookup cache other = (Inr addrs, cache)"
  using assms by (simp add: resolve_def Let_def)

subsection \<open>Dialed addresses\<close>

lemma dial_loop_tried: "set (snd (dial_loop dial network addrs lastErr)) \<subseteq> set addrs"
  by (induction dial network addrs lastErr rule: dial_loop.induct)
    (auto simp: case_prod_beta Let_def split: option.splits)

lemma dial_loop_result:
  "fst (dial_loop dial network addrs lastErr) = Inr a \<Longrightarrow> a \<in> set addrs \<and> dial a = None \<and> \<not> skipped network a"
  by (induction dial network addrs lastErr rule: dial_loop.induct)
    (auto simp: case_prod_beta Let_def split: option.splits if_splits)

lemma dialResolved_tried: "set (snd (dialResolvedProbeAddress dial network addrs port)) \<subseteq> set addrs"
  using dial_loop_tried by (simp add: dialResolvedProbeAddress_def)

lemma answer_safe_valid: "answer_safe parse h allow addrs \<Longrightarrow> a \<in> set addrs \<Longrightarrow> validateSafeProbeAddress a True = None"
proof -
  assume "answer_safe parse h allow addrs" "a \<in> set addrs"
  then obtain b where "validateSafeProbeAddress a b = None" unfolding answer_safe_def by blast
  then show ?thesis using validate_mono by (cases b) simp_all
qed

lemma dialSafe_tried:
  assumes "dialSafeProbeNetworkAddressWithResolver split parse ctx1 ctx2 lookup dial network address cache other
     = ((r, tried), cache')" "cache_safe parse cache" "cache_safe parse other" "a \<in> set tried"
  shows "validateSafeProbeAddress a True = None"
proof -
  obtain host portText port addrs where
    res: "resolve parse ctx1 ctx2 host True lookup cache other = (Inr addrs, cache')"
    and tried: "dialResolvedProbeAddress dial network addrs port = (r, tried)"
    using assms(1,4)
    by (auto simp: dialSafeProbeNetworkAddressWithResolver_def split: option.splits prod.splits if_splits sum.splits)
  have "a \<in> set addrs" using dialResolved_tried [of dial network addrs port] assms(4) tried by auto
  then show ?thesis using resolve_safe [OF res assms(2,3)] answer_safe_valid by blast
qed

subsection \<open>Properties\<close>



text \<open>C39: A zone defeats the guard: the unspecified address and the metadata address fd00:ec2::254 are rejected,
  but with any zone appended both are accepted, even when loopback is not allowed.\<close>

theorem zone_bypasses_guard:
  assumes "z \<noteq> []"
  shows "validateSafeProbeAddress (A6 0 []) allow = Some UnsafeProbeTarget \<and>
    validateSafeProbeAddress (A6 0xfd000ec2000000000000000000000254 []) allow = Some UnsafeProbeTarget \<and>
    validateSafeProbeAddress (A6 0 z) allow = None \<and>
    validateSafeProbeAddress (A6 0xfd000ec2000000000000000000000254 z) allow = None"
  using assms validate_zoned [of 0 z allow] validate_zoned [of "0xfd000ec2000000000000000000000254" z allow]
  by (simp add: validateSafeProbeAddress_def alwaysUnsafeProbeAddressPrefixes_def IsUnspecified_def)

theorem zone_bypasses_guard_witness:
  "validateSafeProbeAddress (A6 0xfd000ec2000000000000000000000254 ''eth0'') False = None"
  using zone_bypasses_guard [of "''eth0''" False] by simp

text \<open>Whatever the DNS answers, every address an HTTP probe dials has passed the guard, provided the cache holds
  only answers the resolver produced; and the cache keeps that property.\<close>

theorem dialed_addresses_pass_guard:
  assumes "cache_safe parse cache" "cache_safe parse other"
    "dialSafeProbeNetworkAddressWithResolver split parse ctx1 ctx2 lookup dial network address cache other = ((r, tried), cache')"
  shows "list_all (\<lambda>a. validateSafeProbeAddress a True = None) tried \<and> cache_safe parse cache'"
proof
  show "list_all (\<lambda>a. validateSafeProbeAddress a True = None) tried"
    using dialSafe_tried [OF assms(3,1,2)] by (simp add: list_all_iff)
  show "cache_safe parse cache'"
    using assms resolve_cache_safe [OF _ assms(1,2)]
    by (auto simp: dialSafeProbeNetworkAddressWithResolver_def split: option.splits prod.splits if_splits sum.splits)
qed

definition example_split :: "string \<Rightarrow> (string \<times> string) option" where
  "example_split address = Some (''example.org'', ''443'')"

theorem dialed_addresses_pass_guard_witness:
  "\<exists>r tried cache'. dialSafeProbeNetworkAddressWithResolver example_split (\<lambda>_. None) None None
      (\<lambda>_. Inr [A4 0xC0000201, A4 0xC0000202]) (\<lambda>_. None) ''tcp'' ''example.org:443'' Map.empty Map.empty = ((r, tried), cache') \<and>
    list_all (\<lambda>a. validateSafeProbeAddress a True = None) tried \<and> cache_safe (\<lambda>_. None) cache'"
proof -
  obtain r tried cache' where run: "dialSafeProbeNetworkAddressWithResolver example_split (\<lambda>_. None) None None
      (\<lambda>_. Inr [A4 0xC0000201, A4 0xC0000202]) (\<lambda>_. None) ''tcp'' ''example.org:443'' Map.empty Map.empty = ((r, tried), cache')"
    by (metis prod.exhaust)
  then show ?thesis using dialed_addresses_pass_guard [OF cache_safe_empty cache_safe_empty run] by blast
qed

text \<open>The resolver pins a host name: once it has answered for a name, it gives the same addresses for that name
  (in any case) as long as the cache is only extended, whatever the DNS answers later and whatever other
  goroutines store in between.\<close>

theorem host_name_is_pinned:
  assumes "resolve parse ctx1 ctx2 host allow lookup cache other = (Inr addrs, cache')"
    "parse (normalizeProbeHost host) = None" "cache' \<subseteq>\<^sub>m cache2"
    "ToLower (normalizeProbeHost host2) = ToLower (normalizeProbeHost host)" "parse (normalizeProbeHost host2) = None"
    "normalizeProbeHost host2 \<noteq> []" "\<not> HasPrefix (normalizeProbeHost host2) ''-''"
  shows "resolve parse ctx3 ctx4 host2 allow2 lookup2 cache2 other2 = (Inr addrs, cache2)"
proof -
  have "cache' (ToLower (normalizeProbeHost host)) = Some addrs" by (rule resolve_pinned [OF assms(1,2)])
  then have "cache2 (ToLower (normalizeProbeHost host2)) = Some addrs"
    using assms(3,4) by (metis domI map_le_def)
  then show ?thesis using assms(5-7) by (intro resolve_cached)
qed
lemma normalize_letters: "normalizeProbeHost ''h'' = ''h''"
  by (simp add: normalizeProbeHost_def strings_Trim_def TrimSpace_def trim_left.simps [of "''h''"] trim_rev.simps [of "''h''"]
      space_runes_def)

lemma example_resolve:
  "resolve (\<lambda>_. None) None None ''h'' True (\<lambda>_. Inr [A4 0xC0000201]) Map.empty Map.empty =
     (Inr [A4 0xC0000201], [''h'' \<mapsto> [A4 0xC0000201]])"
proof -
  have "validateSafeProbeAddress (A4 0xC0000201) False = None" by (simp add: validate_A4 blocked4_def)
  then show ?thesis
    by (simp add: resolve_def resolveSafeProbeHostWithLookup_def normalize_letters Let_def HasPrefix_def EqualFold_def
        ascii_lower_def)
qed

theorem host_name_is_pinned_witness:
  "resolve (\<lambda>_. None) None None ''h'' True (\<lambda>_. Inr [A4 0x7F000001]) [''h'' \<mapsto> [A4 0xC0000201]] Map.empty =
     (Inr [A4 0xC0000201], [''h'' \<mapsto> [A4 0xC0000201]])"
  by (rule host_name_is_pinned [OF example_resolve]) (simp_all add: normalize_letters HasPrefix_def)

end
