(* ===== verification/Go_URL.thy ===== *)
theory Go_URL
  imports Net_Address Go_Strconv
begin

text \<open>
  A parsed URL: the fields and accessors of \<open>net/url.URL\<close> the agent reads. \<open>url.Parse\<close> and
  \<open>url.ParseRequestURI\<close> are parameters of the definitions that use them; \<open>url_HostText\<close> is the host as
  \<open>URL.String\<close> prints it, \<open>url_ForceQuery\<close> records a bare question mark.
\<close>

record URL =
  url_Scheme :: string
  url_Host :: string
  url_Hostname :: string
  url_Port :: string
  url_User :: bool
  url_RawQuery :: string
  url_Fragment :: string
  url_ForceQuery :: bool
  url_HostText :: string

text \<open>\<open>strconv.Atoi\<close>: an \<open>int\<close> has 64 bits on every platform the agent is built for.\<close>

definition Atoi :: "string \<Rightarrow> int option" where
  [go_eval]: "Atoi s = ParseInt s"

definition TrimSuffix :: "string \<Rightarrow> string \<Rightarrow> string" where
  "TrimSuffix s p = (if HasSuffix s p then take (length s - length p) s else s)"

text \<open>\<open>strings.Contains\<close>.\<close>

fun Contains_text :: "string \<Rightarrow> string \<Rightarrow> bool" where
  "Contains_text [] p \<longleftrightarrow> p = []"
| "Contains_text (ch # s) p \<longleftrightarrow> has_prefix (ch # s) p \<or> Contains_text s p"

lemma Contains_text_iff: "Contains_text s p \<longleftrightarrow> (\<exists>u v. s = u @ p @ v)"
proof (induction s)
  case (Cons ch s)
  have "(\<exists>u v. ch # s = u @ p @ v) \<longleftrightarrow> (\<exists>v. ch # s = p @ v) \<or> (\<exists>u v. s = u @ p @ v)"
    by (metis append_Cons append_Nil list.inject neq_Nil_conv)
  then show ?case using Cons by (simp add: has_prefix_iff)
qed simp

end
