(* ===== verification/Probe_Http.thy ===== *)
theory Probe_Http
  imports Safe_Resolver Go_URL
begin

text \<open>
  The URL rules of the HTTP probe (\<open>internal/agent/probe.go\<close>): which URLs may be probed, which redirects
  may be followed, and that a chain of accepted redirects is bounded, never leaves HTTPS once it is
  there, and stays on hosts whose addresses passed the guard and are pinned by the resolver.
\<close>

definition allowedPlainHTTPProbeURL :: "(string \<Rightarrow> Addr option) \<Rightarrow> URL \<Rightarrow> bool" where
  "allowedPlainHTTPProbeURL parse parsed =
     (let host = normalizeProbeHost (url_Hostname parsed) in
      if EqualFold host ''localhost'' then True
      else case parse host of
        None \<Rightarrow> False
      | Some raw \<Rightarrow> IsLoopback (Unmap raw) \<or> url_Port parsed \<noteq> [])"

definition parseHTTPProbeURL ::
  "(string \<Rightarrow> URL option) \<Rightarrow> (string \<Rightarrow> Addr option) \<Rightarrow> string \<Rightarrow> probe_error + URL" where
  "parseHTTPProbeURL parse_uri parse address =
     (case parse_uri address of
        None \<Rightarrow> Inl InvalidProbeTarget
      | Some parsed \<Rightarrow>
          if url_Host parsed = [] \<or> url_Hostname parsed = [] \<or> url_User parsed then Inl InvalidProbeTarget
          else if url_Scheme parsed \<noteq> ''http'' \<and> url_Scheme parsed \<noteq> ''https'' then Inl InvalidProbeTarget
          else if url_Port parsed \<noteq> [] \<and>
                  (case Atoi (url_Port parsed) of None \<Rightarrow> True | Some port \<Rightarrow> \<not> validProbePort port)
            then Inl InvalidProbeTarget
          else if url_Scheme parsed = ''http'' \<and> \<not> allowedPlainHTTPProbeURL parse parsed then Inl InvalidProbeTarget
          else Inr parsed)"

definition effectiveHTTPProbePort :: "URL \<Rightarrow> string" where
  "effectiveHTTPProbePort u =
     (if url_Port u \<noteq> [] then url_Port u
      else if EqualFold (url_Scheme u) ''http'' then ''80''
      else if EqualFold (url_Scheme u) ''https'' then ''443''
      else [])"

definition sameHTTPProbeOrigin :: "URL \<Rightarrow> URL \<Rightarrow> bool" where
  "sameHTTPProbeOrigin left right \<longleftrightarrow>
     EqualFold (url_Scheme left) (url_Scheme right) \<and> EqualFold (url_Hostname left) (url_Hostname right) \<and>
     effectiveHTTPProbePort left = effectiveHTTPProbePort right"

definition maxHTTPProbeRedirects :: nat where "maxHTTPProbeRedirects = 10"

text \<open>
  The \<open>CheckRedirect\<close> hook of \<open>newHTTPProbeClientWithResolver\<close>: the requests made so far (oldest first),
  the method, the URL and the text of the next request. A redirect is refused with an error; an accepted
  one keeps the headers of a request to the same origin and starts with a fresh header otherwise.
\<close>

record redirect_request =
  rr_Method :: string
  rr_Text :: string           \<comment> \<open>\<open>URL.String()\<close> of the request\<close>
  rr_URL :: URL

record http_env =
  he_uri :: "string \<Rightarrow> URL option"
  he_parse :: "string \<Rightarrow> Addr option"
  he_ctx1 :: ctx
  he_ctx2 :: ctx
  he_lookup :: lookup_fun
  he_other :: resolver_cache      \<comment> \<open>the cache at the second locking\<close>

definition CheckRedirect ::
  "http_env \<Rightarrow> URL list \<Rightarrow> redirect_request \<Rightarrow> resolver_cache \<Rightarrow> (probe_error + bool) \<times> resolver_cache" where
  "CheckRedirect env via req cache =
     (if length via \<ge> maxHTTPProbeRedirects then (Inl UnsafeProbeRedirect, cache)
      else if rr_Method req \<noteq> ''GET'' then (Inl UnsafeProbeRedirect, cache)
      else case parseHTTPProbeURL (he_uri env) (he_parse env) (rr_Text req) of
        Inl e \<Rightarrow> (Inl UnsafeProbeRedirect, cache)
      | Inr _ \<Rightarrow>
          if url_Scheme (last via) = ''https'' \<and> url_Scheme (rr_URL req) \<noteq> ''https'' then (Inl UnsafeProbeRedirect, cache)
          else
            (let keep_headers = sameHTTPProbeOrigin (last via) (rr_URL req) in
             case resolve (he_parse env) (he_ctx1 env) (he_ctx2 env) (url_Hostname (rr_URL req)) True
                    (he_lookup env) cache (he_other env) of
               (Inl e, cache') \<Rightarrow>
                 (if classifyContextError e \<noteq> [] then (Inl e, cache') else (Inl UnsafeProbeRedirect, cache'))
             | (Inr _, cache') \<Rightarrow> (Inr keep_headers, cache')))"

subsection \<open>URLs\<close>

lemma parseHTTPProbeURL_ok:
  assumes "parseHTTPProbeURL parse_uri parse address = Inr u"
  shows "parse_uri address = Some u" "url_Hostname u \<noteq> []" "\<not> url_User u" "url_Scheme u \<in> {''http'', ''https''}"
    "url_Port u \<noteq> [] \<Longrightarrow> \<exists>port. Atoi (url_Port u) = Some port \<and> 1 \<le> port \<and> port \<le> 65535"
    "url_Scheme u = ''http'' \<Longrightarrow> EqualFold (normalizeProbeHost (url_Hostname u)) ''localhost'' \<or>
       parse (normalizeProbeHost (url_Hostname u)) \<noteq> None"
  using assms
  by (auto simp: parseHTTPProbeURL_def validProbePort_def allowedPlainHTTPProbeURL_def Let_def
      split: option.splits if_splits)

lemma sameOrigin_refl: "sameHTTPProbeOrigin u u"
  by (simp add: sameHTTPProbeOrigin_def)

lemma sameOrigin_sym: "sameHTTPProbeOrigin u v \<Longrightarrow> sameHTTPProbeOrigin v u"
  by (simp add: sameHTTPProbeOrigin_def EqualFold_def)

lemma sameOrigin_trans: "sameHTTPProbeOrigin u v \<Longrightarrow> sameHTTPProbeOrigin v w \<Longrightarrow> sameHTTPProbeOrigin u w"
  by (simp add: sameHTTPProbeOrigin_def EqualFold_def)

subsection \<open>Chains of redirects\<close>

lemma CheckRedirect_ok:
  assumes "CheckRedirect env via req cache = (Inr keep, cache')"
  obtains u addrs where "length via < maxHTTPProbeRedirects" "rr_Method req = ''GET''"
    "parseHTTPProbeURL (he_uri env) (he_parse env) (rr_Text req) = Inr u"
    "url_Scheme (last via) = ''https'' \<longrightarrow> url_Scheme (rr_URL req) = ''https''"
    "keep = sameHTTPProbeOrigin (last via) (rr_URL req)"
    "resolve (he_parse env) (he_ctx1 env) (he_ctx2 env) (url_Hostname (rr_URL req)) True
       (he_lookup env) cache (he_other env) = (Inr addrs, cache')"
  using assms
  by (auto simp: CheckRedirect_def Let_def split: if_splits sum.splits prod.splits)

text \<open>
  A chain the HTTP client follows: it starts at \<open>[first]\<close> and each accepted request is appended to
  \<open>via\<close>. Between two steps other goroutines may extend the cache.
\<close>

inductive follows :: "URL list \<Rightarrow> resolver_cache \<Rightarrow> URL list \<Rightarrow> resolver_cache \<Rightarrow> bool" where
  start: "follows via cache via cache"
| redirect: "follows via0 cache0 via cache \<Longrightarrow> cache \<subseteq>\<^sub>m shared \<Longrightarrow> shared \<subseteq>\<^sub>m he_other env \<Longrightarrow>
    CheckRedirect env via req shared = (Inr keep, cache') \<Longrightarrow>
    follows via0 cache0 (via @ [rr_URL req]) cache'"

lemma follows_length: "follows via0 cache0 via cache \<Longrightarrow> length via0 \<le> maxHTTPProbeRedirects \<Longrightarrow>
  length via \<le> maxHTTPProbeRedirects"
  by (induction rule: follows.induct) (auto elim: CheckRedirect_ok)

lemma sorted_wrt_last: "sorted_wrt P xs \<Longrightarrow> (\<And>x. P x x) \<Longrightarrow> x \<in> set xs \<Longrightarrow> P x (last xs)"
  by (induction xs) auto

lemma follows_https:
  "follows via0 cache0 via cache \<Longrightarrow> via0 \<noteq> [] \<Longrightarrow>
   sorted_wrt (\<lambda>u v. url_Scheme u = ''https'' \<longrightarrow> url_Scheme v = ''https'') via0 \<Longrightarrow>
   via \<noteq> [] \<and> sorted_wrt (\<lambda>u v. url_Scheme u = ''https'' \<longrightarrow> url_Scheme v = ''https'') via"
proof (induction rule: follows.induct)
  case (redirect via0 cache0 via cache shared env req keep cache')
  then have IH: "via \<noteq> []" "sorted_wrt (\<lambda>u v. url_Scheme u = ''https'' \<longrightarrow> url_Scheme v = ''https'') via" by simp_all
  have step: "url_Scheme (last via) = ''https'' \<longrightarrow> url_Scheme (rr_URL req) = ''https''"
    using redirect.hyps(4) by (rule CheckRedirect_ok)
  have "url_Scheme (rr_URL req) = ''https''" if "u \<in> set via" "url_Scheme u = ''https''" for u
    using sorted_wrt_last [OF IH(2) _ that(1)] that(2) step by simp
  then show ?case using IH by (auto simp: sorted_wrt_append)
qed auto

lemma follows_cache: "follows via0 cache0 via cache \<Longrightarrow> cache0 \<subseteq>\<^sub>m cache"
proof (induction rule: follows.induct)
  case (redirect via0 cache0 via cache shared env req keep cache')
  then have "shared \<subseteq>\<^sub>m cache'" by (auto elim!: CheckRedirect_ok intro: resolve_keeps)
  then show ?case using redirect by (meson map_le_trans)
qed simp

subsection \<open>Properties\<close>

text \<open>A chain of redirects an HTTP probe follows from one request has at most ten requests, never falls back from
  HTTPS to HTTP, and every host name resolved on the way stays pinned to the addresses it had.\<close>

theorem redirects_bounded_and_secure:
  assumes "follows [first] cache0 via cache"
  shows "length via \<le> 10 \<and>
    sorted_wrt (\<lambda>u v. url_Scheme u = ''https'' \<longrightarrow> url_Scheme v = ''https'') via \<and> cache0 \<subseteq>\<^sub>m cache"
  using follows_length [OF assms] follows_https [OF assms] follows_cache [OF assms]
  by (simp add: maxHTTPProbeRedirects_def)

definition redirect_url :: URL where
  "redirect_url = \<lparr>url_Scheme = ''https'', url_Host = ''h'', url_Hostname = ''h'', url_Port = [], url_User = False,
     url_RawQuery = [], url_Fragment = [], url_ForceQuery = False, url_HostText = ''h''\<rparr>"

definition redirect_env :: http_env where
  "redirect_env = \<lparr>he_uri = (\<lambda>_. Some redirect_url), he_parse = (\<lambda>_. None), he_ctx1 = None, he_ctx2 = None,
     he_lookup = (\<lambda>_. Inr [A4 0xC0000201]), he_other = Map.empty\<rparr>"

definition redirect_req :: redirect_request where
  "redirect_req = \<lparr>rr_Method = ''GET'', rr_Text = ''https://h/'', rr_URL = redirect_url\<rparr>"

lemma example_redirect: "follows [redirect_url] Map.empty [redirect_url, redirect_url] [''h'' \<mapsto> [A4 0xC0000201]]"
proof -
  have "CheckRedirect redirect_env [redirect_url] redirect_req Map.empty = (Inr True, [''h'' \<mapsto> [A4 0xC0000201]])"
    using example_resolve
    by (simp add: CheckRedirect_def redirect_env_def redirect_req_def redirect_url_def maxHTTPProbeRedirects_def
        parseHTTPProbeURL_def sameOrigin_refl)
  then show ?thesis
    using redirect [OF start, of Map.empty Map.empty redirect_env "[redirect_url]" redirect_req]
    by (simp add: redirect_env_def redirect_req_def)
qed

theorem redirects_bounded_and_secure_witness:
  "length [redirect_url, redirect_url] \<le> 10 \<and> Map.empty \<subseteq>\<^sub>m [''h'' \<mapsto> [A4 0xC0000201]] \<and>
   follows [redirect_url] Map.empty [redirect_url, redirect_url] [''h'' \<mapsto> [A4 0xC0000201]]"
  using redirects_bounded_and_secure [OF example_redirect] example_redirect by blast

end
