(* ===== verification/Go_Float.thy ===== *)
theory Go_Float
  imports Go_Strconv
begin

text \<open>
  \<open>float64\<close> values as Go parses them: the rounding of an exact number to the nearest \<open>float64\<close> (ties to
  even, gradual underflow, overflow to infinity), the grammar of \<open>strconv.ParseFloat\<close>, and the conversion
  \<open>int64(f)\<close>. The two zeros are one value: no caller looks at the sign of a zero.
\<close>

datatype gofloat = FloatFin rat | FloatInf bool | FloatNaN

datatype num_error = ErrSyntax | ErrRange

section \<open>Rounding to float64\<close>

fun nlog2 :: "nat \<Rightarrow> nat" where
  "nlog2 n = (if n < 2 then 0 else Suc (nlog2 (n div 2)))"

declare nlog2.simps [simp del]

text \<open>The exponent of the binade that holds a positive number.\<close>

definition ilog2 :: "rat \<Rightarrow> int" where
  "ilog2 q =
     (let (a, b) = quotient_of q; e = int (nlog2 (nat a)) - int (nlog2 (nat b))
      in if 2 powi e \<le> q then e else e - 1)"

definition round_even :: "rat \<Rightarrow> int" where
  "round_even x =
     (let f = \<lfloor>x\<rfloor>; d = x - of_int f
      in if d < 1 / 2 then f else if d > 1 / 2 then f + 1 else if even f then f else f + 1)"

text \<open>The exponent of the last of the 53 bits of the nearest \<open>float64\<close>.\<close>

definition ulp_exp :: "rat \<Rightarrow> int" where
  "ulp_exp q = max (ilog2 \<bar>q\<bar> - 52) (-1074)"

definition on_grid :: "rat \<Rightarrow> rat" where
  "on_grid q = (if q = 0 then 0 else of_int (round_even (q / 2 powi ulp_exp q)) * 2 powi ulp_exp q)"

definition float64_limit :: rat where "float64_limit = 2 ^ 1024"

definition round64 :: "rat \<Rightarrow> gofloat" where
  "round64 q = (if \<bar>on_grid q\<bar> \<ge> float64_limit then FloatInf (q < 0) else FloatFin (on_grid q))"

section \<open>strconv.ParseFloat\<close>

definition lower :: "char \<Rightarrow> char" where
  "lower c = char_of (or (of_char c) 0x20 :: nat)"

definition is_hex_letter :: "char \<Rightarrow> bool" where
  "is_hex_letter c \<longleftrightarrow> CHR ''a'' \<le> lower c \<and> lower c \<le> CHR ''f''"

record mantissa =
  mt_value :: nat     \<comment> \<open>all digits read, as one number\<close>
  mt_frac :: nat      \<comment> \<open>how many of them follow the point\<close>
  mt_dot :: bool
  mt_digits :: bool
  mt_under :: bool

definition no_mantissa :: mantissa where
  "no_mantissa = \<lparr>mt_value = 0, mt_frac = 0, mt_dot = False, mt_digits = False, mt_under = False\<rparr>"

definition push_digit :: "nat \<Rightarrow> nat \<Rightarrow> mantissa \<Rightarrow> mantissa" where
  "push_digit base d m =
     m\<lparr>mt_value := base * mt_value m + d, mt_frac := (if mt_dot m then mt_frac m + 1 else 0), mt_digits := True\<rparr>"

fun scan_mantissa :: "nat \<Rightarrow> mantissa \<Rightarrow> string \<Rightarrow> mantissa \<times> string" where
  "scan_mantissa base m [] = (m, [])"
| "scan_mantissa base m (c # s) =
     (if c = CHR ''_'' then scan_mantissa base (m\<lparr>mt_under := True\<rparr>) s
      else if c = CHR ''.'' then
        if mt_dot m then (m, c # s) else scan_mantissa base (m\<lparr>mt_dot := True\<rparr>) s
      else if is_digit c then scan_mantissa base (push_digit base (digit_val c) m) s
      else if base = 16 \<and> is_hex_letter c then scan_mantissa base (push_digit base (of_char (lower c) - 87) m) s
      else (m, c # s))"

text \<open>The digits of the exponent; from 10000 on further digits are skipped.\<close>

fun scan_exponent :: "nat \<Rightarrow> bool \<Rightarrow> string \<Rightarrow> nat \<times> bool \<times> string" where
  "scan_exponent e us [] = (e, us, [])"
| "scan_exponent e us (c # s) =
     (if c = CHR ''_'' then scan_exponent e True s
      else if is_digit c then scan_exponent (if e < 10000 then 10 * e + digit_val c else e) us s
      else (e, us, c # s))"

text \<open>Underscores only between digits; the prefix of a base counts as a digit.\<close>

fun underscores_between :: "bool \<Rightarrow> char \<Rightarrow> string \<Rightarrow> bool" where
  "underscores_between hex saw [] \<longleftrightarrow> saw \<noteq> CHR ''_''"
| "underscores_between hex saw (c # s) \<longleftrightarrow>
     (if is_digit c \<or> hex \<and> is_hex_letter c then underscores_between hex (CHR ''0'') s
      else if c = CHR ''_'' then saw = CHR ''0'' \<and> underscores_between hex (CHR ''_'') s
      else saw \<noteq> CHR ''_'' \<and> underscores_between hex (CHR ''!'') s)"

definition drop_sign :: "string \<Rightarrow> string" where
  "drop_sign s = (case s of c # t \<Rightarrow> if c = CHR ''+'' \<or> c = CHR ''-'' then t else s | [] \<Rightarrow> [])"

definition underscoreOK :: "string \<Rightarrow> bool" where
  "underscoreOK s =
     (case drop_sign s of
        z # p # t \<Rightarrow>
          if z = CHR ''0'' \<and> lower p \<in> {CHR ''b'', CHR ''o'', CHR ''x''}
          then underscores_between (lower p = CHR ''x'') (CHR ''0'') t
          else underscores_between False (CHR ''^'') (drop_sign s)
      | t \<Rightarrow> underscores_between False (CHR ''^'') t)"

definition hex_prefixed :: "string \<Rightarrow> bool" where
  "hex_prefixed s = (case s of z # x # c # t \<Rightarrow> z = CHR ''0'' \<and> lower x = CHR ''x'' | _ \<Rightarrow> False)"

text \<open>\<open>readFloat\<close> on a whole string: the exact number it denotes.\<close>

definition readFloat :: "string \<Rightarrow> rat option" where
  "readFloat s =
     (let neg = (s \<noteq> [] \<and> hd s = CHR ''-''); body = drop_sign s; hex = hex_prefixed body;
          base = (if hex then 16 else 10);
          (m, rest) = scan_mantissa base no_mantissa (if hex then drop 2 body else body);
          q = (of_nat (mt_value m) :: rat);
          sign = (if neg then - 1 else 1 :: rat)
      in if \<not> mt_digits m then None
         else case rest of
           [] \<Rightarrow> if hex then None
                 else if mt_under m \<and> \<not> underscoreOK s then None
                 else Some (sign * q * 10 powi (- int (mt_frac m)))
         | c # t \<Rightarrow>
             if lower c \<noteq> (if hex then CHR ''p'' else CHR ''e'') then None
             else case drop_sign t of
               [] \<Rightarrow> None
             | d # _ \<Rightarrow>
                 if \<not> is_digit d then None
                 else let (e, us, left) = scan_exponent 0 (mt_under m) (drop_sign t);
                          e' = (if hd t = CHR ''-'' then - int e else int e)
                      in if left \<noteq> [] \<or> us \<and> \<not> underscoreOK s then None
                         else Some (sign * q * (if hex then 2 powi (e' - 4 * int (mt_frac m)) else 10 powi (e' - int (mt_frac m)))))"

text \<open>The special values, in any case: \<open>inf\<close> and \<open>infinity\<close> with an optional sign, \<open>nan\<close> without.\<close>

definition special :: "string \<Rightarrow> gofloat option" where
  "special s =
     (if map lower (drop_sign s) = ''inf'' \<or> map lower (drop_sign s) = ''infinity''
      then Some (FloatInf (hd s = CHR ''-''))
      else if map lower s = ''nan'' then Some FloatNaN else None)"

definition ParseFloat :: "string \<Rightarrow> gofloat \<times> num_error option" where
  "ParseFloat s =
     (case special s of
        Some f \<Rightarrow> (f, None)
      | None \<Rightarrow>
          (case readFloat s of
             None \<Rightarrow> (FloatFin 0, Some ErrSyntax)
           | Some q \<Rightarrow>
               (case round64 q of
                  FloatInf n \<Rightarrow> (FloatInf n, Some ErrRange)
                | f \<Rightarrow> (f, None))))"

section \<open>int64 of a float64\<close>

text \<open>The fraction is discarded; for a value outside the range the result depends on the processor.\<close>

definition int64_of_float :: "(gofloat \<Rightarrow> int) \<Rightarrow> gofloat \<Rightarrow> int" where
  "int64_of_float implementation f =
     (case f of
        FloatFin q \<Rightarrow>
          let t = (if q < 0 then - \<lfloor>- q\<rfloor> else \<lfloor>q\<rfloor>) in if fits64 t then t else implementation f
      | _ \<Rightarrow> implementation f)"

section \<open>The rounding is correct\<close>

lemma nlog2_bounds: "0 < n \<Longrightarrow> 2 ^ nlog2 n \<le> n \<and> n < 2 ^ Suc (nlog2 n)"
proof (induction n rule: nlog2.induct)
  case (1 n)
  show ?case
  proof (cases "n < 2")
    case True
    then show ?thesis using 1 by (simp add: nlog2.simps)
  next
    case False
    then have "2 ^ nlog2 (n div 2) \<le> n div 2 \<and> n div 2 < 2 ^ Suc (nlog2 (n div 2))" using 1 by simp
    then have "2 * 2 ^ nlog2 (n div 2) \<le> n" "n < 2 * 2 ^ Suc (nlog2 (n div 2))" by linarith+
    then show ?thesis using False by (simp add: nlog2.simps [of n])
  qed
qed

lemma powi_Suc: "(2 :: rat) powi (e + 1) = 2 * 2 powi e"
  by (simp add: power_int_add)

lemma powi_pos [simp]: "0 < (2 :: rat) powi e"
  by (simp add: zero_less_power_int)

lemma powi_le: "a \<le> b \<Longrightarrow> (2 :: rat) powi a \<le> 2 powi b"
  by (simp add: power_int_increasing)

lemma powi_less_iff: "(2 :: rat) powi a < 2 powi b \<longleftrightarrow> a < b"
  by (metis linorder_not_less order_less_le powi_le power_int_strict_increasing one_less_numeral_iff semiring_norm(76))

lemma powi_split: "(2 :: rat) powi a = 2 powi (a - b) * 2 powi b"
  by (simp flip: power_int_add)

lemma ilog2_bounds:
  assumes "0 < q"
  shows "2 powi ilog2 q \<le> q \<and> q < 2 powi (ilog2 q + 1)"
proof -
  obtain a b where q: "quotient_of q = (a, b)" by (cases "quotient_of q")
  then have b: "0 < b" and qe: "q = of_int a / of_int b"
    using quotient_of_denom_pos quotient_of_div by blast+
  with assms have a: "0 < a" by (simp add: zero_less_divide_iff)
  let ?i = "nlog2 (nat a)" and ?j = "nlog2 (nat b)"
  let ?A = "of_int a :: rat" and ?B = "of_int b :: rat"
  have nat: "of_nat (nat a) = ?A" "of_nat (nat b) = ?B" using a b by simp_all
  have "(of_nat (2 ^ ?i) :: rat) \<le> of_nat (nat a)" "(of_nat (nat a) :: rat) < of_nat (2 ^ Suc ?i)"
    "(of_nat (2 ^ ?j) :: rat) \<le> of_nat (nat b)" "(of_nat (nat b) :: rat) < of_nat (2 ^ Suc ?j)"
    using nlog2_bounds [of "nat a"] nlog2_bounds [of "nat b"] a b unfolding of_nat_le_iff of_nat_less_iff by simp_all
  then have ba: "2 ^ ?i \<le> ?A" "?A < 2 * 2 ^ ?i" and bb: "2 ^ ?j \<le> ?B" "?B < 2 * 2 ^ ?j"
    by (simp_all add: nat)
  let ?e = "int ?i - int ?j"
  have e: "(2 :: rat) powi ?e = 2 ^ ?i / 2 ^ ?j" by (simp add: power_int_diff)
  have B: "0 < ?B" using b by simp
  have "2 ^ ?i * ?B \<le> ?A * (2 * 2 ^ ?j)"
    using mult_mono [OF ba(1) less_imp_le [OF bb(2)]] B a by simp
  then have lo: "2 powi ?e \<le> 2 * q" unfolding e qe using B by (simp add: field_simps)
  have "?A * 2 ^ ?j < 2 * 2 ^ ?i * ?B"
    using mult_less_le_imp_less [OF ba(2) bb(1)] a by simp
  then have hi: "q < 2 * 2 powi ?e" unfolding e qe using B by (simp add: field_simps)
  have half: "(2 :: rat) powi (?e - 1) = 2 powi ?e / 2" using powi_Suc [of "?e - 1"] by simp
  show ?thesis
    using lo hi half powi_Suc [of ?e] by (simp add: ilog2_def q Let_def)
qed

lemma round_even_error: "\<bar>of_int (round_even x) - x\<bar> \<le> 1 / 2"
proof -
  define d where "d = x - of_int \<lfloor>x\<rfloor>"
  have d: "0 \<le> d" "d < 1" unfolding d_def by linarith+
  have "of_int (round_even x) - x =
      (if d < 1 / 2 then - d else if d > 1 / 2 then 1 - d else if even \<lfloor>x\<rfloor> then - d else 1 - d)"
    unfolding round_even_def Let_def d_def by simp
  then show ?thesis using d by (auto simp: abs_if)
qed

lemma round_even_int [simp]: "round_even (of_int n) = n"
  by (simp add: round_even_def)

lemma round_even_bounds: "of_int n \<le> x \<Longrightarrow> n \<le> round_even x" "x \<le> of_int n \<Longrightarrow> round_even x \<le> n"
proof -
  show "n \<le> round_even x" if "of_int n \<le> x"
  proof -
    have "n \<le> \<lfloor>x\<rfloor>" using that by (simp add: le_floor_iff)
    then show ?thesis by (simp add: round_even_def Let_def)
  qed
  show "round_even x \<le> n" if x: "x \<le> of_int n"
  proof (cases "x = of_int n")
    case False
    then have "\<lfloor>x\<rfloor> + 1 \<le> n" using x floor_less_iff [of x n] by (simp add: order_less_le)
    then show ?thesis by (simp add: round_even_def Let_def)
  qed simp
qed

text \<open>Rounding to an integer is nearest among the integers.\<close>

lemma round_even_nearest: "\<bar>of_int (round_even x) - x\<bar> \<le> \<bar>of_int n - x\<bar>"
proof (cases "of_int n \<le> x")
  case True
  then have "n \<le> round_even x" by (rule round_even_bounds)
  then consider "n = round_even x" | "n + 1 \<le> round_even x" by linarith
  then show ?thesis
  proof cases
    case 2
    then have "of_int (n + 1) \<le> (of_int (round_even x) :: rat)" by (simp only: of_int_le_iff)
    with round_even_error [of x] show ?thesis by (simp add: abs_if split: if_splits)
  qed simp
next
  case False
  then have "round_even x \<le> n" by (simp add: round_even_bounds)
  then consider "n = round_even x" | "round_even x + 1 \<le> n" by linarith
  then show ?thesis
  proof cases
    case 2
    then have "of_int (round_even x + 1) \<le> (of_int n :: rat)" by (simp only: of_int_le_iff)
    with round_even_error [of x] show ?thesis by (simp add: abs_if split: if_splits)
  qed simp
qed

lemma grid_scaled: "q \<noteq> 0 \<Longrightarrow>
  \<bar>on_grid q - y * 2 powi ulp_exp q\<bar> = \<bar>of_int (round_even (q / 2 powi ulp_exp q)) - y\<bar> * 2 powi ulp_exp q"
  by (simp add: on_grid_def abs_mult flip: left_diff_distrib)

lemma on_grid_error: "\<bar>on_grid q - q\<bar> \<le> 2 powi ulp_exp q / 2"
proof (cases "q = 0")
  case False
  then show ?thesis
    using grid_scaled [OF False, of "q / 2 powi ulp_exp q"] round_even_error [of "q / 2 powi ulp_exp q"]
    by (simp add: mult_right_mono)
qed (simp add: on_grid_def less_imp_le)

text \<open>A multiple of the unit that is at most the number stays a bound after rounding.\<close>

lemma on_grid_ge:
  assumes "q \<noteq> 0" "of_int n * 2 powi ulp_exp q \<le> q"
  shows "of_int n * 2 powi ulp_exp q \<le> on_grid q"
proof -
  have "of_int n \<le> q / 2 powi ulp_exp q" using assms(2) by (simp add: pos_le_divide_eq)
  then have "n \<le> round_even (q / 2 powi ulp_exp q)" by (rule round_even_bounds)
  then show ?thesis using assms(1) by (simp add: on_grid_def mult_right_mono)
qed

lemma on_grid_exact: "q = of_int n * 2 powi ulp_exp q \<Longrightarrow> on_grid q = q"
proof -
  assume q: "q = of_int n * 2 powi ulp_exp q"
  then have "q / 2 powi ulp_exp q = of_int n" by (metis nonzero_mult_div_cancel_right powi_pos order_less_irrefl)
  then show ?thesis using q by (simp add: on_grid_def)
qed

text \<open>The finite \<open>float64\<close> values.\<close>

definition float64_value :: "rat \<Rightarrow> bool" where
  "float64_value y \<longleftrightarrow> (\<exists>m k. y = of_int m * 2 powi k \<and> \<bar>m\<bar> < 2 ^ 53 \<and> -1074 \<le> k)"

lemma float64_value_multiple:
  assumes "float64_value y" "q \<noteq> 0" "2 powi ilog2 \<bar>q\<bar> \<le> \<bar>y\<bar> \<or> ulp_exp q = -1074"
  shows "\<exists>n. y = of_int n * 2 powi ulp_exp q"
proof -
  obtain m k where y: "y = of_int m * 2 powi k" "\<bar>m\<bar> < 2 ^ 53" "-1074 \<le> k"
    using assms(1) by (auto simp: float64_value_def)
  have "ulp_exp q \<le> k"
  proof (cases "ulp_exp q = -1074")
    case False
    have "\<bar>of_int m :: rat\<bar> < 2 ^ 53" using y(2) by (metis of_int_abs of_int_less_iff of_int_numeral of_int_power)
    then have "\<bar>y\<bar> < 2 ^ 53 * 2 powi k" by (simp add: y(1) abs_mult)
    also have "\<dots> = 2 powi (53 + k)" by (simp add: power_int_add)
    finally have "2 powi ilog2 \<bar>q\<bar> < (2 :: rat) powi (53 + k)" using assms(3) False by linarith
    then have "ilog2 \<bar>q\<bar> < 53 + k" by (simp add: powi_less_iff)
    with False show ?thesis by (simp add: ulp_exp_def)
  qed (use y(3) in simp)
  then have "(2 :: rat) powi k = of_int (2 ^ nat (k - ulp_exp q)) * 2 powi ulp_exp q"
    using powi_split [of k "ulp_exp q"] by (simp add: power_int_def)
  then have "y = of_int (m * 2 ^ nat (k - ulp_exp q)) * 2 powi ulp_exp q" by (simp add: y(1))
  then show ?thesis by blast
qed

lemma on_grid_nearest_multiple:
  "q \<noteq> 0 \<Longrightarrow> \<bar>on_grid q - q\<bar> \<le> \<bar>of_int n * 2 powi ulp_exp q - q\<bar>"
proof -
  assume q: "q \<noteq> 0"
  let ?u = "(2 :: rat) powi ulp_exp q"
  have "\<bar>on_grid q - q\<bar> = \<bar>of_int (round_even (q / ?u)) - q / ?u\<bar> * ?u"
    using grid_scaled [OF q, of "q / ?u"] by simp
  also have "\<dots> \<le> \<bar>of_int n - q / ?u\<bar> * ?u" by (simp add: mult_right_mono round_even_nearest less_imp_le)
  also have "\<dots> = \<bar>(of_int n - q / ?u) * ?u\<bar>" by (simp add: abs_mult)
  also have "\<dots> = \<bar>of_int n * ?u - q\<bar>" by (simp add: left_diff_distrib)
  finally show ?thesis .
qed

lemma on_grid_nearest:
  assumes "float64_value y"
  shows "\<bar>on_grid q - q\<bar> \<le> \<bar>y - q\<bar>"
proof (cases "q = 0")
  case False
  let ?l = "ilog2 \<bar>q\<bar>"
  show ?thesis
  proof (cases "2 powi ?l \<le> \<bar>y\<bar> \<or> ulp_exp q = -1074")
    case True
    then show ?thesis using float64_value_multiple [OF assms False] on_grid_nearest_multiple [OF False] by metis
  next
    case small: False
    then have u: "ulp_exp q = ?l - 52" by (auto simp: ulp_exp_def max_def split: if_splits)
    have low: "2 powi ?l \<le> \<bar>q\<bar>" using ilog2_bounds [of "\<bar>q\<bar>"] False by simp
    have pow: "(2 :: rat) powi ?l = of_int (2 ^ 52) * 2 powi ulp_exp q"
      using powi_split [of ?l "?l - 52"] by (simp add: u)
    let ?n = "(if q < 0 then - (2 ^ 52) else 2 ^ 52 :: int)"
    have "\<bar>on_grid q - q\<bar> \<le> \<bar>of_int ?n * 2 powi ulp_exp q - q\<bar>" by (rule on_grid_nearest_multiple [OF False])
    also have "\<dots> = \<bar>q\<bar> - 2 powi ?l" using low pow by (auto simp: abs_if)
    also have "\<dots> \<le> \<bar>y - q\<bar>" using small by linarith
    finally show ?thesis .
  qed
qed (simp add: on_grid_def)

lemma float64_value_zero [simp]: "float64_value 0"
  by (auto simp: float64_value_def intro!: exI [of _ 0])

lemma on_grid_double: "\<bar>on_grid q\<bar> \<le> 2 * \<bar>q\<bar>"
  using on_grid_nearest [OF float64_value_zero, of q] by linarith

lemma on_grid_sign: "0 \<le> q \<Longrightarrow> 0 \<le> on_grid q"
  using on_grid_nearest [OF float64_value_zero, of q] by linarith

lemma round64_finite: "2 * \<bar>q\<bar> < float64_limit \<Longrightarrow> round64 q = FloatFin (on_grid q)"
  using on_grid_double [of q] by (simp add: round64_def)

lemma below_limit: "q < 2 ^ 100 \<Longrightarrow> 2 * q < float64_limit"
proof -
  have "(2 :: rat) ^ 101 < float64_limit" unfolding float64_limit_def by (intro power_strict_increasing) simp_all
  then show "q < 2 ^ 100 \<Longrightarrow> 2 * q < float64_limit" by simp
qed

text \<open>Below \<open>2 ^ k\<close> the unit is at most \<open>2 ^ (k - 53)\<close>.\<close>

lemma ulp_exp_le:
  assumes "q \<noteq> 0" "\<bar>q\<bar> < 2 powi k" "-1021 \<le> k"
  shows "ulp_exp q \<le> k - 53"
proof -
  have "2 powi ilog2 \<bar>q\<bar> < (2 :: rat) powi k" using ilog2_bounds [of "\<bar>q\<bar>"] assms by simp
  then have "ilog2 \<bar>q\<bar> < k" by (simp add: powi_less_iff)
  then show ?thesis using assms(3) by (simp add: ulp_exp_def)
qed

text \<open>The integer part survives the rounding when the fraction stays clear of the next integer.\<close>

lemma floor_on_grid:
  assumes "q < 2 powi k" "k \<le> 53" "-1021 \<le> k" "of_int n \<le> q" "q + 2 powi (k - 54) < of_int n + 1" "0 \<le> n"
  shows "\<lfloor>on_grid q\<rfloor> = n"
proof (cases "q = 0")
  case True
  have "0 < (2 :: rat) powi (k - 54)" by simp
  with assms(4,6) True have "n = 0" by simp
  with True show ?thesis by (simp add: on_grid_def)
next
  case False
  then have q: "0 < q" using assms(4,6) of_int_0_le_iff [of n, where 'a = rat] by linarith
  let ?u = "ulp_exp q"
  have u: "?u \<le> k - 53" using ulp_exp_le [of q k] q assms(1,3) by simp
  have "of_int n = of_int (n * 2 ^ nat (- ?u)) * (2 :: rat) powi ?u"
    using u assms(2) by (simp add: power_int_def power_mult_distrib [symmetric])
  then have lo: "of_int n \<le> on_grid q" using on_grid_ge [OF False] assms(4) by metis
  have "(2 :: rat) powi ?u / 2 \<le> 2 powi (k - 53) / 2" using powi_le [OF u] by simp
  also have "\<dots> = 2 powi (k - 54)" using powi_Suc [of "k - 54"] by simp
  finally have "on_grid q < of_int n + 1" using on_grid_error [of q] assms(5) by linarith
  with lo show ?thesis by linarith
qed

text \<open>The rounded number is a \<open>float64\<close>, and a \<open>float64\<close> is not changed by rounding.\<close>

lemma on_grid_fixed: "float64_value y \<Longrightarrow> on_grid y = y"
  using on_grid_nearest [of y y] by simp

lemma float64_value_on_grid: "float64_value (on_grid q)"
proof (cases "q = 0")
  case False
  let ?u = "ulp_exp q" let ?m = "round_even (q / 2 powi ?u)"
  have "\<bar>q\<bar> < 2 powi (ilog2 \<bar>q\<bar> + 1)" using ilog2_bounds [of "\<bar>q\<bar>"] False by simp
  also have "\<dots> \<le> 2 powi (53 + ?u)" by (intro powi_le) (simp add: ulp_exp_def)
  also have "\<dots> = 2 ^ 53 * 2 powi ?u" by (simp add: power_int_add)
  finally have "q < 2 ^ 53 * 2 powi ?u" "- (2 ^ 53 * 2 powi ?u) < q" by linarith+
  then have "q / 2 powi ?u \<le> of_int (2 ^ 53)" "of_int (- (2 ^ 53)) \<le> q / 2 powi ?u"
    by (simp_all add: pos_divide_le_eq pos_le_divide_eq less_imp_le)
  then have m: "?m \<le> 2 ^ 53" "- (2 ^ 53) \<le> ?m" by (metis round_even_bounds)+
  show ?thesis
  proof (cases "\<bar>?m\<bar> = 2 ^ 53")
    case True
    then obtain s where s: "?m = s * 2 ^ 53" "\<bar>s\<bar> = 1"
      by (cases "0 \<le> ?m") (auto intro: that [of 1] that [of "-1"])
    then have "on_grid q = of_int (s * 2 ^ 52) * 2 powi (?u + 1)"
      using False by (simp add: on_grid_def powi_Suc)
    moreover have "\<bar>s * 2 ^ 52\<bar> < 2 ^ 53" "-1074 \<le> ?u + 1" using s(2) by (simp_all add: abs_mult ulp_exp_def)
    ultimately show ?thesis unfolding float64_value_def by blast
  next
    case inside: False
    then have "\<bar>?m\<bar> < 2 ^ 53" using m by linarith
    moreover have "-1074 \<le> ?u" by (simp add: ulp_exp_def)
    ultimately show ?thesis using False unfolding float64_value_def on_grid_def by auto
  qed
qed (simp add: on_grid_def)

lemma float64_value_scale:
  assumes "float64_value y"
  shows "float64_value (y * 2 ^ j)"
proof -
  obtain m k where y: "y = of_int m * 2 powi k" "\<bar>m\<bar> < 2 ^ 53" "-1074 \<le> k"
    using assms by (auto simp: float64_value_def)
  then have "y * 2 ^ j = of_int m * 2 powi (k + int j)" by (simp add: power_int_add)
  moreover have "-1074 \<le> k + int j" using y(3) by simp
  ultimately show ?thesis using y(2) unfolding float64_value_def by blast
qed

section \<open>Decimal numbers\<close>

lemma digit_neq: "is_digit c \<Longrightarrow> c \<noteq> CHR ''_'' \<and> c \<noteq> CHR ''.'' \<and> c \<noteq> CHR ''+'' \<and> c \<noteq> CHR ''-''"
  by (auto simp: is_digit_iff)

definition push_digits :: "nat \<Rightarrow> string \<Rightarrow> mantissa \<Rightarrow> mantissa" where
  "push_digits base ds m = foldl (\<lambda>m c. push_digit base (digit_val c) m) m ds"

lemma scan_digits: "list_all is_digit ds \<Longrightarrow> scan_mantissa base m (ds @ t) = scan_mantissa base (push_digits base ds m) t"
  by (induction ds arbitrary: m) (simp_all add: push_digits_def digit_neq)

lemma push_digits_value: "mt_value (push_digits 10 ds m) = mt_value m * 10 ^ length ds + digits_val ds"
proof (induction ds arbitrary: m)
  case (Cons c ds)
  then show ?case by (simp add: push_digits_def push_digit_def digits_val_Cons algebra_simps)
qed (simp add: push_digits_def digits_val_def)

lemma push_digits_shape:
  "mt_dot (push_digits b ds m) = mt_dot m" "mt_under (push_digits b ds m) = mt_under m"
  "mt_digits (push_digits b ds m) \<longleftrightarrow> mt_digits m \<or> ds \<noteq> []"
  "mt_dot m \<Longrightarrow> mt_frac (push_digits b ds m) = mt_frac m + length ds"
  "\<not> mt_dot m \<Longrightarrow> mt_frac m = 0 \<Longrightarrow> mt_frac (push_digits b ds m) = 0"
proof -
  show "mt_dot (push_digits b ds m) = mt_dot m"
    by (induction ds arbitrary: m) (simp_all add: push_digits_def push_digit_def)
  show "mt_under (push_digits b ds m) = mt_under m"
    by (induction ds arbitrary: m) (simp_all add: push_digits_def push_digit_def)
  show "mt_digits (push_digits b ds m) \<longleftrightarrow> mt_digits m \<or> ds \<noteq> []"
    by (induction ds arbitrary: m) (simp_all add: push_digits_def push_digit_def)
  show "mt_dot m \<Longrightarrow> mt_frac (push_digits b ds m) = mt_frac m + length ds"
    by (induction ds arbitrary: m) (simp_all add: push_digits_def push_digit_def)
  show "\<not> mt_dot m \<Longrightarrow> mt_frac m = 0 \<Longrightarrow> mt_frac (push_digits b ds m) = 0"
    by (induction ds arbitrary: m) (simp_all add: push_digits_def push_digit_def)
qed

lemma lower_digit: "is_digit c \<Longrightarrow> lower c = c"
proof -
  assume "is_digit c"
  then have "of_char c \<in> {48 ..< 58 :: nat}" by (simp add: is_digit_iff)
  then have "of_char c \<in> {48, 49, 50, 51, 52, 53, 54, 55, 56, 57 :: nat}" by (auto simp: atLeastLessThan_nat_numeral)
  then have "or (of_char c) 0x20 = (of_char c :: nat)" by auto
  then show ?thesis by (simp add: lower_def)
qed

text \<open>A number written as digits, a point and digits.\<close>

lemma readFloat_fixed:
  assumes "list_all is_digit a" "a \<noteq> []" "list_all is_digit b"
  shows "readFloat (a @ CHR ''.'' # b) = Some (of_nat (digits_val (a @ b)) / 10 ^ length b)"
proof -
  obtain c t where a: "a = c # t" using assms(2) by (cases a) auto
  have c: "is_digit c" using assms(1) a by simp
  have ds: "drop_sign (a @ CHR ''.'' # b) = a @ CHR ''.'' # b" using digit_neq [OF c] by (simp add: drop_sign_def a)
  have nohex: "\<not> hex_prefixed (a @ CHR ''.'' # b)"
  proof (cases t)
    case Nil
    have "lower (CHR ''.'') \<noteq> CHR ''x''" by code_simp
    then show ?thesis by (cases b) (simp_all add: hex_prefixed_def a Nil)
  next
    case (Cons d u)
    then have "lower d = d" "d \<noteq> CHR ''x''" using assms(1) a by (auto intro: lower_digit simp: is_digit_iff)
    then show ?thesis by (cases "u @ CHR ''.'' # b") (simp_all add: hex_prefixed_def a Cons)
  qed
  let ?m = "push_digits 10 b ((push_digits 10 a no_mantissa)\<lparr>mt_dot := True\<rparr>)"
  have dot: "\<not> mt_dot (push_digits 10 a no_mantissa)" by (simp add: push_digits_shape no_mantissa_def)
  have "scan_mantissa 10 no_mantissa (a @ CHR ''.'' # b) =
      scan_mantissa 10 ((push_digits 10 a no_mantissa)\<lparr>mt_dot := True\<rparr>) (b @ [])"
    using dot by (simp add: scan_digits [OF assms(1)])
  also have "\<dots> = (?m, [])" unfolding scan_digits [OF assms(3)] by simp
  finally have scan: "scan_mantissa 10 no_mantissa (a @ CHR ''.'' # b) = (?m, [])" .
  have "mt_value ?m = digits_val a * 10 ^ length b + digits_val b"
    by (simp add: push_digits_value no_mantissa_def)
  then have "mt_value ?m = digits_val (a @ b)"
    using digits_val_acc [of "digits_val a" b] by (simp add: digits_val_def)
  moreover have "mt_digits ?m" "\<not> mt_under ?m" "mt_frac ?m = length b"
    using assms(2) by (simp_all add: push_digits_shape no_mantissa_def)
  ultimately have m: "mt_digits ?m" "\<not> mt_under ?m" "mt_frac ?m = length b" "mt_value ?m = digits_val (a @ b)"
    by blast+
  have "a @ CHR ''.'' # b \<noteq> []" "hd (a @ CHR ''.'' # b) \<noteq> CHR ''-''" using digit_neq [OF c] by (simp_all add: a)
  moreover have "(10 :: rat) powi - int (length b) = inverse (10 ^ length b)" by (simp add: power_int_minus)
  ultimately show ?thesis unfolding readFloat_def ds using nohex m by (simp add: scan divide_inverse)
qed

lemma special_digit: "is_digit c \<Longrightarrow> special (c # s) = None"
proof -
  assume c: "is_digit c"
  then have "c \<noteq> CHR ''i''" "c \<noteq> CHR ''n''" by (auto simp: is_digit_iff)
  then show ?thesis using lower_digit [OF c] digit_neq [OF c] by (simp add: special_def drop_sign_def)
qed

lemma ParseFloat_fixed:
  assumes "list_all is_digit a" "a \<noteq> []" "list_all is_digit b" "2 * of_nat (digits_val (a @ b)) < float64_limit"
  shows "ParseFloat (a @ CHR ''.'' # b) = (FloatFin (on_grid (of_nat (digits_val (a @ b)) / 10 ^ length b)), None)"
proof -
  have "special (a @ CHR ''.'' # b) = None" using assms(1,2) special_digit by (cases a) auto
  moreover have "of_nat (digits_val (a @ b)) / (10 :: rat) ^ length b \<le> of_nat (digits_val (a @ b))"
    by (simp add: divide_le_eq mult_le_cancel_left1)
  with assms(4) have "2 * \<bar>of_nat (digits_val (a @ b)) / (10 :: rat) ^ length b\<bar> < float64_limit"
    by (simp add: abs_of_nonneg)
  ultimately show ?thesis using readFloat_fixed [OF assms(1-3)] by (simp add: ParseFloat_def round64_finite)
qed

lemma ParseFloat_decimal:
  assumes "list_all is_digit a" "a \<noteq> []" "list_all is_digit b" "digits_val (a @ b) < 2 ^ 100"
  shows "ParseFloat (a @ CHR ''.'' # b) = (FloatFin (on_grid (of_nat (digits_val (a @ b)) / 10 ^ length b)), None)"
proof -
  have "(of_nat (digits_val (a @ b)) :: rat) < of_nat (2 ^ 100)" using assms(4) by (simp only: of_nat_less_iff)
  then show ?thesis by (intro ParseFloat_fixed assms(1-3) below_limit) simp
qed

text \<open>Without an error the value is finite unless the text names a special value.\<close>

lemma ParseFloat_ok:
  assumes "ParseFloat s = (f, None)" "special s = None"
  obtains q where "readFloat s = Some q" "f = FloatFin (on_grid q)"
  using assms by (auto simp: ParseFloat_def round64_def split: option.splits gofloat.splits if_splits)

end
