(* ===== verification/Ping_Latency.thy ===== *)
theory Ping_Latency
  imports Go_Float Probe_Round
begin

text \<open>
  The round-trip time in the output of \<open>ping\<close> (\<open>parsePingLatencyMS\<close> of \<open>internal/agent/probe.go\<close>): the
  leftmost match of the regular expression \<open>time[=<]([0-9.]+)\s*ms\<close>. The classes of the pattern are disjoint,
  so at one position the expression matches in at most one way: the longest run of digits and points, then
  all white space, then \<open>ms\<close>.
\<close>

definition numeric :: "char \<Rightarrow> bool" where
  "numeric c \<longleftrightarrow> is_digit c \<or> c = CHR ''.''"

text \<open>\<open>\s\<close> of Go's regular expressions.\<close>

definition re_space :: "char \<Rightarrow> bool" where
  "re_space c \<longleftrightarrow> c \<in> {CHR 0x09, CHR 0x0A, CHR 0x0C, CHR 0x0D, CHR 0x20}"

definition latency_at :: "string \<Rightarrow> string option" where
  "latency_at text =
     (let after = drop 5 text; ds = takeWhile numeric after in
      if (HasPrefix text ''time='' \<or> HasPrefix text ''time<'') \<and> ds \<noteq> [] \<and>
         HasPrefix (dropWhile re_space (dropWhile numeric after)) ''ms''
      then Some ds else None)"

fun find_latency :: "string \<Rightarrow> string option" where
  "find_latency [] = None"
| "find_latency (c # s) = (case latency_at (c # s) of Some ds \<Rightarrow> Some ds | None \<Rightarrow> find_latency s)"

text \<open>
  A value that is not finite cannot come out of digits and points without an error
  (\<open>numeric_ParseFloat\<close> below), so the last branch stands for the parse errors alone.
\<close>

definition parsePingLatencyMS :: "string \<Rightarrow> float64 option" where
  "parsePingLatencyMS output =
     (case find_latency output of
        None \<Rightarrow> None
      | Some ds \<Rightarrow>
          (case ParseFloat ds of
             (FloatFin v, None) \<Rightarrow> if v < 0 then None else Some v
           | _ \<Rightarrow> None))"

subsection \<open>Numbers of digits and points\<close>

lemma numeric_special:
  assumes "list_all numeric s"
  shows "special s = None"
proof (cases s)
  case (Cons c t)
  show ?thesis
  proof (cases "is_digit c")
    case True
    then show ?thesis by (simp add: Cons special_digit)
  next
    case False
    then have "c = CHR ''.''" using assms Cons by (simp add: numeric_def)
    moreover have "lower (CHR ''.'') = CHR ''.''" by code_simp
    ultimately show ?thesis by (simp add: Cons special_def drop_sign_def)
  qed
qed (simp add: special_def drop_sign_def)

lemma readFloat_unsigned: "readFloat s = Some q \<Longrightarrow> s = [] \<or> hd s \<noteq> CHR ''-'' \<Longrightarrow> 0 \<le> q"
  by (auto simp: readFloat_def Let_def split: prod.splits list.splits if_splits)

lemma numeric_ParseFloat:
  assumes "list_all numeric s"
  shows "(\<exists>v\<ge>0. ParseFloat s = (FloatFin v, None)) \<or> snd (ParseFloat s) \<noteq> None"
proof (cases "snd (ParseFloat s)")
  case None
  then obtain f where f: "ParseFloat s = (f, None)" by (cases "ParseFloat s") auto
  then obtain q where q: "readFloat s = Some q" "f = FloatFin (on_grid q)"
    using ParseFloat_ok numeric_special [OF assms] by metis
  have "s = [] \<or> hd s \<noteq> CHR ''-''" using assms by (cases s) (auto simp: numeric_def is_digit_iff)
  then show ?thesis using q f readFloat_unsigned on_grid_sign by blast
qed simp

lemma find_latency_numeric: "find_latency s = Some ds \<Longrightarrow> ds \<noteq> [] \<and> list_all numeric ds"
proof (induction s)
  case (Cons c s)
  then show ?case
    by (auto simp: latency_at_def Let_def list_all_iff dest: set_takeWhileD split: option.splits if_splits)
qed simp

lemma parsePingLatencyMS_nonneg: "parsePingLatencyMS output = Some v \<Longrightarrow> 0 \<le> v"
  by (auto simp: parsePingLatencyMS_def split: option.splits prod.splits gofloat.splits if_splits)

subsection \<open>The leftmost match\<close>

lemma find_latency_skip:
  assumes "\<And>k. k < length pre \<Longrightarrow> \<not> HasPrefix (drop k (pre @ s)) ''time''"
  shows "find_latency (pre @ s) = find_latency s"
  using assms
proof (induction pre)
  case (Cons c pre)
  have "\<not> HasPrefix (c # pre @ s) ''time''" using Cons.prems [of 0] by simp
  then have "latency_at (c # pre @ s) = None" by (auto simp: latency_at_def Let_def HasPrefix_iff)
  moreover have "find_latency (pre @ s) = find_latency s"
  proof (rule Cons.IH)
    fix k assume "k < length pre"
    then show "\<not> HasPrefix (drop k (pre @ s)) ''time''" using Cons.prems [of "Suc k"] by simp
  qed
  ultimately show ?case by simp
qed simp

lemma latency_at_match:
  assumes "sep = CHR ''='' \<or> sep = CHR ''<''" "list_all numeric ds" "ds \<noteq> []"
  shows "latency_at (''time'' @ sep # ds @ '' ms'' @ post) = Some ds"
proof -
  have "\<not> numeric (CHR '' '')" "re_space (CHR '' '')" "\<not> re_space (CHR ''m'')"
    by (simp_all add: numeric_def is_digit_iff re_space_def)
  moreover have "takeWhile numeric (ds @ CHR '' '' # t) = ds \<and> dropWhile numeric (ds @ CHR '' '' # t) = CHR '' '' # t"
    if "\<not> numeric (CHR '' '')" for t
    using assms(2) that by (induction ds) auto
  ultimately show ?thesis using assms by (auto simp: latency_at_def Let_def HasPrefix_def)
qed

text \<open>
  C38: When the first \<open>time\<close> of the output of \<open>ping\<close> is followed by \<open>=\<close> or \<open><\<close> and a decimal number in
  milliseconds, the latency read is a \<open>float64\<close> nearest to that number: no other \<open>float64\<close> is closer.
\<close>

theorem ping_latency_nearest:
  assumes "\<forall>k<length pre. \<not> HasPrefix (drop k (pre @ ''time'' @ sep # a @ ''.'' @ b @ '' ms'' @ post)) ''time''"
    and "sep = CHR ''='' \<or> sep = CHR ''<''"
    and "list_all is_digit a" "a \<noteq> []" "list_all is_digit b" "digits_val (a @ b) < 2 ^ 100"
    and "float64_value y"
  shows "\<exists>v\<ge>0. parsePingLatencyMS (pre @ ''time'' @ sep # a @ ''.'' @ b @ '' ms'' @ post) = Some v \<and>
    \<bar>v - of_nat (digits_val (a @ b)) / 10 ^ length b\<bar> \<le> \<bar>y - of_nat (digits_val (a @ b)) / 10 ^ length b\<bar>"
proof -
  let ?q = "of_nat (digits_val (a @ b)) / 10 ^ length b :: rat" and ?n = "a @ CHR ''.'' # b"
  have num: "list_all numeric ?n" using assms(3,5) by (auto simp: list_all_iff numeric_def)
  have "find_latency (pre @ ''time'' @ sep # a @ ''.'' @ b @ '' ms'' @ post) =
      find_latency (''time'' @ sep # ?n @ '' ms'' @ post)"
    using find_latency_skip [of pre "''time'' @ sep # ?n @ '' ms'' @ post"] assms(1) by simp
  also have "\<dots> = Some ?n" using latency_at_match [OF assms(2) num, of post] by simp
  finally have find: "find_latency (pre @ ''time'' @ sep # a @ ''.'' @ b @ '' ms'' @ post) = Some ?n" .
  have "ParseFloat ?n = (FloatFin (on_grid ?q), None)" by (rule ParseFloat_decimal [OF assms(3-6)])
  moreover have "0 \<le> on_grid ?q" by (intro on_grid_sign) simp
  ultimately show ?thesis
    using find on_grid_nearest [OF assms(7), of ?q] by (simp add: parsePingLatencyMS_def)
qed

theorem ping_latency_nearest_witness:
  "\<exists>v\<ge>0. parsePingLatencyMS ''64 bytes from 192.0.2.1: icmp_seq=1 ttl=57 time=12.5 ms'' = Some v \<and> v = 25 / 2"
proof -
  have y: "float64_value (25 / 2)" unfolding float64_value_def by (rule exI [of _ 25], rule exI [of _ "-1"]) simp
  have "list_all (\<lambda>k. \<not> HasPrefix (drop k ''64 bytes from 192.0.2.1: icmp_seq=1 ttl=57 time=12.5 ms'') ''time'') [0..<43]"
    by code_simp
  then have "\<forall>k<43. \<not> HasPrefix (drop k ''64 bytes from 192.0.2.1: icmp_seq=1 ttl=57 time=12.5 ms'') ''time''"
    by (simp add: list_all_iff)
  then show ?thesis
    using ping_latency_nearest [of "''64 bytes from 192.0.2.1: icmp_seq=1 ttl=57 ''" "CHR ''=''" "''12''" "''5''" "[]", OF _ _ _ _ _ _ y]
    by (simp add: digits_val_def digit_val_def is_digit_iff)
qed

end
