(* ===== verification/Probe_Run.thy ===== *)
theory Probe_Run
  imports Probe_Http Probe_Scheduler Ping_Latency
begin

text \<open>
  Execution of probes (\<open>internal/agent/probe.go\<close>): the sample loops of the TCP, ping and HTTP probes, the
  labels of failed samples, and \<open>ProbeTargets\<close>, which runs one goroutine per target and stores each
  result at the index of its target. What the operating system answers to an attempt is an input of
  the model. A latency is a rational number of milliseconds.
\<close>

subsection \<open>Samples\<close>

definition cappedDrawableLatencyMS :: "float64 \<Rightarrow> float64" where
  "cappedDrawableLatencyMS elapsedMS =
     (if elapsedMS < 0 then 0 else if elapsedMS > 5000 then 5000 else elapsedMS)"

text \<open>The conversion to a duration truncates towards zero.\<close>

definition trunc_ms :: "float64 \<Rightarrow> duration" where
  "trunc_ms ms = (if ms < 0 then - \<lfloor>- ms * 1000000\<rfloor> else \<lfloor>ms * 1000000\<rfloor>)"

definition measuredProbeSample :: "int \<Rightarrow> float64 \<Rightarrow> duration \<Rightarrow> ProbeSample" where
  "measuredProbeSample sq elapsedMS timeout =
     (if trunc_ms elapsedMS > timeout
      then \<lparr>sample_Seq = sq, sample_Success = False, sample_LatencyMS = None, sample_Error = ''timeout''\<rparr>
      else \<lparr>sample_Seq = sq, sample_Success = True,
            sample_LatencyMS = Some (cappedDrawableLatencyMS elapsedMS), sample_Error = []\<rparr>)"

definition failedMeasuredProbeSample :: "int \<Rightarrow> string \<Rightarrow> ProbeSample" where
  "failedMeasuredProbeSample sq errText =
     \<lparr>sample_Seq = sq, sample_Success = False, sample_LatencyMS = None, sample_Error = errText\<rparr>"

definition failedProbeSamples :: "int \<Rightarrow> string \<Rightarrow> ProbeSample list" where
  "failedProbeSamples count errText =
     map (\<lambda>sq. failedMeasuredProbeSample sq errText) [1..normalizedProbeCount count]"

subsection \<open>Labels of errors\<close>

text \<open>The text of an error of the model; the fixed texts are those of the source.\<close>

fun error_text :: "probe_error \<Rightarrow> string" where
  "error_text InvalidProbeTarget = ''invalid probe target''"
| "error_text UnsafeProbeTarget = ''unsafe probe target''"
| "error_text UnsafeProbeRedirect = ''unsafe probe redirect''"
| "error_text ProbeDNS = ''probe dns error''"
| "error_text (Ctx Canceled) = ''context canceled''"
| "error_text (Ctx DeadlineExceeded) = ''context deadline exceeded''"
| "error_text (Net text timeout) = text"

definition classifyProbeSetupError :: "probe_error \<Rightarrow> string" where
  "classifyProbeSetupError err =
     (if classifyContextError err \<noteq> [] then classifyContextError err
      else if err = UnsafeProbeTarget then ''unsafe_target''
      else if err = ProbeDNS then ''dns_error''
      else ''invalid_address'')"

definition classifyProbeError :: "probe_error option \<Rightarrow> string" where
  "classifyProbeError e =
     (case e of
        None \<Rightarrow> []
      | Some err \<Rightarrow>
          if classifyContextError err \<noteq> [] then classifyContextError err
          else if (case err of Net _ timeout \<Rightarrow> timeout | _ \<Rightarrow> False) then ''timeout''
          else
            (let message = ToLower (error_text err) in
             if Contains_text message ''timeout'' \<or> Contains_text message ''deadline'' \<or>
                Contains_text message ''i/o timeout'' then ''timeout''
             else if Contains_text message ''no such host'' then ''dns_error''
             else ''connect_error''))"

definition ctx_label :: "ctx \<Rightarrow> string" where
  "ctx_label e = (case e of None \<Rightarrow> [] | Some x \<Rightarrow> classifyContextError (Ctx x))"

definition classifyPingError :: "probe_error \<Rightarrow> string \<Rightarrow> ctx \<Rightarrow> string" where
  "classifyPingError err output ctxErr =
     (if ctx_label ctxErr \<noteq> [] then ctx_label ctxErr
      else if classifyContextError err \<noteq> [] then classifyContextError err
      else
        (let message = ToLower (output @ '' '' @ error_text err) in
         if Contains_text message ''executable file not found'' \<or> Contains_text message ''no such file''
           then ''ping_unavailable''
         else if Contains_text message ''name or service not known'' \<or> Contains_text message ''temporary failure'' \<or>
                 Contains_text message ''unknown host'' \<or> Contains_text message ''no such host'' then ''dns_error''
         else if Contains_text message ''operation not permitted'' \<or> Contains_text message ''permission denied''
           then ''permission_denied''
         else if Contains_text message ''100% packet loss'' \<or> Contains_text message ''0 received'' \<or>
                 Contains_text message ''timeout'' then ''timeout''
         else ''ping_error''))"

definition classifyHTTPProbeError :: "probe_error \<Rightarrow> ctx \<Rightarrow> string" where
  "classifyHTTPProbeError err ctxErr =
     (if ctx_label ctxErr \<noteq> [] then ctx_label ctxErr
      else if classifyContextError err \<noteq> [] then classifyContextError err
      else if err = UnsafeProbeRedirect then ''unsafe_redirect''
      else if err = UnsafeProbeTarget then ''unsafe_target''
      else if err = InvalidProbeTarget then ''invalid_url''
      else if err = ProbeDNS then ''dns_error''
      else
        (let message = ToLower (error_text err) in
         if Contains_text message ''no such host'' then ''dns_error''
         else if Contains_text message ''certificate'' \<or> Contains_text message ''tls'' then ''tls_error''
         else if Contains_text message ''timeout'' \<or> Contains_text message ''deadline'' \<or>
                 Contains_text message ''i/o timeout'' then ''timeout''
         else ''http_error''))"

subsection \<open>The sample loop\<close>

text \<open>
  The three probes share the shape of their loop: for each sequence number the context is polled; once
  it is done the remaining samples are failures with its label, otherwise one attempt gives one sample.
  \<open>done sq\<close> is \<open>ctx.Err()\<close> at the poll, \<open>attempt sq\<close> the sample of the attempt. The second argument is
  the number of samples still to take.
\<close>

definition done_label :: "ctx_err \<Rightarrow> string" where
  "done_label e = (let label = classifyContextError (Ctx e) in if label = [] then ''cancelled'' else label)"

fun sample_loop :: "(int \<Rightarrow> ctx) \<Rightarrow> (int \<Rightarrow> ProbeSample) \<Rightarrow> nat \<Rightarrow> int \<Rightarrow> ProbeSample list" where
  "sample_loop poll attempt 0 sq = []"
| "sample_loop poll attempt (Suc left) sq =
     (case poll sq of
        Some e \<Rightarrow> map (\<lambda>k. failedMeasuredProbeSample (sq + int k) (done_label e)) [0..<Suc left]
      | None \<Rightarrow> attempt sq # sample_loop poll attempt left (sq + 1))"

subsection \<open>The three probes\<close>

record probe_world =
  w_parse :: "string \<Rightarrow> Addr option"
  w_uri :: "string \<Rightarrow> URL option"
  w_ctx1 :: ctx
  w_ctx2 :: ctx
  w_lookup :: lookup_fun
  w_poll :: "int \<Rightarrow> ctx"
  w_elapsed :: "int \<Rightarrow> float64"                       \<comment> \<open>milliseconds measured for an attempt\<close>
  w_dial :: "int \<Rightarrow> Addr \<Rightarrow> probe_error option"        \<comment> \<open>the answer to a TCP dial\<close>
  w_ping :: "int \<Rightarrow> string \<Rightarrow> string list \<Rightarrow> probe_error option \<times> string"   \<comment> \<open>error and output of a command\<close>
  w_attempt_ctx :: "int \<Rightarrow> nat \<Rightarrow> ctx"                 \<comment> \<open>the attempt context after the given number of commands\<close>
  w_end_ctx :: "int \<Rightarrow> ctx"                           \<comment> \<open>the attempt context when the attempt is over\<close>
  w_addr_text :: "Addr \<Rightarrow> string"                     \<comment> \<open>\<open>Addr.String\<close>\<close>
  w_goos :: string
  w_request_ok :: bool                                \<comment> \<open>\<open>http.NewRequestWithContext\<close> succeeds\<close>
  w_http :: "int \<Rightarrow> probe_error + (string option \<times> int)"  \<comment> \<open>final URL of the response and its status\<close>

definition RunTCPProbe :: "probe_world \<Rightarrow> ProbeTarget \<Rightarrow> ProbeSample list" where
  "RunTCPProbe w target =
     (let count = normalizedProbeCount (target_Count target);
          timeout = normalizedProbeTimeout (target_TimeoutMS target)
      in case target_Port target of
           None \<Rightarrow> failedProbeSamples count ''missing_port''
         | Some port \<Rightarrow>
             if \<not> validProbePort port then failedProbeSamples count ''invalid_port''
             else case resolveSafeProbeHostWithLookup (w_parse w) (w_ctx1 w) (w_ctx2 w) (target_Address target) True (w_lookup w) of
               Inl e \<Rightarrow> failedProbeSamples count (classifyProbeSetupError e)
             | Inr addresses \<Rightarrow>
                 sample_loop (w_poll w)
                   (\<lambda>sq. case fst (dialResolvedProbeAddress (w_dial w sq) ''tcp'' addresses port) of
                      Inl e \<Rightarrow> failedMeasuredProbeSample sq (classifyProbeError (Some e))
                    | Inr _ \<Rightarrow> measuredProbeSample sq (w_elapsed w sq) timeout)
                   (nat count) 1)"

definition pingTimeoutSeconds :: "duration \<Rightarrow> int" where
  "pingTimeoutSeconds timeout =
     (let seconds = go_div (timeout + Second - 1) Second in if seconds < 1 then 1 else seconds)"

definition pingTimeoutMilliseconds :: "duration \<Rightarrow> int" where
  "pingTimeoutMilliseconds timeout =
     (let ms = go_div (timeout + Millisecond - 1) Millisecond in if ms < 1 then 1 else ms)"

definition pingCommandForAddress :: "string \<Rightarrow> string \<Rightarrow> bool \<Rightarrow> duration \<Rightarrow> string \<times> string list" where
  "pingCommandForAddress goos address ipv6 timeout =
     (if goos = ''windows'' then
        (let args = [''-n'', ''1'', ''-w'', Itoa (pingTimeoutMilliseconds timeout)];
             args' = (if ipv6 then ''-6'' # args else args)
         in (''ping'', args' @ [address]))
      else if goos = ''darwin'' then
        (if ipv6 then (''ping6'', [''-n'', ''-c'', ''1'', address])
         else (''ping'', [''-n'', ''-c'', ''1'', ''-W'', Itoa (pingTimeoutMilliseconds timeout), address]))
      else
        ((if ipv6 then ''ping6'' else ''ping''), [''-n'', ''-c'', ''1'', ''-W'', Itoa (pingTimeoutSeconds timeout), address]))"

definition pingCommandForAddr :: "(Addr \<Rightarrow> string) \<Rightarrow> string \<Rightarrow> Addr \<Rightarrow> duration \<Rightarrow> string \<times> string list" where
  "pingCommandForAddr text goos address timeout = pingCommandForAddress goos (text address) (Is6 address) timeout"

definition pingCommand :: "(string \<Rightarrow> Addr option) \<Rightarrow> (Addr \<Rightarrow> string) \<Rightarrow> string \<Rightarrow> string \<Rightarrow> duration \<Rightarrow> string \<times> string list" where
  "pingCommand parse text goos address timeout =
     (case parse (normalizeProbeHost address) of
        Some parsed \<Rightarrow> pingCommandForAddr text goos (Unmap parsed) timeout
      | None \<Rightarrow> pingCommandForAddress goos address False timeout)"

definition rotatedProbeAddresses :: "Addr list \<Rightarrow> int \<Rightarrow> Addr list" where
  "rotatedProbeAddresses addresses offset =
     (if length addresses \<le> 1 then addresses
      else let start = nat (offset mod int (length addresses)) in drop start addresses @ take start addresses)"

text \<open>The loop over the rotated addresses: the error and output of the last command that ran.\<close>

fun ping_loop :: "probe_world \<Rightarrow> int \<Rightarrow> duration \<Rightarrow> Addr list \<Rightarrow> nat \<Rightarrow> probe_error option \<times> string \<Rightarrow>
    probe_error option \<times> string" where
  "ping_loop w sq timeout [] k lastResult = lastResult"
| "ping_loop w sq timeout (a # rest) k lastResult =
     (let (command, args) = pingCommandForAddr (w_addr_text w) (w_goos w) a timeout;
          res = w_ping w sq command args
      in if fst res = None \<or> w_attempt_ctx w sq (Suc k) \<noteq> None then res
         else ping_loop w sq timeout rest (Suc k) res)"

definition ping_attempt :: "probe_world \<Rightarrow> ProbeTarget \<Rightarrow> Addr list \<Rightarrow> int \<Rightarrow> ProbeSample" where
  "ping_attempt w target addresses sq =
     (let timeout = normalizedProbeTimeout (target_TimeoutMS target);
          ordered = rotatedProbeAddresses addresses (sq - 1);
          (err, output) = ping_loop w sq (latencyObservationTimeout timeout) ordered 0 (None, [])
      in case err of
           Some e \<Rightarrow> failedMeasuredProbeSample sq (classifyPingError e output (w_end_ctx w sq))
         | None \<Rightarrow>
             measuredProbeSample sq (case parsePingLatencyMS output of Some parsed \<Rightarrow> parsed | None \<Rightarrow> w_elapsed w sq) timeout)"

definition RunPingProbe :: "probe_world \<Rightarrow> ProbeTarget \<Rightarrow> ProbeSample list" where
  "RunPingProbe w target =
     (let count = normalizedProbeCount (target_Count target);
          address = TrimSpace (target_Address target)
      in if address = [] \<or> HasPrefix address ''-'' then failedProbeSamples count ''invalid_address''
         else case resolveSafeProbeHostWithLookup (w_parse w) (w_ctx1 w) (w_ctx2 w) address True (w_lookup w) of
           Inl e \<Rightarrow> failedProbeSamples count (classifyProbeSetupError e)
         | Inr addresses \<Rightarrow> sample_loop (w_poll w) (ping_attempt w target addresses) (nat count) 1)"

definition http_attempt :: "probe_world \<Rightarrow> ProbeTarget \<Rightarrow> int \<Rightarrow> ProbeSample" where
  "http_attempt w target sq =
     (if \<not> w_request_ok w then failedMeasuredProbeSample sq ''invalid_url''
      else case w_http w sq of
        Inl e \<Rightarrow> failedMeasuredProbeSample sq (classifyHTTPProbeError e (w_end_ctx w sq))
      | Inr (None, status) \<Rightarrow> failedMeasuredProbeSample sq ''unsafe_redirect''
      | Inr (Some final, status) \<Rightarrow>
          (case parseHTTPProbeURL (w_uri w) (w_parse w) final of
             Inl _ \<Rightarrow> failedMeasuredProbeSample sq ''unsafe_redirect''
           | Inr _ \<Rightarrow>
               if status < 200 \<or> status \<ge> 400 then failedMeasuredProbeSample sq (''http_status_'' @ Itoa status)
               else measuredProbeSample sq (w_elapsed w sq) (normalizedProbeTimeout (target_TimeoutMS target))))"

definition RunHTTPProbe :: "probe_world \<Rightarrow> ProbeTarget \<Rightarrow> ProbeSample list" where
  "RunHTTPProbe w target =
     (let count = normalizedProbeCount (target_Count target);
          address = TrimSpace (target_Address target)
      in case parseHTTPProbeURL (w_uri w) (w_parse w) address of
           Inl _ \<Rightarrow> failedProbeSamples count ''invalid_url''
         | Inr _ \<Rightarrow> sample_loop (w_poll w) (http_attempt w target) (nat count) 1)"

subsection \<open>A run over all targets\<close>

text \<open>
  \<open>newProbeRoundID\<close>: sixteen random bytes, or, when the random source fails, the first sixteen bytes of
  the digest of the timestamp, the target, the index and a process-wide counter (\<open>counter\<close>, after the
  increment).
\<close>

definition newProbeRoundID :: "(string \<Rightarrow> string) \<Rightarrow> string option \<Rightarrow> int \<Rightarrow> instant \<Rightarrow> string \<Rightarrow> int \<Rightarrow> string" where
  "newProbeRoundID sha256 randomBytes counter ts targetID index =
     (case randomBytes of
        Some bytes \<Rightarrow> hex_EncodeToString bytes
      | None \<Rightarrow> hex_EncodeToString (take 16 (sha256
          (Itoa (UnixNano ts) @ '':'' @ targetID @ '':'' @ Itoa index @ '':'' @ Itoa counter))))"

record round_env =
  re_world :: "nat \<Rightarrow> probe_world"           \<comment> \<open>the world the goroutine of an index sees\<close>
  re_sha256 :: "string \<Rightarrow> string"
  re_random :: "nat \<Rightarrow> string option"
  re_counter :: "nat \<Rightarrow> int"

definition probe_samples :: "probe_world \<Rightarrow> ProbeTarget \<Rightarrow> ProbeSample list" where
  "probe_samples w target =
     (let ty = target_Type target in
      if ty = ''tcping'' \<or> ty = ''tcp'' then RunTCPProbe w target
      else if ty = ''ping'' \<or> ty = ''icmp'' then RunPingProbe w target
      else if ty = ''http_get'' \<or> ty = ''http'' \<or> ty = ''https'' then RunHTTPProbe w target
      else failedProbeSamples (target_Count target) (''unsupported_'' @ ty))"

definition probe_round :: "round_env \<Rightarrow> instant \<Rightarrow> nat \<Rightarrow> ProbeTarget \<Rightarrow> ProbeRound" where
  "probe_round env ts index target =
     \<lparr>round_RoundID = newProbeRoundID (re_sha256 env) (re_random env index) (re_counter env index) ts (target_ID target) (int index),
      round_ConfigVersion = 0, round_TargetID = target_ID target, round_TS = ts, round_Type = target_Type target,
      round_Samples = probe_samples (re_world env index) target\<rparr>"

definition ProbeTargets :: "round_env \<Rightarrow> ProbeTarget list \<Rightarrow> instant \<Rightarrow> ProbeRound list" where
  "ProbeTargets env targets ts =
     (let limited = LimitProbeTargetsForRun targets
      in map (\<lambda>index. probe_round env ts index (limited ! index)) [0..<length limited])"

subsection \<open>Every probe returns its full series of samples\<close>

definition sample_ok :: "duration \<Rightarrow> ProbeSample \<Rightarrow> bool" where
  "sample_ok timeout smp \<longleftrightarrow>
     (if sample_Success smp
      then sample_Error smp = [] \<and>
        (case sample_LatencyMS smp of None \<Rightarrow> False
         | Some l \<Rightarrow> 0 \<le> l \<and> l \<le> 5000 \<and> l * 1000000 < of_int (timeout + 1))
      else sample_Error smp \<noteq> [] \<and> sample_LatencyMS smp = None)"

definition series_ok :: "duration \<Rightarrow> int \<Rightarrow> ProbeSample list \<Rightarrow> bool" where
  "series_ok timeout count samples \<longleftrightarrow>
     map sample_Seq samples = [1..count] \<and> (\<forall>smp\<in>set samples. sample_ok timeout smp)"

lemma sample_ok_failed: "errText \<noteq> [] \<Longrightarrow> sample_ok timeout (failedMeasuredProbeSample sq errText)"
  by (simp add: sample_ok_def failedMeasuredProbeSample_def)

lemma sample_ok_measured: "0 \<le> timeout \<Longrightarrow> sample_ok timeout (measuredProbeSample sq ms timeout)"
proof (cases "trunc_ms ms > timeout")
  case False
  assume t: "0 \<le> timeout"
  let ?l = "cappedDrawableLatencyMS ms"
  have l: "0 \<le> ?l" "?l \<le> 5000" "0 \<le> ms \<Longrightarrow> ?l \<le> ms" "ms < 0 \<Longrightarrow> ?l = 0"
    by (auto simp: cappedDrawableLatencyMS_def)
  have "?l * 1000000 < of_int (timeout + 1)"
  proof (cases "ms < 0")
    case True
    then show ?thesis using t l by simp
  next
    case pos: False
    then have "\<lfloor>ms * 1000000\<rfloor> \<le> timeout" using False by (simp add: trunc_ms_def)
    then have "ms * 1000000 < of_int (timeout + 1)" by linarith
    then show ?thesis using l(3) pos by linarith
  qed
  then show ?thesis using False l by (simp add: sample_ok_def measuredProbeSample_def)
qed (simp add: sample_ok_def measuredProbeSample_def)

lemma seq_measured [simp]: "sample_Seq (measuredProbeSample sq ms timeout) = sq"
  by (simp add: measuredProbeSample_def)

lemma seq_failed [simp]: "sample_Seq (failedMeasuredProbeSample sq e) = sq"
  by (simp add: failedMeasuredProbeSample_def)

lemma upto_shift: "map (\<lambda>k. a + int k) [0..<n] = [a..a + int n - 1]"
proof (induction n arbitrary: a)
  case (Suc n)
  have "map (\<lambda>k. a + int k) [0..<Suc n] = a # map (\<lambda>k. (a + 1) + int k) [0..<n]"
    by (simp add: upt_conv_Cons map_Suc_upt [symmetric] comp_def algebra_simps del: upt_Suc)
  then show ?case using Suc [of "a + 1"] by (simp add: upto_rec1 algebra_simps)
qed simp

lemma done_label_not_Nil: "done_label e \<noteq> []"
  by (cases e) (simp_all add: done_label_def classifyContextError_def)

lemma sample_loop_ok:
  assumes "\<And>sq. sample_Seq (attempt sq) = sq" "\<And>sq. sample_ok timeout (attempt sq)"
  shows "map sample_Seq (sample_loop poll attempt n sq) = [sq..sq + int n - 1] \<and>
    (\<forall>smp\<in>set (sample_loop poll attempt n sq). sample_ok timeout smp)"
proof (induction n arbitrary: sq)
  case (Suc n)
  show ?case
  proof (cases "poll sq")
    case None
    have "[sq..sq + int (Suc n) - 1] = sq # [sq + 1..sq + 1 + int n - 1]"
      by (simp add: upto_rec1 algebra_simps)
    then show ?thesis using None assms Suc [of "sq + 1"] by auto
  next
    case (Some e)
    then show ?thesis
      using upto_shift [of sq "Suc n"] by (auto simp: comp_def sample_ok_failed done_label_not_Nil simp del: upt_Suc)
  qed
qed simp

lemma series_loop:
  assumes "\<And>sq. sample_Seq (attempt sq) = sq" "\<And>sq. sample_ok timeout (attempt sq)" "1 \<le> count"
  shows "series_ok timeout count (sample_loop poll attempt (nat count) 1)"
  using sample_loop_ok [of attempt timeout poll "nat count" 1] assms by (simp add: series_ok_def)

lemma series_failed: "errText \<noteq> [] \<Longrightarrow> series_ok timeout (normalizedProbeCount n) (failedProbeSamples n errText)"
  by (auto simp: series_ok_def failedProbeSamples_def comp_def sample_ok_failed)

lemma labels_not_Nil:
  "classifyProbeSetupError e \<noteq> []" "classifyProbeError (Some e) \<noteq> []" "classifyPingError e output c \<noteq> []"
  "classifyHTTPProbeError e c \<noteq> []"
  by (simp_all add: classifyProbeSetupError_def classifyProbeError_def classifyPingError_def
      classifyHTTPProbeError_def Let_def)

lemma timeout_nonneg: "0 \<le> normalizedProbeTimeout n"
  using normalizedProbeTimeoutMS_bounds [of n] by (simp add: normalizedProbeTimeout_def time_defs)

lemmas series_rules = series_failed labels_not_Nil timeout_nonneg sample_ok_measured sample_ok_failed

lemma tcp_series:
  "series_ok (normalizedProbeTimeout (target_TimeoutMS t)) (normalizedProbeCount (target_Count t)) (RunTCPProbe w t)"
proof -
  let ?c = "normalizedProbeCount (target_Count t)" and ?tm = "normalizedProbeTimeout (target_TimeoutMS t)"
  have fail: "e \<noteq> [] \<Longrightarrow> series_ok ?tm ?c (failedProbeSamples ?c e)" for e
    using series_failed [of e ?tm ?c] by simp
  have loop: "series_ok ?tm ?c (sample_loop (w_poll w)
      (\<lambda>sq. case fst (dialResolvedProbeAddress (w_dial w sq) ''tcp'' addrs port) of
         Inl e \<Rightarrow> failedMeasuredProbeSample sq (classifyProbeError (Some e))
       | Inr _ \<Rightarrow> measuredProbeSample sq (w_elapsed w sq) ?tm) (nat ?c) 1)" for addrs port
    by (rule series_loop) (auto simp: normalizedProbeCount_bounds series_rules split: sum.split)
  show ?thesis
    unfolding RunTCPProbe_def Let_def
    by (auto intro!: fail loop simp: labels_not_Nil split: option.split sum.split)
qed

lemma ping_series:
  "series_ok (normalizedProbeTimeout (target_TimeoutMS t)) (normalizedProbeCount (target_Count t)) (RunPingProbe w t)"
proof -
  let ?c = "normalizedProbeCount (target_Count t)" and ?tm = "normalizedProbeTimeout (target_TimeoutMS t)"
  have fail: "e \<noteq> [] \<Longrightarrow> series_ok ?tm ?c (failedProbeSamples ?c e)" for e
    using series_failed [of e ?tm ?c] by simp
  have loop: "series_ok ?tm ?c (sample_loop (w_poll w) (ping_attempt w t addrs) (nat ?c) 1)" for addrs
    by (rule series_loop)
      (auto simp: normalizedProbeCount_bounds series_rules ping_attempt_def Let_def split: option.split prod.split)
  show ?thesis
    unfolding RunPingProbe_def Let_def by (auto intro!: fail loop simp: labels_not_Nil split: sum.split)
qed

lemma http_series:
  "series_ok (normalizedProbeTimeout (target_TimeoutMS t)) (normalizedProbeCount (target_Count t)) (RunHTTPProbe w t)"
proof -
  let ?c = "normalizedProbeCount (target_Count t)" and ?tm = "normalizedProbeTimeout (target_TimeoutMS t)"
  have fail: "e \<noteq> [] \<Longrightarrow> series_ok ?tm ?c (failedProbeSamples ?c e)" for e
    using series_failed [of e ?tm ?c] by simp
  have loop: "series_ok ?tm ?c (sample_loop (w_poll w) (http_attempt w t) (nat ?c) 1)"
    by (rule series_loop)
      (auto simp: normalizedProbeCount_bounds series_rules http_attempt_def split: option.split sum.split prod.split)
  show ?thesis
    unfolding RunHTTPProbe_def Let_def by (auto intro!: fail loop simp: labels_not_Nil split: sum.split)
qed

lemma probe_samples_series:
  "series_ok (normalizedProbeTimeout (target_TimeoutMS t)) (normalizedProbeCount (target_Count t)) (probe_samples w t)"
  by (simp add: probe_samples_def Let_def tcp_series ping_series http_series series_failed)

subsection \<open>Probes reach safe addresses only\<close>

text \<open>
  The result of a probe does not depend on what the network or the ping utility would answer for an
  address that the guard rejects.
\<close>

lemma dial_loop_cong:
  assumes "\<And>a. a \<in> set addrs \<Longrightarrow> dial a = dial' a"
  shows "dial_loop dial network addrs lastErr = dial_loop dial' network addrs lastErr"
  using assms by (induction addrs arbitrary: lastErr) (simp_all split: option.split)

lemma resolved_valid:
  "resolveSafeProbeHostWithLookup parse ctx1 ctx2 host allow lookup = Inr addrs \<Longrightarrow> a \<in> set addrs \<Longrightarrow>
   validateSafeProbeAddress a True = None"
  by (rule answer_safe_valid [OF resolveSafe_answer])

lemma tcp_safe:
  assumes "\<And>sq a. validateSafeProbeAddress a True = None \<Longrightarrow> w_dial w sq a = d sq a"
  shows "RunTCPProbe (w\<lparr>w_dial := d\<rparr>) t = RunTCPProbe w t"
proof -
  have "dialResolvedProbeAddress (d sq) ''tcp'' addrs port = dialResolvedProbeAddress (w_dial w sq) ''tcp'' addrs port"
    if r: "resolveSafeProbeHostWithLookup (w_parse w) (w_ctx1 w) (w_ctx2 w) (target_Address t) True (w_lookup w) = Inr addrs"
    for sq addrs port
    using assms resolved_valid [OF r] by (auto simp: dialResolvedProbeAddress_def intro!: dial_loop_cong)
  then show ?thesis
    by (simp add: RunTCPProbe_def Let_def cong: sum.case_cong split: option.split sum.split)
qed

lemma set_rotated: "set (rotatedProbeAddresses addrs k) = set addrs"
  using set_append [of "drop n addrs" "take n addrs" for n]
  by (simp add: rotatedProbeAddresses_def Let_def) (metis append_take_drop_id set_append sup_commute)

lemma ping_loop_cong:
  assumes "\<And>a. a \<in> set addrs \<Longrightarrow>
    p sq (fst (pingCommandForAddr (w_addr_text w) (w_goos w) a tm)) (snd (pingCommandForAddr (w_addr_text w) (w_goos w) a tm)) =
    w_ping w sq (fst (pingCommandForAddr (w_addr_text w) (w_goos w) a tm)) (snd (pingCommandForAddr (w_addr_text w) (w_goos w) a tm))"
  shows "ping_loop (w\<lparr>w_ping := p\<rparr>) sq tm addrs k r = ping_loop w sq tm addrs k r"
  using assms by (induction addrs arbitrary: k r) (simp_all add: case_prod_beta Let_def)

lemma ping_safe:
  assumes "\<And>sq a tm. validateSafeProbeAddress a True = None \<Longrightarrow>
    p sq (fst (pingCommandForAddr (w_addr_text w) (w_goos w) a tm)) (snd (pingCommandForAddr (w_addr_text w) (w_goos w) a tm)) =
    w_ping w sq (fst (pingCommandForAddr (w_addr_text w) (w_goos w) a tm)) (snd (pingCommandForAddr (w_addr_text w) (w_goos w) a tm))"
  shows "RunPingProbe (w\<lparr>w_ping := p\<rparr>) t = RunPingProbe w t"
proof -
  have "ping_attempt (w\<lparr>w_ping := p\<rparr>) t addrs = ping_attempt w t addrs"
    if r: "resolveSafeProbeHostWithLookup (w_parse w) (w_ctx1 w) (w_ctx2 w) (TrimSpace (target_Address t)) True (w_lookup w) = Inr addrs"
    for addrs
  proof -
    have "ping_loop (w\<lparr>w_ping := p\<rparr>) sq tm (rotatedProbeAddresses addrs k) 0 z =
        ping_loop w sq tm (rotatedProbeAddresses addrs k) 0 z" for tm k z sq
      by (rule ping_loop_cong) (use assms resolved_valid [OF r] in \<open>simp add: set_rotated\<close>)
    then show ?thesis by (simp add: fun_eq_iff ping_attempt_def Let_def split: prod.split option.split)
  qed
  then show ?thesis
    by (simp add: RunPingProbe_def Let_def split: sum.split)
qed

subsection \<open>A run over all targets\<close>

lemma series_length: "series_ok tm count samples \<Longrightarrow> 0 \<le> count \<Longrightarrow> int (length samples) = count"
  unfolding series_ok_def by (metis add.right_neutral diff_add_cancel int_nat_eq length_map length_upto)

lemma ProbeTargets_nth:
  assumes "i < length (LimitProbeTargetsForRun ts)"
  shows "ProbeTargets env ts now ! i = probe_round env now i (LimitProbeTargetsForRun ts ! i)"
  using assms by (simp add: ProbeTargets_def Let_def)

lemma length_ProbeTargets: "length (ProbeTargets env ts now) = length (LimitProbeTargetsForRun ts)"
  by (simp add: ProbeTargets_def Let_def)

lemma probe_round_length:
  assumes "sane_target t"
  shows "int (length (round_Samples (probe_round env now i t))) = target_Count t"
proof -
  have "normalizedProbeCount (target_Count t) = target_Count t"
    using assms by (simp add: sane_target_def normalizedProbeCount_id)
  then show ?thesis
    using series_length [OF probe_samples_series, of t "re_world env i"] normalizedProbeCount_bounds [of "target_Count t"]
    by (simp add: probe_round_def)
qed

lemma ProbeTargets_samples:
  "(\<Sum>r\<leftarrow>ProbeTargets env ts now. int (length (round_Samples r))) = run_samples (LimitProbeTargetsForRun ts)"
proof -
  let ?l = "LimitProbeTargetsForRun ts"
  have "map (\<lambda>i. int (length (round_Samples (probe_round env now i (?l ! i))))) [0..<length ?l] =
    map (\<lambda>i. target_Count (?l ! i)) [0..<length ?l]"
    by (rule map_cong) (use Limit_sane [of ts] in \<open>auto simp: probe_round_length list_all_iff\<close>)
  also have "\<dots> = map target_Count ?l" by (rule nth_equalityI) simp_all
  finally show ?thesis by (simp add: ProbeTargets_def run_samples_def Let_def comp_def)
qed

subsection \<open>Properties\<close>


text \<open>C20: A TCP probe reaches only addresses that pass the guard: its result does not depend on what the network would
  answer for any other address.\<close>

theorem tcp_probe_reaches_safe_only:
  assumes "\<forall>sq a. validateSafeProbeAddress a True = None \<longrightarrow> w_dial w sq a = d sq a"
  shows "RunTCPProbe (w\<lparr>w_dial := d\<rparr>) t = RunTCPProbe w t"
  by (rule tcp_safe) (use assms in blast)

definition example_world :: probe_world where
  "example_world = \<lparr>w_parse = (\<lambda>_. None), w_uri = (\<lambda>_. None), w_ctx1 = None, w_ctx2 = None,
     w_lookup = (\<lambda>_. Inr [A4 0xC0000201]), w_poll = (\<lambda>_. None), w_elapsed = (\<lambda>_. 12), w_dial = (\<lambda>_ _. None),
     w_ping = (\<lambda>_ _ _. (None, [])), w_attempt_ctx = (\<lambda>_ _. None), w_end_ctx = (\<lambda>_. None), w_addr_text = (\<lambda>_. ''192.0.2.1''),
     w_goos = ''linux'', w_request_ok = True, w_http = (\<lambda>_. Inl ProbeDNS)\<rparr>"

definition guarded_dial :: "int \<Rightarrow> Addr \<Rightarrow> probe_error option" where
  "guarded_dial sq a = validateSafeProbeAddress a True"

theorem tcp_probe_reaches_safe_only_witness:
  "RunTCPProbe (example_world\<lparr>w_dial := guarded_dial\<rparr>) (example_target ''a'') = RunTCPProbe example_world (example_target ''a'')"
  by (rule tcp_probe_reaches_safe_only) (simp add: example_world_def guarded_dial_def)

text \<open>A ping probe runs the ping utility only with the arguments for addresses that pass the guard: its result
  does not depend on what any other command line would do.\<close>

theorem ping_probe_reaches_safe_only:
  assumes "\<forall>sq a tm. validateSafeProbeAddress a True = None \<longrightarrow>
    p sq (fst (pingCommandForAddr (w_addr_text w) (w_goos w) a tm)) (snd (pingCommandForAddr (w_addr_text w) (w_goos w) a tm)) =
    w_ping w sq (fst (pingCommandForAddr (w_addr_text w) (w_goos w) a tm)) (snd (pingCommandForAddr (w_addr_text w) (w_goos w) a tm))"
  shows "RunPingProbe (w\<lparr>w_ping := p\<rparr>) t = RunPingProbe w t"
  by (rule ping_safe) (use assms in blast)

definition refuse_shell :: "int \<Rightarrow> string \<Rightarrow> string list \<Rightarrow> probe_error option \<times> string" where
  "refuse_shell sq command args = (if command = ''ping'' \<or> command = ''ping6'' then (None, []) else (Some ProbeDNS, []))"

theorem ping_probe_reaches_safe_only_witness:
  "RunPingProbe (example_world\<lparr>w_ping := refuse_shell\<rparr>) (example_target ''a'') = RunPingProbe example_world (example_target ''a'')"
  by (rule ping_probe_reaches_safe_only)
    (simp add: example_world_def refuse_shell_def pingCommandForAddr_def pingCommandForAddress_def)

end
