(* ===== verification/Spool_Dir.thy ===== *)
theory Spool_Dir
  imports Agent_Prelude
begin

text \<open>
  A directory of the probe spool: its entries by name, in the order \<open>os.ReadDir\<close> returns them (names
  increasing bytewise). The locale \<open>directory\<close> is what the spool relies on: look-up after a write or a
  removal, and the listing as the graph of the look-up, each name once, in order. It gives the
  accounting lemmas for totals over the entries (numbers of items and bytes).
\<close>

datatype node =
    Regular string         \<comment> \<open>a regular file with its bytes\<close>
  | Special nat            \<comment> \<open>a symbolic link, device or socket, with its reported size\<close>
  | Directory bool         \<comment> \<open>a subdirectory; whether it is empty\<close>

type_synonym dir = "(string \<times> node) list"

fun IsDir :: "node \<Rightarrow> bool" where
  "IsDir (Directory e) = True"
| "IsDir _ = False"

fun node_Size :: "node \<Rightarrow> int" where
  "node_Size (Regular content) = int (length content)"
| "node_Size (Special n) = int n"
| "node_Size (Directory e) = 0"

lemma node_Size_nonneg [simp]: "0 \<le> node_Size x"
  by (cases x) simp_all

definition dir_get :: "dir \<Rightarrow> string \<Rightarrow> node option" where
  "dir_get d n = map_of d n"

fun dir_put :: "string \<Rightarrow> node \<Rightarrow> dir \<Rightarrow> dir" where
  "dir_put n x [] = [(n, x)]"
| "dir_put n x ((k, y) # d) =
     (if n < k then (n, x) # (k, y) # d else if n = k then (n, x) # d else (k, y) # dir_put n x d)"

definition dir_del :: "string \<Rightarrow> dir \<Rightarrow> dir" where
  "dir_del n d = filter (\<lambda>(k, y). k \<noteq> n) d"

definition dir_ok :: "dir \<Rightarrow> bool" where
  "dir_ok d \<longleftrightarrow> sorted_wrt (<) (map fst d)"

locale directory =
  fixes get :: "'d \<Rightarrow> string \<Rightarrow> 'x option"
    and put :: "string \<Rightarrow> 'x \<Rightarrow> 'd \<Rightarrow> 'd"
    and del :: "string \<Rightarrow> 'd \<Rightarrow> 'd"
    and entries :: "'d \<Rightarrow> (string \<times> 'x) list"
    and ok :: "'d \<Rightarrow> bool"
  assumes get_put: "ok d \<Longrightarrow> get (put n x d) k = (if k = n then Some x else get d k)"
    and get_del: "get (del n d) k = (if k = n then None else get d k)"
    and ok_put: "ok d \<Longrightarrow> ok (put n x d)"
    and ok_del: "ok d \<Longrightarrow> ok (del n d)"
    and entries_get: "ok d \<Longrightarrow> (k, y) \<in> set (entries d) \<longleftrightarrow> get d k = Some y"
    and entries_sorted: "ok d \<Longrightarrow> sorted_wrt (<) (map fst (entries d))"
begin

text \<open>The total of a measure over the entries.\<close>

definition total :: "(string \<times> 'x \<Rightarrow> int) \<Rightarrow> 'd \<Rightarrow> int" where
  "total f d = (\<Sum>p\<leftarrow>entries d. f p)"

lemma entries_distinct: "ok d \<Longrightarrow> distinct (entries d)"
  using entries_sorted [of d] by (metis distinct_map strict_sorted_iff)

lemma total_set: "ok d \<Longrightarrow> total f d = (\<Sum>p\<in>set (entries d). f p)"
  by (simp add: total_def sum_list_distinct_conv_sum_set entries_distinct)

lemma entries_del: "ok d \<Longrightarrow> set (entries (del n d)) = {(k, y). (k, y) \<in> set (entries d) \<and> k \<noteq> n}"
  by (auto simp: entries_get ok_del get_del split: if_splits)

lemma entries_put:
  "ok d \<Longrightarrow> set (entries (put n x d)) = insert (n, x) (set (entries (del n d)))"
  by (auto simp: entries_get ok_put ok_del get_put get_del split: if_splits)

lemma total_put: "ok d \<Longrightarrow> total f (put n x d) = total f (del n d) + f (n, x)"
proof -
  assume ok: "ok d"
  have "(n, x) \<notin> set (entries (del n d))" using ok by (simp add: entries_del)
  then show ?thesis using ok by (simp add: total_set ok_put ok_del entries_put)
qed

lemma total_del_absent: "ok d \<Longrightarrow> get d n = None \<Longrightarrow> total f (del n d) = total f d"
proof -
  assume "ok d" "get d n = None"
  then have "set (entries (del n d)) = set (entries d)" by (auto simp: entries_del entries_get)
  then show ?thesis using \<open>ok d\<close> by (simp add: total_set ok_del)
qed

lemma total_del_present:
  assumes "ok d" "get d n = Some y"
  shows "total f (del n d) = total f d - f (n, y)"
proof -
  have "set (entries d) = insert (n, y) (set (entries (del n d)))"
    using assms by (auto simp: entries_del entries_get)
  moreover have "(n, y) \<notin> set (entries (del n d))" using assms(1) by (simp add: entries_del)
  ultimately show ?thesis using assms(1) by (simp add: total_set ok_del)
qed

lemma total_del:
  "ok d \<Longrightarrow> total f (del n d) = total f d - (case get d n of None \<Rightarrow> 0 | Some y \<Rightarrow> f (n, y))"
  by (simp add: total_del_absent total_del_present split: option.split)

lemma total_del_le: "ok d \<Longrightarrow> (\<And>p. 0 \<le> f p) \<Longrightarrow> total f (del n d) \<le> total f d"
  by (simp add: total_del split: option.split)

lemma total_put_le: "ok d \<Longrightarrow> (\<And>p. 0 \<le> f p) \<Longrightarrow> total f (put n x d) \<le> total f d + f (n, x)"
  using total_del_le by (simp add: total_put)

lemma total_replace: "ok d \<Longrightarrow> get d n = Some y \<Longrightarrow> total f (put n x d) = total f d - f (n, y) + f (n, x)"
  by (simp add: total_put total_del_present)

end

lemma dir_put_keys: "fst ` set (dir_put n x d) = insert n (fst ` set d)"
  by (induction n x d rule: dir_put.induct) auto

lemma dir_put_ok: "dir_ok d \<Longrightarrow> dir_ok (dir_put n x d)"
proof (induction n x d rule: dir_put.induct)
  case (2 n x k y d)
  then show ?case
    using dir_put_keys [of n x d] by (auto simp: dir_ok_def)
qed (simp add: dir_ok_def)

lemma dir_get_put: "dir_ok d \<Longrightarrow> dir_get (dir_put n x d) k = (if k = n then Some x else dir_get d k)"
proof (induction n x d rule: dir_put.induct)
  case (2 n x k' y d)
  then show ?case by (auto simp: dir_get_def dir_ok_def)
qed (simp add: dir_get_def)

lemma dir_get_del: "dir_get (dir_del n d) k = (if k = n then None else dir_get d k)"
  by (induction d) (auto simp: dir_get_def dir_del_def)

lemma dir_del_ok: "dir_ok d \<Longrightarrow> dir_ok (dir_del n d)"
  by (induction d) (auto simp: dir_ok_def dir_del_def)

lemma dir_ok_distinct: "dir_ok d \<Longrightarrow> distinct (map fst d)"
  by (simp add: dir_ok_def strict_sorted_iff)

interpretation sd: directory dir_get dir_put dir_del "\<lambda>d. d" dir_ok
proof unfold_locales
  fix d :: dir and k y
  assume "dir_ok d"
  then show "(k, y) \<in> set d \<longleftrightarrow> dir_get d k = Some y"
    using dir_ok_distinct by (auto simp: dir_get_def)
qed (simp_all add: dir_get_put dir_get_del dir_put_ok dir_del_ok, simp add: dir_ok_def)

lemmas dir_simps [simp] = sd.get_put sd.get_del sd.ok_put sd.ok_del

text \<open>Two directories in order with the same look-ups are the same list.\<close>

lemma dir_eqI:
  assumes "dir_ok d" "dir_ok e" "\<And>n. dir_get d n = dir_get e n"
  shows "d = e"
proof -
  have set_eq: "set d = set e"
    using assms sd.entries_get [OF assms(1)] sd.entries_get [OF assms(2)] by auto
  have "map fst d = map fst e"
    using assms(1,2) set_eq by (intro strict_sorted_equal) (auto simp: dir_ok_def)
  moreover have "inj_on fst (set d)" using dir_ok_distinct [OF assms(1)] by (simp add: distinct_map)
  ultimately show ?thesis using set_eq by (metis inj_on_map_eq_map sup.idem)
qed

lemma dir_put_put [simp]: "dir_ok d \<Longrightarrow> dir_put n x (dir_put n y d) = dir_put n x d"
  by (rule dir_eqI) simp_all

lemma dir_del_put [simp]: "dir_ok d \<Longrightarrow> dir_get d n = None \<Longrightarrow> dir_del n (dir_put n x d) = d"
  by (rule dir_eqI) simp_all

lemma dir_del_absent: "dir_ok d \<Longrightarrow> dir_get d n = None \<Longrightarrow> dir_del n d = d"
  by (rule dir_eqI) simp_all

end
