(* ===== verification/Probe_Spool.thy ===== *)
theory Probe_Spool
  imports Spool_Dir Probe_Round
begin

text \<open>
  The durable spool of probe batches (\<open>internal/agent/probe_spool.go\<close>, with the Unix file-system
  helpers of \<open>probe_spool_fs_unix.go\<close>). The state is the two directories \<open>pending\<close> and
  \<open>quarantine\<close>, the one-slot \<open>notify\<close> channel and a script of file-system faults: every system call
  takes the next entry of the script and fails if it is \<open>Some k\<close> (a failing write has written \<open>k\<close>
  bytes); an empty script means that no further call fails. A theorem for every script is a theorem
  for every sequence of failures. Paths are names in the pending directory. A method that fails
  keeps the changes made so far, so that an operation returns its error or value and the state.

  \<open>encoding/json\<close> and SHA-256 enter through the record \<open>codec\<close>; what the spool relies on of them is
  the predicate \<open>codec_ok\<close>. Sizes are exact integers.
\<close>

record ProbeSpoolLimits =
  TTL :: duration
  MaxPendingItems :: int
  MaxPendingBytes :: int
  MaxItemBytes :: int
  MinFreeBytes :: "64 word"
  MaxQuarantineItems :: int
  MaxQuarantineBytes :: int

definition DefaultProbeSpoolLimits :: ProbeSpoolLimits where
  "DefaultProbeSpoolLimits =
     \<lparr>TTL = 72 * Hour, MaxPendingItems = 16384, MaxPendingBytes = 256 * 2 ^ 20, MaxItemBytes = 1 * 2 ^ 20,
      MinFreeBytes = 512 * 2 ^ 20, MaxQuarantineItems = 128, MaxQuarantineBytes = 16 * 2 ^ 20\<rparr>"

record probeSpoolEnvelope =
  SchemaVersion :: int
  Created :: int
  Attempt :: "32 word"
  NextAt :: int
  Checksum :: string
  Batch :: string

record ProbeSpoolItem =
  item_ID :: string
  item_Body :: string
  item_Created :: instant
  item_Attempt :: "32 word"
  item_NextAt :: instant

record spool_fs =
  pending :: dir
  quarantine :: dir
  faults :: "nat option list"
  notify :: bool

datatype spool_error =
    IOError
  | NotExist
  | NotRegular
  | TooLarge
  | BadEnvelope
  | BadChecksum
  | BadBatch
  | EmptyBatch
  | BadVersions version_error
  | InvalidLimits
  | ItemLimitExceedsPending
  | CapacityExceeded int int
  | NoFreeSpace
  | InvalidItemID
  | RetryTimeRequired

definition probeSpoolSchemaVersion :: int where [go_eval]: "probeSpoolSchemaVersion = 1"

definition validateProbeSpoolLimits :: "ProbeSpoolLimits \<Rightarrow> spool_error option" where
  "validateProbeSpoolLimits limits =
     (if TTL limits \<le> 0 \<or> MaxPendingItems limits \<le> 0 \<or> MaxPendingBytes limits \<le> 0 \<or>
         MaxItemBytes limits \<le> 0 \<or> MaxQuarantineItems limits \<le> 0 \<or> MaxQuarantineBytes limits \<le> 0
      then Some InvalidLimits
      else if MaxItemBytes limits > MaxPendingBytes limits then Some ItemLimitExceedsPending
      else None)"

text \<open>
  \<open>enc\<close> is \<open>json.Marshal\<close> of an envelope, \<open>dec\<close> is the strict decoder of \<open>readEnvelopeLocked\<close> (unknown
  fields and trailing data refused), \<open>marshal_request\<close> is \<open>json.Marshal\<close> of a request, \<open>batch_rounds\<close>
  the number of rounds \<open>json.Unmarshal\<close> finds in a batch, \<open>sha256\<close> the digest.
\<close>

record codec =
  enc :: "probeSpoolEnvelope \<Rightarrow> string"
  dec :: "string \<Rightarrow> probeSpoolEnvelope option"
  marshal_request :: "ProbeResultsRequest \<Rightarrow> string"
  batch_rounds :: "string \<Rightarrow> nat option"
  sha256 :: "string \<Rightarrow> string"

definition probeSpoolChecksum :: "codec \<Rightarrow> string \<Rightarrow> string" where
  "probeSpoolChecksum c body = hex_EncodeToString (sha256 c body)"

subsection \<open>Operations with effects and errors\<close>

type_synonym 'a spool_op = "spool_fs \<Rightarrow> (spool_error + 'a) \<times> spool_fs"

definition returnS :: "'a \<Rightarrow> 'a spool_op" where
  "returnS x s = (Inr x, s)"

definition failS :: "spool_error \<Rightarrow> 'a spool_op" where
  "failS e s = (Inl e, s)"

definition bindS :: "'a spool_op \<Rightarrow> ('a \<Rightarrow> 'b spool_op) \<Rightarrow> 'b spool_op" where
  "bindS m k s = (case m s of (Inl e, s') \<Rightarrow> (Inl e, s') | (Inr x, s') \<Rightarrow> k x s')"

text \<open>\<open>catchS\<close> runs a handler on the error, \<open>orS\<close> ignores it.\<close>

definition catchS :: "'a spool_op \<Rightarrow> (spool_error \<Rightarrow> 'b spool_op) \<Rightarrow> ('a \<Rightarrow> 'b spool_op) \<Rightarrow> 'b spool_op" where
  "catchS m h k s = (case m s of (Inl e, s') \<Rightarrow> h e s' | (Inr x, s') \<Rightarrow> k x s')"

text \<open>One system call: \<open>Inr ()\<close> when it succeeds.\<close>

definition syscall :: "unit spool_op" where
  "syscall s =
     (case faults s of
        [] \<Rightarrow> (Inr (), s)
      | None # fs \<Rightarrow> (Inr (), s\<lparr>faults := fs\<rparr>)
      | Some k # fs \<Rightarrow> (Inl IOError, s\<lparr>faults := fs\<rparr>))"

definition modifyS :: "(spool_fs \<Rightarrow> spool_fs) \<Rightarrow> unit spool_op" where
  "modifyS f s = (Inr (), f s)"

definition getS :: "(spool_fs \<Rightarrow> 'a) \<Rightarrow> 'a spool_op" where
  "getS f s = (Inr (f s), s)"

subsection \<open>File-system calls\<close>

definition ReadDir_pending :: "dir spool_op" where
  "ReadDir_pending = bindS syscall (\<lambda>_. getS pending)"

definition ReadDir_quarantine :: "dir spool_op" where
  "ReadDir_quarantine = bindS syscall (\<lambda>_. getS quarantine)"

definition Lstat :: "string \<Rightarrow> node spool_op" where
  "Lstat name = bindS syscall (\<lambda>_. bindS (getS (\<lambda>s. dir_get (pending s) name))
     (\<lambda>r. case r of None \<Rightarrow> failS NotExist | Some x \<Rightarrow> returnS x))"

definition put_pending :: "string \<Rightarrow> node \<Rightarrow> unit spool_op" where
  "put_pending name x = modifyS (\<lambda>s. s\<lparr>pending := dir_put name x (pending s)\<rparr>)"

definition del_pending :: "string \<Rightarrow> unit spool_op" where
  "del_pending name = modifyS (\<lambda>s. s\<lparr>pending := dir_del name (pending s)\<rparr>)"

definition del_quarantine :: "string \<Rightarrow> unit spool_op" where
  "del_quarantine name = modifyS (\<lambda>s. s\<lparr>quarantine := dir_del name (quarantine s)\<rparr>)"

text \<open>\<open>syncDirectory\<close> opens the directory, then syncs it.\<close>

definition syncDirectory :: "unit spool_op" where
  "syncDirectory = bindS syscall (\<lambda>_. syscall)"

text \<open>\<open>os.Remove\<close> refuses a directory that is not empty; a missing file is not an error here.\<close>

definition removeFileAndSync :: "string \<Rightarrow> unit spool_op" where
  "removeFileAndSync name =
     bindS syscall (\<lambda>_. bindS (getS (\<lambda>s. dir_get (pending s) name)) (\<lambda>r.
       if r = Some (Directory False) then failS IOError
       else bindS (del_pending name) (\<lambda>_. syncDirectory)))"

text \<open>
  \<open>atomicWritePrivateFile\<close>: create a temporary file, restrict, write, sync and close it, rename it
  over the destination, sync the directory. \<open>os.CreateTemp\<close> puts random text in place of the star of
  its pattern and never returns the name of an existing entry. The deferred clean-up removes the temporary file unless the rename
  succeeded, and ignores its own failure.
\<close>

definition temp_name :: "string \<Rightarrow> string" where
  "temp_name random = ''.probe-spool-'' @ random @ ''.tmp''"

definition discard_temp :: "string \<Rightarrow> unit spool_op" where
  "discard_temp tmp = catchS syscall (\<lambda>_. returnS ()) (\<lambda>_. del_pending tmp)"

definition cleanup_and_fail :: "string \<Rightarrow> spool_error \<Rightarrow> unit spool_op" where
  "cleanup_and_fail tmp e = bindS (discard_temp tmp) (\<lambda>_. failS e)"

definition write_temp :: "string \<Rightarrow> string \<Rightarrow> unit spool_op" where
  "write_temp tmp content s =
     (case faults s of
        Some k # fs \<Rightarrow> (Inl IOError, s\<lparr>faults := fs, pending := dir_put tmp (Regular (take k content)) (pending s)\<rparr>)
      | _ \<Rightarrow> bindS syscall (\<lambda>_. put_pending tmp (Regular content)) s)"

definition rename_temp :: "string \<Rightarrow> string \<Rightarrow> string \<Rightarrow> unit spool_op" where
  "rename_temp tmp name content =
     bindS syscall (\<lambda>_. bindS (getS (\<lambda>s. dir_get (pending s) name)) (\<lambda>r.
       case r of
         Some (Directory e) \<Rightarrow> failS IOError
       | _ \<Rightarrow> bindS (del_pending tmp) (\<lambda>_. put_pending name (Regular content))))"

definition atomicWritePrivateFile :: "string \<Rightarrow> string \<Rightarrow> string \<Rightarrow> unit spool_op" where
  "atomicWritePrivateFile random name content =
     (let tmp = temp_name random in bindS syscall (\<lambda>_. bindS (getS (\<lambda>s. dir_get (pending s) tmp)) (\<lambda>existing.
       if existing \<noteq> None then failS IOError
       else bindS (put_pending tmp (Regular [])) (\<lambda>_.
         catchS syscall (cleanup_and_fail tmp) (\<lambda>_.
         catchS (write_temp tmp content) (cleanup_and_fail tmp) (\<lambda>_.
         catchS syscall (cleanup_and_fail tmp) (\<lambda>_.
         catchS syscall (cleanup_and_fail tmp) (\<lambda>_.
         catchS (rename_temp tmp name content) (cleanup_and_fail tmp) (\<lambda>_.
         syncDirectory)))))))))"

definition signal :: "unit spool_op" where
  "signal = modifyS (\<lambda>s. s\<lparr>notify := True\<rparr>)"

subsection \<open>Reading and classifying entries\<close>

text \<open>The checks of \<open>readEnvelopeLocked\<close> on the bytes of a file.\<close>

definition check_content :: "codec \<Rightarrow> ProbeSpoolLimits \<Rightarrow> string \<Rightarrow> spool_error + probeSpoolEnvelope" where
  "check_content c limits content =
     (if int (length content) > MaxItemBytes limits then Inl TooLarge
      else case dec c content of
        None \<Rightarrow> Inl BadEnvelope
      | Some envelope \<Rightarrow>
          if SchemaVersion envelope \<noteq> probeSpoolSchemaVersion \<or> Created envelope \<le> 0 \<or>
             NextAt envelope \<le> 0 \<or> Batch envelope = [] then Inl BadEnvelope
          else if \<not> EqualFold (Checksum envelope) (probeSpoolChecksum c (Batch envelope)) then Inl BadChecksum
          else case batch_rounds c (Batch envelope) of
            None \<Rightarrow> Inl BadBatch
          | Some n \<Rightarrow> if n = 0 then Inl BadBatch else Inr envelope)"

definition readEnvelopeLocked :: "codec \<Rightarrow> ProbeSpoolLimits \<Rightarrow> string \<Rightarrow> (probeSpoolEnvelope \<times> int) spool_op" where
  "readEnvelopeLocked c limits name =
     bindS (Lstat name) (\<lambda>info.
       case info of
         Regular content \<Rightarrow>
           if node_Size info > MaxItemBytes limits then failS TooLarge
           else bindS syscall (\<lambda>_.    \<comment> \<open>open\<close>
             bindS syscall (\<lambda>_.        \<comment> \<open>read\<close>
               case check_content c limits content of
                 Inl e \<Rightarrow> failS e
               | Inr envelope \<Rightarrow> returnS (envelope, node_Size info)))
       | _ \<Rightarrow> failS NotRegular)"

definition is_item :: "string \<times> node \<Rightarrow> bool" where
  "is_item p \<longleftrightarrow> \<not> IsDir (snd p) \<and> HasSuffix (fst p) ''.json''"

subsection \<open>Quarantine\<close>

definition sanitize_reason :: "string \<Rightarrow> string" where
  "sanitize_reason reason =
     map (\<lambda>r. if (CHR ''a'' \<le> r \<and> r \<le> CHR ''z'') \<or> (CHR ''0'' \<le> r \<and> r \<le> CHR ''9'') \<or> r = CHR ''-''
              then r else CHR ''-'') (ToLower reason)"

text \<open>The listing of the quarantine: each entry that is not a directory is asked for its size.\<close>

fun stat_entries :: "dir \<Rightarrow> (string \<times> int) list spool_op" where
  "stat_entries [] = returnS []"
| "stat_entries ((name, x) # rest) =
     (if IsDir x then stat_entries rest
      else bindS syscall (\<lambda>_. bindS (stat_entries rest) (\<lambda>items. returnS ((name, node_Size x) # items))))"

fun prune_loop :: "ProbeSpoolLimits \<Rightarrow> int \<Rightarrow> (string \<times> int) list \<Rightarrow> int \<Rightarrow> unit spool_op" where
  "prune_loop limits incoming [] used = returnS ()"
| "prune_loop limits incoming ((name, bytes) # items) used =
     (if int (length items) + 1 + 1 > MaxQuarantineItems limits \<or> used + incoming > MaxQuarantineBytes limits
      then bindS syscall (\<lambda>_. bindS (del_quarantine name) (\<lambda>_.
             prune_loop limits incoming items (used - bytes)))
      else returnS ())"

definition pruneQuarantineLocked :: "ProbeSpoolLimits \<Rightarrow> int \<Rightarrow> unit spool_op" where
  "pruneQuarantineLocked limits incomingBytes =
     bindS ReadDir_quarantine (\<lambda>entries.
     bindS (stat_entries entries) (\<lambda>items.
     bindS (prune_loop limits incomingBytes items (\<Sum>p\<leftarrow>items. snd p)) (\<lambda>_.
     syncDirectory)))"

text \<open>\<open>os.Rename\<close> into the quarantine replaces a file of that name and refuses a directory.\<close>

definition rename_to_quarantine :: "string \<Rightarrow> string \<Rightarrow> node \<Rightarrow> unit spool_op" where
  "rename_to_quarantine name destination x =
     bindS syscall (\<lambda>_. bindS (getS (\<lambda>s. dir_get (quarantine s) destination)) (\<lambda>r.
       case r of
         Some (Directory e) \<Rightarrow> failS IOError
       | _ \<Rightarrow> modifyS (\<lambda>s. s\<lparr>pending := dir_del name (pending s),
                              quarantine := dir_put destination x (quarantine s)\<rparr>)))"

definition quarantinePathLocked :: "ProbeSpoolLimits \<Rightarrow> string \<Rightarrow> string \<Rightarrow> unit spool_op" where
  "quarantinePathLocked limits name reason =
     catchS (Lstat name) (\<lambda>e. if e = NotExist then returnS () else failS e) (\<lambda>info.
       case info of
         Regular content \<Rightarrow>
           if node_Size info > MaxQuarantineBytes limits then removeFileAndSync name
           else bindS (pruneQuarantineLocked limits (node_Size info)) (\<lambda>_.
             bindS (rename_to_quarantine name (name @ ''.'' @ sanitize_reason reason) info) (\<lambda>_.
             bindS syscall (\<lambda>_.       \<comment> \<open>chmod\<close>
             bindS syncDirectory (\<lambda>_. syncDirectory))))
       | _ \<Rightarrow> bindS syscall (\<lambda>_. bindS (del_pending name) (\<lambda>_. syncDirectory)))"

subsection \<open>Expiry and clean-up\<close>

definition expired :: "ProbeSpoolLimits \<Rightarrow> instant \<Rightarrow> probeSpoolEnvelope \<Rightarrow> bool" where
  "expired limits now envelope \<longleftrightarrow> time_sub now (Created envelope) \<ge> TTL limits"

definition cleanup_entry :: "codec \<Rightarrow> ProbeSpoolLimits \<Rightarrow> instant \<Rightarrow> string \<times> node \<Rightarrow> unit spool_op" where
  "cleanup_entry c limits now entry =
     (if \<not> is_item entry then quarantinePathLocked limits (fst entry) ''unexpected''
      else catchS (readEnvelopeLocked c limits (fst entry))
        (\<lambda>_. quarantinePathLocked limits (fst entry) ''invalid'')
        (\<lambda>(envelope, _). if expired limits now envelope then removeFileAndSync (fst entry) else returnS ()))"

fun forS :: "('a \<Rightarrow> unit spool_op) \<Rightarrow> 'a list \<Rightarrow> unit spool_op" where
  "forS f [] = returnS ()"
| "forS f (x # xs) = bindS (f x) (\<lambda>_. forS f xs)"

definition cleanupPendingLocked :: "codec \<Rightarrow> ProbeSpoolLimits \<Rightarrow> instant \<Rightarrow> unit spool_op" where
  "cleanupPendingLocked c limits now = bindS ReadDir_pending (forS (cleanup_entry c limits now))"

fun usage_loop :: "dir \<Rightarrow> int \<Rightarrow> int \<Rightarrow> (int \<times> int) spool_op" where
  "usage_loop [] count used = returnS (count, used)"
| "usage_loop (entry # rest) count used =
     (if \<not> is_item entry then usage_loop rest count used
      else bindS syscall (\<lambda>_. usage_loop rest (count + 1) (used + node_Size (snd entry))))"

definition pendingUsageLocked :: "(int \<times> int) spool_op" where
  "pendingUsageLocked = bindS ReadDir_pending (\<lambda>entries. usage_loop entries 0 0)"

subsection \<open>Enqueue\<close>

definition marshalProbeResults :: "codec \<Rightarrow> ProbeRound list \<Rightarrow> spool_error + string" where
  "marshalProbeResults c rounds =
     (if rounds = [] then Inl EmptyBatch
      else case commonProbeConfigVersion rounds of
        Inl e \<Rightarrow> Inl (BadVersions e)
      | Inr configVersion \<Rightarrow> Inr (marshal_request c
          \<lparr>request_ConfigVersion = configVersion, request_Rounds = map round_payload rounds\<rparr>))"

text \<open>
  What one call draws from its surroundings: the clock, the free space of the file system, sixteen
  random bytes, and the random part of the name of the temporary file.
\<close>

record spool_env =
  env_now :: instant
  env_free :: "64 word"
  env_random :: string
  env_tmp :: string

definition newIDLocked :: "spool_env \<Rightarrow> string spool_op" where
  "newIDLocked env =
     bindS syscall (\<lambda>_. returnS (pad20 (UnixNano (env_now env)) @ ''-'' @ hex_EncodeToString (env_random env)))"

definition new_envelope :: "codec \<Rightarrow> instant \<Rightarrow> string \<Rightarrow> probeSpoolEnvelope" where
  "new_envelope c now body =
     \<lparr>SchemaVersion = probeSpoolSchemaVersion, Created = UnixNano now, Attempt = 0, NextAt = UnixNano now,
      Checksum = probeSpoolChecksum c body, Batch = body\<rparr>"

definition Enqueue :: "codec \<Rightarrow> ProbeSpoolLimits \<Rightarrow> spool_env \<Rightarrow> ProbeRound list \<Rightarrow> string spool_op" where
  "Enqueue c limits env rounds =
     (case marshalProbeResults c rounds of
        Inl e \<Rightarrow> failS e
      | Inr body \<Rightarrow>
          bindS (cleanupPendingLocked c limits (env_now env)) (\<lambda>_.
          let encoded = enc c (new_envelope c (env_now env) body) in
          if int (length encoded) > MaxItemBytes limits then failS TooLarge
          else bindS pendingUsageLocked (\<lambda>(count, totalBytes).
            if count \<ge> MaxPendingItems limits \<or> totalBytes + int (length encoded) > MaxPendingBytes limits
            then failS (CapacityExceeded count totalBytes)
            else bindS syscall (\<lambda>_.       \<comment> \<open>freeBytes\<close>
              if env_free env < MinFreeBytes limits + of_nat (length encoded) then failS NoFreeSpace
              else bindS (newIDLocked env) (\<lambda>ident.
                bindS (atomicWritePrivateFile (env_tmp env) (ident @ ''.json'') encoded) (\<lambda>_.
                bindS signal (\<lambda>_. returnS ident)))))))"

subsection \<open>Next, Load, ScheduleRetry, Ack, Quarantine\<close>

definition probeSpoolItemFromEnvelope :: "string \<Rightarrow> probeSpoolEnvelope \<Rightarrow> ProbeSpoolItem" where
  "probeSpoolItemFromEnvelope ident envelope =
     \<lparr>item_ID = ident, item_Body = Batch envelope, item_Created = Created envelope,
      item_Attempt = Attempt envelope, item_NextAt = NextAt envelope\<rparr>"

definition TrimSuffix_json :: "string \<Rightarrow> string" where
  "TrimSuffix_json name = (if HasSuffix name ''.json'' then take (length name - 5) name else name)"

fun next_loop :: "codec \<Rightarrow> ProbeSpoolLimits \<Rightarrow> instant \<Rightarrow> dir \<Rightarrow> ProbeSpoolItem option spool_op" where
  "next_loop c limits now [] = returnS None"
| "next_loop c limits now (entry # rest) =
     (if \<not> is_item entry then next_loop c limits now rest
      else catchS (readEnvelopeLocked c limits (fst entry))
        (\<lambda>_. bindS (quarantinePathLocked limits (fst entry) ''invalid'') (\<lambda>_. next_loop c limits now rest))
        (\<lambda>(envelope, _).
           if expired limits now envelope
           then bindS (removeFileAndSync (fst entry)) (\<lambda>_. next_loop c limits now rest)
           else if NextAt envelope > now then next_loop c limits now rest
           else returnS (Some (probeSpoolItemFromEnvelope (TrimSuffix_json (fst entry)) envelope))))"

definition Next :: "codec \<Rightarrow> ProbeSpoolLimits \<Rightarrow> instant \<Rightarrow> ProbeSpoolItem option spool_op" where
  "Next c limits now =
     bindS (cleanupPendingLocked c limits now) (\<lambda>_. bindS ReadDir_pending (next_loop c limits now))"

text \<open>\<open>filepath.Base\<close> on Unix.\<close>

definition filepath_Base :: "string \<Rightarrow> string" where
  "filepath_Base path =
     (if path = [] then ''.''
      else let p = rev (dropWhile (\<lambda>c. c = CHR ''/'') (rev path));
               b = rev (takeWhile (\<lambda>c. c \<noteq> CHR ''/'') (rev p))
           in if b = [] then ''/'' else b)"

definition pendingPathLocked :: "string \<Rightarrow> spool_error + string" where
  "pendingPathLocked ident =
     (if ident = [] \<or> ident = ''.'' \<or> ident = ''..'' \<or> filepath_Base ident \<noteq> ident \<or>
         (\<exists>ch\<in>set ident. ch = CHR ''/'' \<or> ch = CHR 0x5C) \<or> HasSuffix (ToLower ident) ''.json''
      then Inl InvalidItemID else Inr (ident @ ''.json''))"

definition liftS :: "spool_error + 'a \<Rightarrow> 'a spool_op" where
  "liftS r = (case r of Inl e \<Rightarrow> failS e | Inr x \<Rightarrow> returnS x)"

definition Load :: "codec \<Rightarrow> ProbeSpoolLimits \<Rightarrow> string \<Rightarrow> ProbeSpoolItem spool_op" where
  "Load c limits ident =
     bindS (liftS (pendingPathLocked ident)) (\<lambda>name.
     bindS (readEnvelopeLocked c limits name) (\<lambda>(envelope, _).
     returnS (probeSpoolItemFromEnvelope ident envelope)))"

text \<open>\<open>Time.IsZero\<close> is the instant of the zero time, 1 January of year 1.\<close>

definition zero_time :: instant where
  "zero_time = - 62135596800 * Second"

definition ScheduleRetry ::
  "codec \<Rightarrow> ProbeSpoolLimits \<Rightarrow> spool_env \<Rightarrow> string \<Rightarrow> 32 word \<Rightarrow> instant \<Rightarrow> unit spool_op" where
  "ScheduleRetry c limits env ident attempt nextAt =
     bindS (liftS (pendingPathLocked ident)) (\<lambda>name.
     bindS (readEnvelopeLocked c limits name) (\<lambda>(envelope, _).
     if nextAt = zero_time then failS RetryTimeRequired
     else
       let encoded = enc c (envelope\<lparr>Attempt := attempt, NextAt := UnixNano nextAt\<rparr>) in
       if int (length encoded) > MaxItemBytes limits then failS TooLarge
       else bindS (atomicWritePrivateFile (env_tmp env) name encoded) (\<lambda>_. signal)))"

definition Ack :: "string \<Rightarrow> unit spool_op" where
  "Ack ident = bindS (liftS (pendingPathLocked ident)) removeFileAndSync"

definition Quarantine :: "ProbeSpoolLimits \<Rightarrow> string \<Rightarrow> string \<Rightarrow> unit spool_op" where
  "Quarantine limits ident reason =
     bindS (liftS (pendingPathLocked ident)) (\<lambda>name. quarantinePathLocked limits name reason)"

end
