(* ===== verification/Spool_Hoare.thy ===== *)
theory Spool_Hoare
  imports Probe_Spool
begin

text \<open>
  A small program logic for spool operations. \<open>triple P m Q E\<close>: from a state with \<open>P\<close> the operation
  either returns a value and a state with \<open>Q\<close> or fails with an error and a state with \<open>E\<close>, whatever
  the script of faults. \<open>preserves I m\<close> is the triple of an invariant.
\<close>

definition triple ::
  "(spool_fs \<Rightarrow> bool) \<Rightarrow> 'a spool_op \<Rightarrow> ('a \<Rightarrow> spool_fs \<Rightarrow> bool) \<Rightarrow> (spool_error \<Rightarrow> spool_fs \<Rightarrow> bool) \<Rightarrow> bool" where
  "triple P m Q E \<longleftrightarrow>
     (\<forall>s. P s \<longrightarrow> (\<forall>x t. m s = (Inr x, t) \<longrightarrow> Q x t) \<and> (\<forall>e t. m s = (Inl e, t) \<longrightarrow> E e t))"

definition preserves :: "(spool_fs \<Rightarrow> bool) \<Rightarrow> 'a spool_op \<Rightarrow> bool" where
  "preserves I m \<longleftrightarrow> triple I m (\<lambda>_. I) (\<lambda>_. I)"

named_theorems spool_rules \<open>triples of the basic operations\<close>

lemma triple_value: "triple P m Q E \<Longrightarrow> P s \<Longrightarrow> m s = (Inr x, t) \<Longrightarrow> Q x t"
  by (simp add: triple_def)

lemma triple_error: "triple P m Q E \<Longrightarrow> P s \<Longrightarrow> m s = (Inl e, t) \<Longrightarrow> E e t"
  by (simp add: triple_def)

lemma triple_result:
  assumes "triple P m Q E" "P s" "m s = (r, t)"
  shows "(\<exists>x. r = Inr x \<and> Q x t) \<or> (\<exists>e. r = Inl e \<and> E e t)"
  using assms by (cases r) (auto simp: triple_def)

lemma preserves_result:
  assumes "preserves I m" "I s"
  shows "I (snd (m s))"
proof -
  obtain r t where "m s = (r, t)" by fastforce
  then show ?thesis using triple_result [OF assms [unfolded preserves_def]] by auto
qed

lemma preservesI:
  assumes "\<And>s. I s \<Longrightarrow> I (snd (m s))"
  shows "preserves I m"
proof -
  have "I t" if "I s" "m s = (r, t)" for s r t using assms [OF that(1)] that(2) by simp
  then show ?thesis by (auto simp: preserves_def triple_def)
qed

lemma triple_conseq:
  "triple P m Q E \<Longrightarrow> (\<And>s. P' s \<Longrightarrow> P s) \<Longrightarrow> (\<And>x s. Q x s \<Longrightarrow> Q' x s) \<Longrightarrow> (\<And>e s. E e s \<Longrightarrow> E' e s) \<Longrightarrow>
   triple P' m Q' E'"
  unfolding triple_def by blast

lemma triple_return: "(\<And>s. P s \<Longrightarrow> Q x s) \<Longrightarrow> triple P (returnS x) Q E"
  by (simp add: triple_def returnS_def)

lemma triple_fail: "(\<And>s. P s \<Longrightarrow> E e s) \<Longrightarrow> triple P (failS e) Q E"
  by (simp add: triple_def failS_def)

lemma triple_get: "(\<And>s. P s \<Longrightarrow> Q (f s) s) \<Longrightarrow> triple P (getS f) Q E"
  by (simp add: triple_def getS_def)

lemma triple_modify: "(\<And>s. P s \<Longrightarrow> Q () (f s)) \<Longrightarrow> triple P (modifyS f) Q E"
  by (simp add: triple_def modifyS_def)

lemma triple_bind: "triple P m R E \<Longrightarrow> (\<And>x. triple (R x) (k x) Q E) \<Longrightarrow> triple P (bindS m k) Q E"
  unfolding triple_def bindS_def by (simp split: prod.splits sum.splits) blast

lemma triple_catch:
  "triple P m R H \<Longrightarrow> (\<And>e. triple (H e) (h e) Q E) \<Longrightarrow> (\<And>x. triple (R x) (k x) Q E) \<Longrightarrow>
   triple P (catchS m h k) Q E"
  unfolding triple_def catchS_def by (simp split: prod.splits sum.splits) blast

lemma triple_if:
  "(b \<Longrightarrow> triple P m Q E) \<Longrightarrow> (\<not> b \<Longrightarrow> triple P m' Q E) \<Longrightarrow> triple P (if b then m else m') Q E"
  by simp

lemma triple_lift: "(\<And>s x. P s \<Longrightarrow> r = Inr x \<Longrightarrow> Q x s) \<Longrightarrow> (\<And>s e. P s \<Longrightarrow> r = Inl e \<Longrightarrow> E e s) \<Longrightarrow> triple P (liftS r) Q E"
  by (cases r) (auto simp: liftS_def triple_def returnS_def failS_def)

text \<open>A predicate on the directories and the channel, not on the faults to come.\<close>

definition visible :: "(spool_fs \<Rightarrow> bool) \<Rightarrow> bool" where
  "visible P \<longleftrightarrow> (\<forall>s f. P s \<longrightarrow> P (s\<lparr>faults := f\<rparr>))"

lemma visible_pred [simp, intro]: "visible (\<lambda>s. R (pending s) (quarantine s) (notify s))"
  by (simp add: visible_def)

lemma triple_syscall: "visible P \<Longrightarrow> triple P syscall (\<lambda>_. P) (\<lambda>_. P)"
  by (auto simp: triple_def syscall_def visible_def split: list.splits option.splits)

lemma triple_sync: "visible P \<Longrightarrow> triple P syncDirectory (\<lambda>_. P) (\<lambda>_. P)"
  unfolding syncDirectory_def by (rule triple_bind [OF triple_syscall triple_syscall])

subsection \<open>The atomic write\<close>

text \<open>
  With \<open>d\<close> the pending directory before the write: an error before the rename leaves \<open>d\<close>, or \<open>d\<close> with a
  left-over temporary file; from the rename on the destination has the new content.
\<close>

definition at_dir :: "dir \<Rightarrow> dir \<Rightarrow> bool \<Rightarrow> spool_fs \<Rightarrow> bool" where
  "at_dir d q b s \<longleftrightarrow> pending s = d \<and> quarantine s = q \<and> notify s = b"

definition with_temp :: "string \<Rightarrow> dir \<Rightarrow> dir \<Rightarrow> bool \<Rightarrow> spool_fs \<Rightarrow> bool" where
  "with_temp tmp d q b s \<longleftrightarrow> (\<exists>y. pending s = dir_put tmp (Regular y) d) \<and> quarantine s = q \<and> notify s = b"

definition write_failed :: "string \<Rightarrow> dir \<Rightarrow> dir \<Rightarrow> bool \<Rightarrow> spool_fs \<Rightarrow> bool" where
  "write_failed tmp d q b s \<longleftrightarrow> at_dir d q b s \<or> with_temp tmp d q b s"

lemma visible_at [simp]: "visible (at_dir d q b)" "visible (with_temp tmp d q b)" "visible (write_failed tmp d q b)"
  by (auto simp: visible_def at_dir_def with_temp_def write_failed_def)

lemma triple_cleanup:
  assumes "dir_ok d" "dir_get d tmp = None"
  shows "triple (with_temp tmp d q b) (cleanup_and_fail tmp e) Q (\<lambda>_. write_failed tmp d q b)"
proof -
  have "triple (with_temp tmp d q b) (discard_temp tmp) (\<lambda>_. write_failed tmp d q b) (\<lambda>_. write_failed tmp d q b)"
    unfolding discard_temp_def del_pending_def
    using assms
    by (intro triple_catch [OF triple_syscall] triple_return triple_modify)
      (auto simp: with_temp_def write_failed_def at_dir_def)
  then show ?thesis unfolding cleanup_and_fail_def by (rule triple_bind) (rule triple_fail)
qed

lemma triple_write_temp:
  assumes "dir_ok d"
  shows "triple (with_temp tmp d q b) (write_temp tmp content) (\<lambda>_. with_temp tmp d q b) (\<lambda>_. with_temp tmp d q b)"
  using assms
  by (auto simp: triple_def write_temp_def with_temp_def bindS_def syscall_def put_pending_def modifyS_def
      split: list.splits option.splits)

lemma triple_rename_temp:
  assumes "dir_ok d" "dir_get d tmp = None"
  shows "triple (with_temp tmp d q b) (rename_temp tmp name content)
    (\<lambda>_. at_dir (dir_put name (Regular content) d) q b) (\<lambda>_. with_temp tmp d q b)"
proof -
  have "triple (with_temp tmp d q b)
     (case r of Some (Directory e) \<Rightarrow> failS IOError
      | _ \<Rightarrow> bindS (del_pending tmp) (\<lambda>_. put_pending name (Regular content)))
     (\<lambda>_. at_dir (dir_put name (Regular content) d) q b) (\<lambda>_. with_temp tmp d q b)" for r
  proof -
    have "triple (with_temp tmp d q b) (bindS (del_pending tmp) (\<lambda>_. put_pending name (Regular content)))
       (\<lambda>_. at_dir (dir_put name (Regular content) d) q b) (\<lambda>_. with_temp tmp d q b)"
      unfolding del_pending_def put_pending_def
      using assms
      by (intro triple_bind [where R = "\<lambda>_. at_dir d q b"] triple_modify)
        (auto simp: with_temp_def at_dir_def)
    then show ?thesis by (auto intro: triple_fail split: option.split node.split)
  qed
  then show ?thesis
    unfolding rename_temp_def
    by (intro triple_bind [OF triple_syscall] triple_bind [where R = "\<lambda>_. with_temp tmp d q b"] triple_get) auto
qed

lemma triple_atomicWrite:
  assumes ok: "dir_ok d"
  shows "triple (at_dir d q b) (atomicWritePrivateFile random name content)
     (\<lambda>_. at_dir (dir_put name (Regular content) d) q b)
     (\<lambda>_ s. write_failed (temp_name random) d q b s \<or> at_dir (dir_put name (Regular content) d) q b s)"
proof -
  let ?t = "temp_name random"
  let ?E = "\<lambda>(_::spool_error) s. write_failed ?t d q b s \<or> at_dir (dir_put name (Regular content) d) q b s"
  let ?Q = "\<lambda>_. at_dir (dir_put name (Regular content) d) q b"
  have sync: "triple (at_dir (dir_put name (Regular content) d) q b) syncDirectory ?Q ?E"
    by (rule triple_conseq [OF triple_sync [OF visible_at(1)]]) auto
  have fresh: "triple (with_temp ?t d q b)
      (catchS syscall (cleanup_and_fail ?t) (\<lambda>_.
       catchS (write_temp ?t content) (cleanup_and_fail ?t) (\<lambda>_.
       catchS syscall (cleanup_and_fail ?t) (\<lambda>_.
       catchS syscall (cleanup_and_fail ?t) (\<lambda>_.
       catchS (rename_temp ?t name content) (cleanup_and_fail ?t) (\<lambda>_. syncDirectory)))))) ?Q ?E"
    if absent: "dir_get d ?t = None"
  proof -
    have clean: "triple (with_temp ?t d q b) (cleanup_and_fail ?t e) ?Q ?E" for e
      by (rule triple_conseq [OF triple_cleanup [OF ok absent, of q b e ?Q]]) auto
    show ?thesis
      by (rule triple_catch [where R = "\<lambda>_. with_temp ?t d q b" and H = "\<lambda>_. with_temp ?t d q b"],
          rule triple_syscall, simp, rule clean)+
        (rule triple_catch [OF triple_write_temp [OF ok] clean]
          triple_catch [OF triple_syscall clean] triple_catch [OF triple_rename_temp [OF ok absent] clean] sync visible_at)+
  qed
  have body: "triple (\<lambda>s. at_dir d q b s \<and> existing = dir_get d ?t)
     (if existing \<noteq> None then failS IOError
      else bindS (put_pending ?t (Regular [])) (\<lambda>_.
       catchS syscall (cleanup_and_fail ?t) (\<lambda>_.
       catchS (write_temp ?t content) (cleanup_and_fail ?t) (\<lambda>_.
       catchS syscall (cleanup_and_fail ?t) (\<lambda>_.
       catchS syscall (cleanup_and_fail ?t) (\<lambda>_.
       catchS (rename_temp ?t name content) (cleanup_and_fail ?t) (\<lambda>_. syncDirectory))))))) ?Q ?E" for existing
  proof (cases "existing = None \<and> dir_get d ?t = None")
    case True
    then show ?thesis
      using fresh unfolding put_pending_def
      by (auto intro!: triple_bind [where R = "\<lambda>_. with_temp ?t d q b"] triple_modify
          simp: at_dir_def with_temp_def)
  next
    case False
    then show ?thesis by (auto simp: triple_def failS_def write_failed_def)
  qed
  have first: "triple (at_dir d q b) syscall (\<lambda>_. at_dir d q b) ?E"
    by (rule triple_conseq [OF triple_syscall [OF visible_at(1)]]) (auto simp: write_failed_def)
  have look: "triple (at_dir d q b) (getS (\<lambda>s. dir_get (pending s) ?t))
      (\<lambda>r s. at_dir d q b s \<and> r = dir_get d ?t) ?E"
    by (rule triple_get) (simp add: at_dir_def)
  show ?thesis
    unfolding atomicWritePrivateFile_def Let_def
    by (rule triple_bind [OF first triple_bind [OF look body]])
qed

end
