(* ===== verification/Spool_Invariants.thy ===== *)
theory Spool_Invariants
  imports Spool_Hoare
begin

text \<open>
  Invariants of the spool under every operation and every script of faults. The locale
  \<open>spool_invariant\<close> says what an invariant has to survive: system calls and the channel, the removal of
  a pending file, \<open>quarantinePathLocked\<close>, and (in the extended locale) the two operations that write.
  It then survives \<open>Next\<close>, \<open>Load\<close>, \<open>Ack\<close>, \<open>Quarantine\<close> and any sequence of calls. The interpretations are
  the well-formedness of the directories, the bounds on the quarantine and the bound on the number
  of pending items.
\<close>

lemma preserves_bind: "preserves I m \<Longrightarrow> (\<And>x. preserves I (k x)) \<Longrightarrow> preserves I (bindS m k)"
  unfolding preserves_def by (rule triple_bind)

lemma preserves_catch:
  "preserves I m \<Longrightarrow> (\<And>e. preserves I (h e)) \<Longrightarrow> (\<And>x. preserves I (k x)) \<Longrightarrow> preserves I (catchS m h k)"
  unfolding preserves_def by (rule triple_catch)

lemma preserves_return: "preserves I (returnS x)"
  by (simp add: preserves_def triple_return)

lemma preserves_fail: "preserves I (failS e)"
  by (simp add: preserves_def triple_fail)

lemma preserves_get: "preserves I (getS f)"
  by (simp add: preserves_def triple_get)

lemma preserves_lift: "preserves I (liftS r)"
  by (cases r) (simp_all add: liftS_def preserves_return preserves_fail)

lemma preserves_modify: "(\<And>s. I s \<Longrightarrow> I (f s)) \<Longrightarrow> preserves I (modifyS f)"
  by (simp add: preserves_def triple_modify)

lemma preserves_syscall: "visible I \<Longrightarrow> preserves I syscall"
  by (simp add: preserves_def triple_syscall)

lemma preserves_if: "(b \<Longrightarrow> preserves I m) \<Longrightarrow> (\<not> b \<Longrightarrow> preserves I m') \<Longrightarrow> preserves I (if b then m else m')"
  by simp

lemma preserves_forS: "(\<And>x. preserves I (f x)) \<Longrightarrow> preserves I (forS f xs)"
  by (induction xs) (auto intro: preserves_return preserves_bind)

lemmas preserves_basic = preserves_bind preserves_catch preserves_return preserves_fail preserves_get
  preserves_lift preserves_syscall preserves_if preserves_forS

subsection \<open>The interface of an invariant\<close>

locale spool_invariant =
  fixes limits :: ProbeSpoolLimits
    and I :: "spool_fs \<Rightarrow> bool"
  assumes I_faults: "I s \<Longrightarrow> I (s\<lparr>faults := f\<rparr>)"
    and I_notify: "I s \<Longrightarrow> I (s\<lparr>notify := b\<rparr>)"
    and I_del: "I s \<Longrightarrow> I (s\<lparr>pending := dir_del n (pending s)\<rparr>)"
    and I_quarantine: "preserves I (quarantinePathLocked limits n reason)"
begin

lemma I_visible: "visible I"
  by (simp add: visible_def I_faults)

lemma I_syscall: "preserves I syscall"
  by (rule preserves_syscall [OF I_visible])

lemma I_sync: "preserves I syncDirectory"
  unfolding syncDirectory_def by (intro preserves_bind I_syscall)

lemma I_del_pending: "preserves I (del_pending n)"
  unfolding del_pending_def by (rule preserves_modify) (rule I_del)

lemma I_signal: "preserves I signal"
  unfolding signal_def by (rule preserves_modify) (rule I_notify)

lemma I_ReadDir: "preserves I ReadDir_pending" "preserves I ReadDir_quarantine"
  unfolding ReadDir_pending_def ReadDir_quarantine_def by (intro preserves_bind I_syscall preserves_get)+

lemma I_remove: "preserves I (removeFileAndSync n)"
  unfolding removeFileAndSync_def
  by (intro preserves_bind I_syscall preserves_get preserves_if preserves_fail I_del_pending I_sync)

lemma I_Lstat: "preserves I (Lstat n)"
proof -
  have "preserves I (case r of None \<Rightarrow> failS NotExist | Some x \<Rightarrow> returnS x)" for r :: "node option"
    by (cases r) (simp_all add: preserves_fail preserves_return)
  then show ?thesis unfolding Lstat_def by (intro preserves_bind I_syscall preserves_get)
qed

lemma I_readEnvelope: "preserves I (readEnvelopeLocked c limits n)"
proof -
  have check: "preserves I (case r of Inl e \<Rightarrow> failS e | Inr env \<Rightarrow> returnS (env, k))"
    for r :: "spool_error + probeSpoolEnvelope" and k :: int
    by (cases r) (simp_all add: preserves_fail preserves_return)
  have "preserves I (case info of
         Regular content \<Rightarrow>
           if node_Size info > MaxItemBytes limits then failS TooLarge
           else bindS syscall (\<lambda>_. bindS syscall (\<lambda>_.
               case check_content c limits content of
                 Inl e \<Rightarrow> failS e
               | Inr envelope \<Rightarrow> returnS (envelope, node_Size info)))
       | _ \<Rightarrow> failS NotRegular)" for info
    by (cases info) (auto intro!: preserves_bind I_syscall check preserves_fail)
  then show ?thesis unfolding readEnvelopeLocked_def by (intro preserves_bind I_Lstat)
qed

lemma I_cleanup_entry: "preserves I (cleanup_entry c limits now entry)"
  unfolding cleanup_entry_def
  by (intro preserves_if I_quarantine preserves_catch I_readEnvelope)
    (auto intro: I_remove preserves_return)

lemma I_cleanup: "preserves I (cleanupPendingLocked c limits now)"
  unfolding cleanupPendingLocked_def by (intro preserves_bind I_ReadDir preserves_forS I_cleanup_entry)

lemma I_usage_loop: "preserves I (usage_loop es count used)"
  by (induction es arbitrary: count used) (auto intro: preserves_return preserves_bind I_syscall)

lemma I_usage: "preserves I pendingUsageLocked"
  unfolding pendingUsageLocked_def by (intro preserves_bind I_ReadDir I_usage_loop)

lemma I_newID: "preserves I (newIDLocked env)"
  unfolding newIDLocked_def by (intro preserves_bind I_syscall preserves_return)

lemma I_next_loop: "preserves I (next_loop c limits now es)"
proof (induction es)
  case (Cons e es)
  then show ?case
    by (auto intro!: preserves_catch I_readEnvelope preserves_bind I_quarantine I_remove preserves_return)
qed (simp add: preserves_return)

lemma I_Next: "preserves I (Next c limits now)"
  unfolding Next_def by (intro preserves_bind I_cleanup I_ReadDir I_next_loop)

lemma I_Load: "preserves I (Load c limits i)"
  unfolding Load_def
  by (intro preserves_bind preserves_lift I_readEnvelope) (auto intro: preserves_return)

lemma I_Ack: "preserves I (Ack i)"
  unfolding Ack_def by (intro preserves_bind preserves_lift I_remove)

lemma I_Quarantine: "preserves I (Quarantine limits i reason)"
  unfolding Quarantine_def by (intro preserves_bind preserves_lift I_quarantine)

end

subsection \<open>Sequences of calls\<close>

datatype spool_call =
    C_Enqueue spool_env "ProbeRound list"
  | C_Next instant
  | C_Load string
  | C_ScheduleRetry spool_env string "32 word" instant
  | C_Ack string
  | C_Quarantine string string

fun run_call :: "codec \<Rightarrow> ProbeSpoolLimits \<Rightarrow> spool_call \<Rightarrow> spool_fs \<Rightarrow> spool_fs" where
  "run_call c limits (C_Enqueue env rounds) s = snd (Enqueue c limits env rounds s)"
| "run_call c limits (C_Next now) s = snd (Next c limits now s)"
| "run_call c limits (C_Load i) s = snd (Load c limits i s)"
| "run_call c limits (C_ScheduleRetry env i attempt nextAt) s = snd (ScheduleRetry c limits env i attempt nextAt s)"
| "run_call c limits (C_Ack i) s = snd (Ack i s)"
| "run_call c limits (C_Quarantine i reason) s = snd (Quarantine limits i reason s)"

definition run_calls :: "codec \<Rightarrow> ProbeSpoolLimits \<Rightarrow> spool_call list \<Rightarrow> spool_fs \<Rightarrow> spool_fs" where
  "run_calls c limits calls s = fold (run_call c limits) calls s"

locale spool_invariant_writes = spool_invariant +
  fixes c :: codec
  assumes I_Enqueue: "preserves I (Enqueue c limits env rounds)"
    and I_ScheduleRetry: "preserves I (ScheduleRetry c limits env i attempt nextAt)"
begin

lemma I_run_call: "I s \<Longrightarrow> I (run_call c limits call s)"
  by (cases call)
    (simp_all add: preserves_result I_Enqueue I_Next I_Load I_ScheduleRetry I_Ack I_Quarantine)

lemma I_run_calls: "I s \<Longrightarrow> I (run_calls c limits calls s)"
  unfolding run_calls_def by (induction calls arbitrary: s) (simp_all add: I_run_call)

end

end
