(* ===== verification/Spool_Bounds.thy ===== *)
theory Spool_Bounds
  imports Spool_Invariants
begin

text \<open>
  The on-disk bounds of the spool: the quarantine never exceeds \<open>MaxQuarantineItems\<close> files or
  \<open>MaxQuarantineBytes\<close> bytes, the pending directory never exceeds \<open>MaxPendingItems\<close> items. Each bound is
  an interpretation of \<open>spool_invariant\<close>, hence holds after any sequence of calls with any faults.
\<close>

subsection \<open>What is counted\<close>

definition quarantine_items :: "dir \<Rightarrow> int" where
  "quarantine_items d = int (length (filter (\<lambda>p. \<not> IsDir (snd p)) d))"

definition quarantine_bytes :: "dir \<Rightarrow> int" where
  "quarantine_bytes d = (\<Sum>p\<leftarrow>filter (\<lambda>p. \<not> IsDir (snd p)) d. node_Size (snd p))"

definition pending_items :: "dir \<Rightarrow> int" where
  "pending_items d = int (length (filter is_item d))"

definition pending_bytes :: "dir \<Rightarrow> int" where
  "pending_bytes d = (\<Sum>p\<leftarrow>filter is_item d. node_Size (snd p))"

lemma count_total: "int (length (filter P d)) = sd.total (\<lambda>p. of_bool (P p)) d"
  by (induction d) (simp_all add: sd.total_def)

lemma bytes_total: "(\<Sum>p\<leftarrow>filter P d. f p) = sd.total (\<lambda>p. if P p then f p else (0::int)) d"
  by (induction d) (simp_all add: sd.total_def)

lemmas usage_totals = quarantine_items_def quarantine_bytes_def pending_items_def pending_bytes_def
  count_total bytes_total

lemma usage_del:
  assumes "dir_ok d"
  shows "quarantine_items (dir_del n d) \<le> quarantine_items d" "quarantine_bytes (dir_del n d) \<le> quarantine_bytes d"
    "pending_items (dir_del n d) \<le> pending_items d" "pending_bytes (dir_del n d) \<le> pending_bytes d"
  using assms by (simp_all add: usage_totals sd.total_del_le)

lemma quarantine_put_le:
  assumes "dir_ok d" "\<not> IsDir x"
  shows "quarantine_items (dir_put n x d) \<le> quarantine_items d + 1"
    "quarantine_bytes (dir_put n x d) \<le> quarantine_bytes d + node_Size x"
  using sd.total_put_le [OF assms(1), of "\<lambda>p. of_bool (\<not> IsDir (snd p))" n x]
    sd.total_put_le [OF assms(1), of "\<lambda>p. if \<not> IsDir (snd p) then node_Size (snd p) else 0" n x] assms(2)
  by (simp_all add: usage_totals)

lemma pending_put_le:
  assumes "dir_ok d"
  shows "pending_items (dir_put n x d) \<le> pending_items d + of_bool (is_item (n, x))"
    "pending_bytes (dir_put n x d) \<le> pending_bytes d + (if is_item (n, x) then node_Size x else 0)"
  unfolding usage_totals by (rule order.trans [OF sd.total_put_le [OF assms]]; simp)+

lemma pending_replace:
  assumes "dir_ok d" "dir_get d n = Some (Regular y)"
  shows "pending_items (dir_put n (Regular x) d) = pending_items d"
  using assms by (simp add: usage_totals sd.total_replace is_item_def)

lemma temp_not_item: "\<not> is_item (temp_name r, x)"
proof
  assume "is_item (temp_name r, x)"
  then obtain t where "temp_name r = t @ ''.json''" by (auto simp: is_item_def HasSuffix_iff)
  then have "last (temp_name r) = last ''.json''" by simp
  then show False by (simp add: temp_name_def)
qed

subsection \<open>Well-formed directories\<close>

definition wf_spool :: "spool_fs \<Rightarrow> bool" where
  "wf_spool s \<longleftrightarrow> dir_ok (pending s) \<and> dir_ok (quarantine s)"

text \<open>A predicate of the directories that only shrinks with them, or grows by one regular file.\<close>

lemma stat_entries_triple:
  "visible P \<Longrightarrow> triple P (stat_entries es)
     (\<lambda>items s. P s \<and> items = map (\<lambda>p. (fst p, node_Size (snd p))) (filter (\<lambda>p. \<not> IsDir (snd p)) es)) (\<lambda>_. P)"
proof (induction es)
  case (Cons e es)
  obtain n x where e: "e = (n, x)" by fastforce
  have "triple P (bindS syscall (\<lambda>_. bindS (stat_entries es) (\<lambda>items. returnS ((n, node_Size x) # items))))
     (\<lambda>items s. P s \<and> items = (n, node_Size x) # map (\<lambda>p. (fst p, node_Size (snd p))) (filter (\<lambda>p. \<not> IsDir (snd p)) es)) (\<lambda>_. P)"
    by (rule triple_bind [OF triple_syscall [OF Cons.prems] triple_bind [OF Cons.IH [OF Cons.prems] triple_return]]) simp
  then show ?case using Cons e by simp
qed (simp add: triple_return)

definition files_of :: "dir \<Rightarrow> (string \<times> int) list" where
  "files_of d = map (\<lambda>p. (fst p, node_Size (snd p))) (filter (\<lambda>p. \<not> IsDir (snd p)) d)"

lemma files_of_usage:
  "quarantine_items d = int (length (files_of d))" "quarantine_bytes d = (\<Sum>p\<leftarrow>files_of d. snd p)"
  by (simp_all add: quarantine_items_def quarantine_bytes_def files_of_def comp_def)

text \<open>Removing the first file of the listing leaves the rest of it.\<close>

lemma files_of_del:
  assumes "dir_ok d" "files_of d = (n, k) # items"
  shows "files_of (dir_del n d) = items"
  using assms
proof (induction d)
  case (Cons e d)
  obtain m x where e: "e = (m, x)" by fastforce
  have ok: "dir_ok d" and above: "\<forall>p\<in>set d. m < fst p"
    using Cons.prems(1) e by (auto simp: dir_ok_def)
  show ?case
  proof (cases "IsDir x")
    case True
    with Cons.prems e have "files_of d = (n, k) # items" by (simp add: files_of_def)
    then show ?thesis using Cons.IH [OF ok] True e by (auto simp: files_of_def dir_del_def)
  next
    case False
    with Cons.prems e have "m = n" "files_of d = items" by (auto simp: files_of_def)
    moreover have "dir_del n d = d"
      using above \<open>m = n\<close> by (auto simp: dir_del_def filter_id_conv)
    ultimately show ?thesis using e by (simp add: dir_del_def)
  qed
qed (simp add: files_of_def)

text \<open>
  What \<open>pruneQuarantineLocked\<close> guarantees: it only removes files, and when it returns there is room
  for the incoming file.
\<close>

definition pruned :: "dir \<Rightarrow> dir \<Rightarrow> spool_fs \<Rightarrow> bool" where
  "pruned d q s \<longleftrightarrow> pending s = d \<and> dir_ok (quarantine s) \<and>
     quarantine_items (quarantine s) \<le> quarantine_items q \<and> quarantine_bytes (quarantine s) \<le> quarantine_bytes q"

definition has_room :: "ProbeSpoolLimits \<Rightarrow> int \<Rightarrow> spool_fs \<Rightarrow> bool" where
  "has_room limits incoming s \<longleftrightarrow>
     (validateProbeSpoolLimits limits = None \<longrightarrow> incoming \<le> MaxQuarantineBytes limits \<longrightarrow>
        quarantine_items (quarantine s) + 1 \<le> MaxQuarantineItems limits \<and>
        quarantine_bytes (quarantine s) + incoming \<le> MaxQuarantineBytes limits)"

lemma visible_pruned [simp]: "visible (pruned d q)" "visible (\<lambda>s. pruned d q s \<and> has_room limits k s)"
  by (simp_all add: visible_def pruned_def has_room_def)

lemma valid_limits_pos:
  "validateProbeSpoolLimits limits = None \<Longrightarrow> 1 \<le> MaxQuarantineItems limits \<and> 0 < MaxQuarantineBytes limits"
  by (auto simp: validateProbeSpoolLimits_def split: if_splits)

lemma prune_loop_triple:
  "triple (\<lambda>s. pruned d q s \<and> files_of (quarantine s) = items \<and> used = (\<Sum>p\<leftarrow>items. snd p))
     (prune_loop limits incoming items used)
     (\<lambda>_ s. pruned d q s \<and> has_room limits incoming s) (\<lambda>_. pruned d q)"
proof (induction items arbitrary: used)
  case Nil
  show ?case
    by (auto intro!: triple_return simp: has_room_def files_of_usage dest: valid_limits_pos)
next
  case (Cons e items)
  obtain n k where e: "e = (n, k)" by fastforce
  let ?P = "\<lambda>s. pruned d q s \<and> files_of (quarantine s) = (n, k) # items \<and> used = (\<Sum>p\<leftarrow>(n, k) # items. snd p)"
  have vis: "visible ?P" by (simp add: visible_def pruned_def)
  have step: "triple ?P (bindS syscall (\<lambda>_. bindS (del_quarantine n) (\<lambda>_. prune_loop limits incoming items (used - k))))
     (\<lambda>_ s. pruned d q s \<and> has_room limits incoming s) (\<lambda>_. pruned d q)"
  proof (rule triple_bind [where R = "\<lambda>_. ?P"])
    show "triple ?P syscall (\<lambda>_. ?P) (\<lambda>_. pruned d q)"
      by (rule triple_conseq [OF triple_syscall [OF vis]]) auto
    show "triple ?P (bindS (del_quarantine n) (\<lambda>_. prune_loop limits incoming items (used - k)))
       (\<lambda>_ s. pruned d q s \<and> has_room limits incoming s) (\<lambda>_. pruned d q)" for x :: unit
    proof (rule triple_bind [OF _ Cons.IH])
      show "triple ?P (del_quarantine n)
         (\<lambda>_ s. pruned d q s \<and> files_of (quarantine s) = items \<and> used - k = (\<Sum>p\<leftarrow>items. snd p)) (\<lambda>_. pruned d q)"
        unfolding del_quarantine_def
        by (rule triple_modify)
          (auto simp: pruned_def files_of_del intro: order.trans [OF usage_del(1)] order.trans [OF usage_del(2)])
    qed
  qed
  show ?case
  proof (cases "int (length items) + 1 + 1 > MaxQuarantineItems limits \<or> used + incoming > MaxQuarantineBytes limits")
    case True
    then show ?thesis using step e by simp
  next
    case False
    then show ?thesis using e by (auto intro!: triple_return simp: has_room_def files_of_usage)
  qed
qed

lemma prune_triple:
  assumes "dir_ok q"
  shows "triple (\<lambda>s. pending s = d \<and> quarantine s = q) (pruneQuarantineLocked limits incoming)
     (\<lambda>_ s. pruned d q s \<and> has_room limits incoming s) (\<lambda>_. pruned d q)"
proof -
  let ?P = "\<lambda>s. pending s = d \<and> quarantine s = q"
  have vis: "visible ?P" by (simp add: visible_def)
  have P: "?P s \<Longrightarrow> pruned d q s" for s using assms by (simp add: pruned_def)
  have dir: "triple ?P ReadDir_quarantine (\<lambda>es s. ?P s \<and> es = q) (\<lambda>_. pruned d q)"
    unfolding ReadDir_quarantine_def
    by (rule triple_bind [where R = "\<lambda>_. ?P"], rule triple_conseq [OF triple_syscall [OF vis]])
      (use assms in \<open>auto intro: triple_get simp: pruned_def\<close>)
  have stat: "triple (\<lambda>s. ?P s \<and> es = q) (stat_entries es)
      (\<lambda>items s. pruned d q s \<and> files_of (quarantine s) = items) (\<lambda>_. pruned d q)" for es
    by (rule triple_conseq [OF stat_entries_triple [of "\<lambda>s. ?P s \<and> es = q"]])
      (auto simp: visible_def files_of_def P)
  have loop: "triple (\<lambda>s. pruned d q s \<and> files_of (quarantine s) = items)
      (prune_loop limits incoming items (\<Sum>p\<leftarrow>items. snd p))
      (\<lambda>_ s. pruned d q s \<and> has_room limits incoming s) (\<lambda>_. pruned d q)" for items
    by (rule triple_conseq [OF prune_loop_triple]) auto
  have sync: "triple (\<lambda>s. pruned d q s \<and> has_room limits incoming s) syncDirectory
      (\<lambda>_ s. pruned d q s \<and> has_room limits incoming s) (\<lambda>_. pruned d q)"
    by (rule triple_conseq [OF triple_sync [OF visible_pruned(2)]]) auto
  show ?thesis
    unfolding pruneQuarantineLocked_def
    by (rule triple_bind [OF dir triple_bind [OF stat triple_bind [OF loop sync]]])
qed

subsection \<open>The quarantine\<close>

definition quarantine_bounded :: "ProbeSpoolLimits \<Rightarrow> spool_fs \<Rightarrow> bool" where
  "quarantine_bounded limits s \<longleftrightarrow> wf_spool s \<and>
     (validateProbeSpoolLimits limits = None \<longrightarrow>
        quarantine_items (quarantine s) \<le> MaxQuarantineItems limits \<and>
        quarantine_bytes (quarantine s) \<le> MaxQuarantineBytes limits)"

lemma visible_quarantine_bounded: "visible (quarantine_bounded limits)"
  by (simp add: visible_def quarantine_bounded_def wf_spool_def)

text \<open>
  Whatever \<open>quarantinePathLocked\<close> does, it may only remove the entry from pending, and it keeps the
  bounds; the statement is for a fixed pending directory so that the item bound can use it too.
\<close>

definition quarantine_step :: "ProbeSpoolLimits \<Rightarrow> dir \<Rightarrow> string \<Rightarrow> spool_fs \<Rightarrow> bool" where
  "quarantine_step limits d n s \<longleftrightarrow>
     (pending s = d \<or> pending s = dir_del n d) \<and> quarantine_bounded limits s"

lemma visible_quarantine_step [simp]: "visible (quarantine_step limits d n)"
  by (simp add: visible_def quarantine_step_def quarantine_bounded_def wf_spool_def)

lemma pruned_step:
  "dir_ok d \<Longrightarrow> quarantine_bounded limits s0 \<Longrightarrow> pruned d (quarantine s0) s \<Longrightarrow> quarantine_step limits d n s"
  by (auto simp: pruned_def quarantine_step_def quarantine_bounded_def wf_spool_def)

lemma rename_triple:
  assumes "dir_ok d" "quarantine_bounded limits s0" "node_Size (Regular content) \<le> MaxQuarantineBytes limits"
  shows "triple (\<lambda>s. pruned d (quarantine s0) s \<and> has_room limits (node_Size (Regular content)) s)
     (rename_to_quarantine n dest (Regular content))
     (\<lambda>_. quarantine_step limits d n) (\<lambda>_. quarantine_step limits d n)"
proof -
  let ?P = "\<lambda>s. pruned d (quarantine s0) s \<and> has_room limits (node_Size (Regular content)) s"
  have move: "quarantine_step limits d n (s\<lparr>pending := dir_del n (pending s),
      quarantine := dir_put dest (Regular content) (quarantine s)\<rparr>)" if "?P s" for s
    using that assms quarantine_put_le [of "quarantine s" "Regular content" dest]
    by (auto simp: pruned_def has_room_def quarantine_step_def quarantine_bounded_def wf_spool_def)
  have "triple ?P (case r of Some (Directory e) \<Rightarrow> failS IOError
     | _ \<Rightarrow> modifyS (\<lambda>s. s\<lparr>pending := dir_del n (pending s),
                quarantine := dir_put dest (Regular content) (quarantine s)\<rparr>))
     (\<lambda>_. quarantine_step limits d n) (\<lambda>_. quarantine_step limits d n)" for r
  proof -
    have "triple ?P (modifyS (\<lambda>s. s\<lparr>pending := dir_del n (pending s),
                quarantine := dir_put dest (Regular content) (quarantine s)\<rparr>))
       (\<lambda>_. quarantine_step limits d n) (\<lambda>_. quarantine_step limits d n)"
      by (rule triple_modify) (rule move)
    moreover have "triple ?P (failS IOError) (\<lambda>_. quarantine_step limits d n) (\<lambda>_. quarantine_step limits d n)"
      by (rule triple_fail) (use assms pruned_step in blast)
    ultimately show ?thesis by (auto split: option.split node.split)
  qed
  note tail = this
  have call: "triple ?P syscall (\<lambda>_. ?P) (\<lambda>_. quarantine_step limits d n)"
    by (rule triple_conseq [OF triple_syscall [OF visible_pruned(2)]]) (use assms pruned_step in blast)+
  have look: "triple ?P (getS (\<lambda>s. dir_get (quarantine s) dest)) (\<lambda>_. ?P) (\<lambda>_. quarantine_step limits d n)"
    by (rule triple_get)
  show ?thesis
    unfolding rename_to_quarantine_def by (rule triple_bind [OF call triple_bind [OF look tail]])
qed

lemma quarantine_step_sync:
  "triple (quarantine_step limits d n) syncDirectory (\<lambda>_. quarantine_step limits d n) (\<lambda>_. quarantine_step limits d n)"
  "triple (quarantine_step limits d n) syscall (\<lambda>_. quarantine_step limits d n) (\<lambda>_. quarantine_step limits d n)"
  by (simp_all add: triple_sync triple_syscall)

lemma quarantine_step_del:
  assumes "quarantine_step limits d n s" "pending s = d"
  shows "quarantine_step limits d n (s\<lparr>pending := dir_del n (pending s)\<rparr>)"
  using assms by (auto simp: quarantine_step_def quarantine_bounded_def wf_spool_def)

lemma quarantinePath_triple:
  assumes s0: "quarantine_bounded limits s0" and d: "pending s0 = d"
  shows "triple (\<lambda>s. pending s = d \<and> quarantine s = quarantine s0) (quarantinePathLocked limits n reason)
     (\<lambda>_. quarantine_step limits d n) (\<lambda>_. quarantine_step limits d n)"
proof -
  let ?P = "\<lambda>s. pending s = d \<and> quarantine s = quarantine s0" and ?S = "quarantine_step limits d n"
  have ok: "dir_ok d" "dir_ok (quarantine s0)" using s0 d by (simp_all add: quarantine_bounded_def wf_spool_def)
  have vis: "visible ?P" by (simp add: visible_def)
  have PS: "?P s \<Longrightarrow> ?S s" for s using s0 d by (simp add: quarantine_step_def quarantine_bounded_def wf_spool_def)
  have call: "triple ?P syscall (\<lambda>_. ?P) (\<lambda>_. ?P)" by (rule triple_syscall [OF vis])
  have lstat: "triple ?P (Lstat n) (\<lambda>_. ?P) (\<lambda>_. ?P)"
    unfolding Lstat_def
    by (rule triple_bind [OF call triple_bind [where R = "\<lambda>_. ?P", OF triple_get]])
      (auto intro: triple_fail triple_return split: option.split)
  have del: "triple ?P (del_pending n) (\<lambda>_. ?S) (\<lambda>_. ?S)"
    unfolding del_pending_def by (rule triple_modify) (use PS quarantine_step_del in blast)
  have callS: "triple ?P syscall (\<lambda>_. ?P) (\<lambda>_. ?S)"
    by (rule triple_conseq [OF call]) (use PS in auto)
  have remove: "triple ?P (removeFileAndSync n) (\<lambda>_. ?S) (\<lambda>_. ?S)"
    unfolding removeFileAndSync_def
    by (rule triple_bind [OF callS triple_bind [where R = "\<lambda>_. ?P", OF triple_get]])
      (auto intro!: triple_fail PS triple_bind [OF del quarantine_step_sync(1)])
  have remove_all: "triple ?P (bindS syscall (\<lambda>_. bindS (del_pending n) (\<lambda>_. syncDirectory))) (\<lambda>_. ?S) (\<lambda>_. ?S)"
    by (rule triple_bind [OF callS triple_bind [OF del quarantine_step_sync(1)]])
  have prune: "triple ?P (pruneQuarantineLocked limits k)
      (\<lambda>_ s. pruned d (quarantine s0) s \<and> has_room limits k s) (\<lambda>_. ?S)" for k
    by (rule triple_conseq [OF prune_triple [OF ok(2), of d limits k]]) (use pruned_step [OF ok(1) s0] in auto)
  have regular: "triple ?P (bindS (pruneQuarantineLocked limits (node_Size (Regular content))) (\<lambda>_.
        bindS (rename_to_quarantine n dest (Regular content)) (\<lambda>_.
        bindS syscall (\<lambda>_. bindS syncDirectory (\<lambda>_. syncDirectory))))) (\<lambda>_. ?S) (\<lambda>_. ?S)"
    if "node_Size (Regular content) \<le> MaxQuarantineBytes limits" for content dest
    by (rule triple_bind [OF prune triple_bind [OF rename_triple [OF ok(1) s0 that]
          triple_bind [OF quarantine_step_sync(2) triple_bind [OF quarantine_step_sync(1) quarantine_step_sync(1)]]]])
  show ?thesis
    unfolding quarantinePathLocked_def
  proof (rule triple_catch [OF lstat])
    show "triple ?P (if e = NotExist then returnS () else failS e) (\<lambda>_. ?S) (\<lambda>_. ?S)" for e
      using PS by (cases "e = NotExist") (simp_all add: triple_return triple_fail)
    show "triple ?P (case info of
         Regular content \<Rightarrow>
           if node_Size info > MaxQuarantineBytes limits then removeFileAndSync n
           else bindS (pruneQuarantineLocked limits (node_Size info)) (\<lambda>_.
             bindS (rename_to_quarantine n (n @ ''.'' @ sanitize_reason reason) info) (\<lambda>_.
             bindS syscall (\<lambda>_. bindS syncDirectory (\<lambda>_. syncDirectory))))
       | _ \<Rightarrow> bindS syscall (\<lambda>_. bindS (del_pending n) (\<lambda>_. syncDirectory))) (\<lambda>_. ?S) (\<lambda>_. ?S)" for info
      using remove remove_all regular by (cases info) auto
  qed
qed

lemma quarantinePath_step:
  assumes "quarantine_bounded limits s"
  shows "quarantine_step limits (pending s) n (snd (quarantinePathLocked limits n reason s))"
proof -
  obtain r t where "quarantinePathLocked limits n reason s = (r, t)" by fastforce
  then show ?thesis
    using triple_result [OF quarantinePath_triple [OF assms refl], of s n reason r t] by auto
qed

lemma wf_atomicWrite:
  assumes "wf_spool s" and r: "atomicWritePrivateFile random name content s = (r, t)"
  shows "quarantine t = quarantine s"
    "pending t = pending s \<or> (\<exists>y. pending t = dir_put (temp_name random) (Regular y) (pending s)) \<or>
     pending t = dir_put name (Regular content) (pending s)"
proof -
  have ok: "dir_ok (pending s)" using assms(1) by (simp add: wf_spool_def)
  have at: "at_dir (pending s) (quarantine s) (notify s) s" by (simp add: at_dir_def)
  show "quarantine t = quarantine s"
    using triple_result [OF triple_atomicWrite [OF ok] at r]
    by (auto simp: at_dir_def write_failed_def with_temp_def)
  show "pending t = pending s \<or> (\<exists>y. pending t = dir_put (temp_name random) (Regular y) (pending s)) \<or>
     pending t = dir_put name (Regular content) (pending s)"
    using triple_result [OF triple_atomicWrite [OF ok] at r]
    by (auto simp: at_dir_def write_failed_def with_temp_def)
qed

lemma wf_atomicWrite_wf:
  "wf_spool s \<Longrightarrow> atomicWritePrivateFile random name content s = (r, t) \<Longrightarrow> wf_spool t"
  using wf_atomicWrite [of s random name content r t] by (auto simp: wf_spool_def)

interpretation qb: spool_invariant limits "quarantine_bounded limits" for limits
proof unfold_locales
  show "preserves (quarantine_bounded limits) (quarantinePathLocked limits n reason)" for n reason
    by (rule preservesI) (use quarantinePath_step in \<open>auto simp: quarantine_step_def\<close>)
qed (auto simp: quarantine_bounded_def wf_spool_def)

lemma qb_atomicWrite: "preserves (quarantine_bounded limits) (atomicWritePrivateFile random name content)"
proof (rule preservesI)
  fix s assume s: "quarantine_bounded limits s"
  obtain r t where rt: "atomicWritePrivateFile random name content s = (r, t)" by fastforce
  with s show "quarantine_bounded limits (snd (atomicWritePrivateFile random name content s))"
    using wf_atomicWrite(1) [OF _ rt] wf_atomicWrite_wf [OF _ rt] by (simp add: quarantine_bounded_def)
qed

lemma qb_Enqueue: "preserves (quarantine_bounded limits) (Enqueue c limits env rounds)"
  unfolding Enqueue_def Let_def
  by (cases "marshalProbeResults c rounds")
    (auto intro!: preserves_basic qb.I_cleanup qb.I_usage qb.I_syscall qb.I_newID qb_atomicWrite qb.I_signal
      visible_quarantine_bounded split: prod.split)

lemma qb_ScheduleRetry: "preserves (quarantine_bounded limits) (ScheduleRetry c limits env i attempt nextAt)"
  unfolding ScheduleRetry_def Let_def
  by (auto intro!: preserves_basic qb.I_readEnvelope qb_atomicWrite qb.I_signal
      visible_quarantine_bounded split: prod.split)

interpretation qbw: spool_invariant_writes limits "quarantine_bounded limits" c for limits c
  by unfold_locales (rule qb_Enqueue qb_ScheduleRetry)+

subsection \<open>The pending directory\<close>

definition pending_bounded :: "ProbeSpoolLimits \<Rightarrow> spool_fs \<Rightarrow> bool" where
  "pending_bounded limits s \<longleftrightarrow>
     quarantine_bounded limits s \<and> pending_items (pending s) \<le> MaxPendingItems limits"

definition bytes_bounded :: "ProbeSpoolLimits \<Rightarrow> spool_fs \<Rightarrow> bool" where
  "bytes_bounded limits s \<longleftrightarrow>
     quarantine_bounded limits s \<and> pending_bytes (pending s) \<le> MaxPendingBytes limits"

lemma qb_del: "quarantine_bounded limits s \<Longrightarrow> quarantine_bounded limits (s\<lparr>pending := dir_del n (pending s)\<rparr>)"
  by (rule qb.I_del)

lemma qb_wf: "quarantine_bounded limits s \<Longrightarrow> dir_ok (pending s)"
  by (simp add: quarantine_bounded_def wf_spool_def)

lemma quarantinePath_usage:
  assumes "quarantine_bounded limits s"
  shows "pending_items (pending (snd (quarantinePathLocked limits n reason s))) \<le> pending_items (pending s)"
    "pending_bytes (pending (snd (quarantinePathLocked limits n reason s))) \<le> pending_bytes (pending s)"
  using quarantinePath_step [OF assms, of n reason] usage_del(3,4) [OF qb_wf [OF assms], of n]
  by (auto simp: quarantine_step_def)

interpretation pb: spool_invariant limits "pending_bounded limits" for limits
proof unfold_locales
  show "preserves (pending_bounded limits) (quarantinePathLocked limits n reason)" for n reason
    by (rule preservesI)
      (auto simp: pending_bounded_def preserves_result [OF qb.I_quarantine]
        intro: order.trans [OF quarantinePath_usage(1)])
  show "pending_bounded limits (s\<lparr>pending := dir_del n (pending s)\<rparr>)" if "pending_bounded limits s" for s n
    using that qb_del usage_del(3) [OF qb_wf, of limits s n] by (auto simp: pending_bounded_def)
qed (simp_all add: pending_bounded_def qb.I_faults qb.I_notify)

interpretation bb: spool_invariant limits "bytes_bounded limits" for limits
proof unfold_locales
  show "preserves (bytes_bounded limits) (quarantinePathLocked limits n reason)" for n reason
    by (rule preservesI)
      (auto simp: bytes_bounded_def preserves_result [OF qb.I_quarantine]
        intro: order.trans [OF quarantinePath_usage(2)])
  show "bytes_bounded limits (s\<lparr>pending := dir_del n (pending s)\<rparr>)" if "bytes_bounded limits s" for s n
    using that qb_del usage_del(4) [OF qb_wf, of limits s n] by (auto simp: bytes_bounded_def)
qed (simp_all add: bytes_bounded_def qb.I_faults qb.I_notify)

text \<open>\<open>pendingUsageLocked\<close> returns the usage of the directory it listed.\<close>

lemma usage_loop_triple:
  "visible P \<Longrightarrow> triple P (usage_loop es count used)
     (\<lambda>r s. P s \<and> r = (count + pending_items es, used + pending_bytes es)) (\<lambda>_. P)"
proof (induction es arbitrary: count used)
  case (Cons e es)
  then show ?case
    by (auto simp: pending_items_def pending_bytes_def
        intro!: triple_bind [OF triple_syscall] triple_conseq [OF Cons.IH])
qed (simp add: triple_return pending_items_def pending_bytes_def)

lemma usage_triple:
  assumes vis: "visible P"
  shows "triple P pendingUsageLocked
     (\<lambda>r s. P s \<and> r = (pending_items (pending s), pending_bytes (pending s))) (\<lambda>_. P)"
proof -
  have dir: "triple P ReadDir_pending (\<lambda>es s. P s \<and> pending s = es) (\<lambda>_. P)"
    unfolding ReadDir_pending_def by (rule triple_bind [OF triple_syscall [OF vis] triple_get]) simp
  have vis': "visible (\<lambda>s. P s \<and> pending s = es)" for es using vis by (simp add: visible_def)
  have loop: "triple (\<lambda>s. P s \<and> pending s = es) (usage_loop es 0 0)
     (\<lambda>r s. P s \<and> r = (pending_items (pending s), pending_bytes (pending s))) (\<lambda>_. P)" for es
    by (rule triple_conseq [OF usage_loop_triple [OF vis']]) auto
  show ?thesis unfolding pendingUsageLocked_def by (rule triple_bind [OF dir loop])
qed

lemma triple_prod:
  "(\<And>a b. triple (R (a, b)) (k a b) Q E) \<Longrightarrow> triple (R x) (case x of (a, b) \<Rightarrow> k a b) Q E"
  by (cases x) simp

text \<open>The part of \<open>Enqueue\<close> after the capacity check, for any predicate the write takes from \<open>P\<close> to \<open>I\<close>.\<close>

lemma enqueue_tail_triple:
  assumes vis: "visible P" and PI: "\<And>s. P s \<Longrightarrow> I s" and ntf: "\<And>s. I s \<Longrightarrow> I (s\<lparr>notify := True\<rparr>)"
    and vI: "visible I"
    and wr: "\<And>name. HasSuffix name ''.json'' \<Longrightarrow>
      triple P (atomicWritePrivateFile (env_tmp env) name encoded) (\<lambda>_. I) (\<lambda>_. I)"
  shows "triple P (bindS syscall (\<lambda>_.
       if env_free env < MinFreeBytes limits + of_nat (length encoded) then failS NoFreeSpace
       else bindS (newIDLocked env) (\<lambda>ident.
         bindS (atomicWritePrivateFile (env_tmp env) (ident @ ''.json'') encoded) (\<lambda>_.
         bindS signal (\<lambda>_. returnS ident))))) (\<lambda>_. I) (\<lambda>_. I)"
proof -
  have call: "triple P syscall (\<lambda>_. P) (\<lambda>_. I)"
    by (rule triple_conseq [OF triple_syscall [OF vis]]) (auto intro: PI)
  have fresh: "triple P (newIDLocked env) (\<lambda>_. P) (\<lambda>_. I)"
    unfolding newIDLocked_def by (rule triple_bind [OF call triple_return])
  have sig: "triple I (bindS signal (\<lambda>_. returnS ident)) (\<lambda>_. I) (\<lambda>_. I)" for ident :: string
    unfolding signal_def
    by (rule triple_bind [where R = "\<lambda>_. I"], rule triple_modify, erule ntf, rule triple_return)
  have rest: "triple P (bindS (newIDLocked env) (\<lambda>ident.
         bindS (atomicWritePrivateFile (env_tmp env) (ident @ ''.json'') encoded) (\<lambda>_.
         bindS signal (\<lambda>_. returnS ident)))) (\<lambda>_. I) (\<lambda>_. I)"
    by (rule triple_bind [OF fresh triple_bind [OF wr sig]]) simp
  show ?thesis
    by (rule triple_bind [OF call triple_if [OF triple_fail rest]]) (rule PI)
qed

lemma enqueue_triple:
  assumes vI: "visible I" and ntf: "\<And>s. I s \<Longrightarrow> I (s\<lparr>notify := True\<rparr>)"
    and cleanup: "preserves I (cleanupPendingLocked c limits (env_now env))"
    and wr: "\<And>name content. HasSuffix name ''.json'' \<Longrightarrow> int (length content) \<le> MaxItemBytes limits \<Longrightarrow>
      triple (\<lambda>s. I s \<and> pending_items (pending s) < MaxPendingItems limits \<and>
                  pending_bytes (pending s) + int (length content) \<le> MaxPendingBytes limits)
        (atomicWritePrivateFile (env_tmp env) name content) (\<lambda>_. I) (\<lambda>_. I)"
  shows "preserves I (Enqueue c limits env rounds)"
proof (cases "marshalProbeResults c rounds")
  case (Inl e)
  then show ?thesis by (simp add: Enqueue_def preserves_fail)
next
  case (Inr body)
  let ?x = "enc c (new_envelope c (env_now env) body)"
  let ?P = "\<lambda>s. I s \<and> pending_items (pending s) < MaxPendingItems limits \<and>
    pending_bytes (pending s) + int (length ?x) \<le> MaxPendingBytes limits"
  have visP: "visible ?P" using vI by (simp add: visible_def)
  have usage: "triple I pendingUsageLocked
     (\<lambda>r s. I s \<and> r = (pending_items (pending s), pending_bytes (pending s))) (\<lambda>_. I)"
    by (rule usage_triple [OF vI])
  have tail: "triple (\<lambda>s. I s \<and> (count, used) = (pending_items (pending s), pending_bytes (pending s)))
     (if count \<ge> MaxPendingItems limits \<or> used + int (length ?x) > MaxPendingBytes limits
      then failS (CapacityExceeded count used)
      else bindS syscall (\<lambda>_.
        if env_free env < MinFreeBytes limits + of_nat (length ?x) then failS NoFreeSpace
        else bindS (newIDLocked env) (\<lambda>ident.
          bindS (atomicWritePrivateFile (env_tmp env) (ident @ ''.json'') ?x) (\<lambda>_.
          bindS signal (\<lambda>_. returnS ident))))) (\<lambda>_. I) (\<lambda>_. I)"
    if "int (length ?x) \<le> MaxItemBytes limits" for count used
  proof (cases "count \<ge> MaxPendingItems limits \<or> used + int (length ?x) > MaxPendingBytes limits")
    case True
    then show ?thesis by (auto intro: triple_fail)
  next
    case False
    have "triple ?P (bindS syscall (\<lambda>_.
        if env_free env < MinFreeBytes limits + of_nat (length ?x) then failS NoFreeSpace
        else bindS (newIDLocked env) (\<lambda>ident.
          bindS (atomicWritePrivateFile (env_tmp env) (ident @ ''.json'') ?x) (\<lambda>_.
          bindS signal (\<lambda>_. returnS ident))))) (\<lambda>_. I) (\<lambda>_. I)"
      by (rule enqueue_tail_triple [OF visP _ ntf vI wr [OF _ that]]) auto
    then show ?thesis using False by (simp add: triple_conseq)
  qed
  have body: "triple I (if int (length ?x) > MaxItemBytes limits then failS TooLarge
     else bindS pendingUsageLocked (\<lambda>(count, used).
       if count \<ge> MaxPendingItems limits \<or> used + int (length ?x) > MaxPendingBytes limits
       then failS (CapacityExceeded count used)
       else bindS syscall (\<lambda>_.
        if env_free env < MinFreeBytes limits + of_nat (length ?x) then failS NoFreeSpace
        else bindS (newIDLocked env) (\<lambda>ident.
          bindS (atomicWritePrivateFile (env_tmp env) (ident @ ''.json'') ?x) (\<lambda>_.
          bindS signal (\<lambda>_. returnS ident)))))) (\<lambda>_. I) (\<lambda>_. I)"
    by (rule triple_if, rule triple_fail, assumption, rule triple_bind [OF usage],
        rule triple_prod, rule tail, simp)
  show ?thesis
    unfolding Enqueue_def Inr Let_def sum.case preserves_def
    by (rule triple_bind [OF cleanup [unfolded preserves_def] body])
qed

subsection \<open>Enqueue and ScheduleRetry\<close>

text \<open>A successful read found a regular file whose content passes every check.\<close>

definition reads_as :: "codec \<Rightarrow> ProbeSpoolLimits \<Rightarrow> string \<Rightarrow> probeSpoolEnvelope \<times> int \<Rightarrow> spool_fs \<Rightarrow> bool" where
  "reads_as c limits name r s \<longleftrightarrow>
     (\<exists>y. dir_get (pending s) name = Some (Regular y) \<and> check_content c limits y = Inr (fst r))"

lemma readEnvelope_triple:
  assumes vis: "visible P"
  shows "triple P (readEnvelopeLocked c limits name) (\<lambda>r s. P s \<and> reads_as c limits name r s) (\<lambda>_. P)"
proof -
  let ?F = "\<lambda>x s. P s \<and> dir_get (pending s) name = Some x"
  have visF: "visible (?F x)" for x using vis by (simp add: visible_def)
  have get: "triple P (getS (\<lambda>s. dir_get (pending s) name)) (\<lambda>r s. P s \<and> dir_get (pending s) name = r) (\<lambda>_. P)"
    by (rule triple_get) simp
  have lstat: "triple P (Lstat name) ?F (\<lambda>_. P)"
    unfolding Lstat_def
    by (rule triple_bind [OF triple_syscall [OF vis] triple_bind [OF get]])
      (auto intro: triple_fail triple_return split: option.split)
  have call: "triple (?F x) syscall (\<lambda>_. ?F x) (\<lambda>_. P)" for x
    by (rule triple_conseq [OF triple_syscall [OF visF]]) auto
  have check: "triple (?F (Regular y))
     (case check_content c limits y of Inl e \<Rightarrow> failS e | Inr envelope \<Rightarrow> returnS (envelope, k))
     (\<lambda>r s. P s \<and> reads_as c limits name r s) (\<lambda>_. P)" for y k
    by (cases "check_content c limits y") (auto intro!: triple_fail triple_return simp: reads_as_def)
  have regular: "triple (?F (Regular y)) (bindS syscall (\<lambda>_. bindS syscall (\<lambda>_.
     case check_content c limits y of Inl e \<Rightarrow> failS e | Inr envelope \<Rightarrow> returnS (envelope, k))))
     (\<lambda>r s. P s \<and> reads_as c limits name r s) (\<lambda>_. P)" for y k
    by (rule triple_bind [OF call triple_bind [OF call check]])
  show ?thesis
    unfolding readEnvelopeLocked_def
  proof (rule triple_bind [OF lstat])
    show "triple (?F info) (case info of
         Regular content \<Rightarrow>
           if node_Size info > MaxItemBytes limits then failS TooLarge
           else bindS syscall (\<lambda>_. bindS syscall (\<lambda>_.
               case check_content c limits content of
                 Inl e \<Rightarrow> failS e | Inr envelope \<Rightarrow> returnS (envelope, node_Size info)))
       | _ \<Rightarrow> failS NotRegular) (\<lambda>r s. P s \<and> reads_as c limits name r s) (\<lambda>_. P)" for info
      using regular by (cases info) (auto intro: triple_fail)
  qed
qed

text \<open>\<open>ScheduleRetry\<close> writes over the file it has read.\<close>

lemma retry_triple:
  assumes vI: "visible I" and ntf: "\<And>s. I s \<Longrightarrow> I (s\<lparr>notify := True\<rparr>)"
    and wr: "\<And>name envelope content. int (length content) \<le> MaxItemBytes limits \<Longrightarrow>
      content = enc c (fst envelope\<lparr>Attempt := attempt, NextAt := UnixNano nextAt\<rparr>) \<Longrightarrow>
      triple (\<lambda>s. I s \<and> reads_as c limits name envelope s)
        (atomicWritePrivateFile (env_tmp env) name content) (\<lambda>_. I) (\<lambda>_. I)"
  shows "preserves I (ScheduleRetry c limits env ident attempt nextAt)"
proof -
  have sig: "triple I signal (\<lambda>_. I) (\<lambda>_. I)"
    unfolding signal_def by (rule triple_modify) (erule ntf)
  have lift: "triple I (liftS r) (\<lambda>_. I) (\<lambda>_. I)" for r :: "spool_error + string"
    by (rule triple_lift) auto
  have tail: "triple (\<lambda>s. I s \<and> reads_as c limits name (envelope, k) s)
      (if nextAt = zero_time then failS RetryTimeRequired
       else if int (length (enc c (envelope\<lparr>Attempt := attempt, NextAt := UnixNano nextAt\<rparr>))) > MaxItemBytes limits
         then failS TooLarge
       else bindS (atomicWritePrivateFile (env_tmp env) name
           (enc c (envelope\<lparr>Attempt := attempt, NextAt := UnixNano nextAt\<rparr>))) (\<lambda>_. signal))
      (\<lambda>_. I) (\<lambda>_. I)" for name envelope k
    by (rule triple_if, rule triple_fail, erule conjunct1, rule triple_if, rule triple_fail, erule conjunct1,
        rule triple_bind [OF wr sig]) simp_all
  show ?thesis
    unfolding ScheduleRetry_def Let_def preserves_def
    by (rule triple_bind [OF lift triple_bind [OF readEnvelope_triple [OF vI]]], rule triple_prod, rule tail)
qed

lemma atomicWrite_triple_I:
  assumes wf: "\<And>s. P s \<Longrightarrow> wf_spool s"
    and same: "\<And>s t. P s \<Longrightarrow> quarantine t = quarantine s \<Longrightarrow>
      pending t = pending s \<or> (\<exists>y. pending t = dir_put (temp_name random) (Regular y) (pending s)) \<or>
      pending t = dir_put name (Regular content) (pending s) \<Longrightarrow> I t"
  shows "triple P (atomicWritePrivateFile random name content) (\<lambda>_. I) (\<lambda>_. I)"
  unfolding triple_def using wf_atomicWrite [OF wf] same by metis

lemma pending_bounded_put:
  assumes "pending_bounded limits s" "quarantine t = quarantine s" "\<not> is_item (n, Regular x)"
    "pending t = dir_put n (Regular x) (pending s)"
  shows "pending_bounded limits t"
  using assms pending_put_le(1) [OF qb_wf, of limits s n "Regular x"]
  by (auto simp: pending_bounded_def quarantine_bounded_def wf_spool_def)

lemma bytes_bounded_put:
  assumes "bytes_bounded limits s" "quarantine t = quarantine s" "\<not> is_item (n, Regular x)"
    "pending t = dir_put n (Regular x) (pending s)"
  shows "bytes_bounded limits t"
  using assms pending_put_le(2) [OF qb_wf, of limits s n "Regular x"]
  by (auto simp: bytes_bounded_def quarantine_bounded_def wf_spool_def)

lemma pending_bounded_same:
  "pending_bounded limits s \<Longrightarrow> quarantine t = quarantine s \<Longrightarrow> pending t = pending s \<Longrightarrow> pending_bounded limits t"
  "bytes_bounded limits s \<Longrightarrow> quarantine t = quarantine s \<Longrightarrow> pending t = pending s \<Longrightarrow> bytes_bounded limits t"
  by (simp_all add: pending_bounded_def bytes_bounded_def quarantine_bounded_def wf_spool_def)

lemma pb_Enqueue: "preserves (pending_bounded limits) (Enqueue c limits env rounds)"
proof (rule enqueue_triple [OF pb.I_visible pb.I_notify pb.I_cleanup])
  fix name content :: string
  show "triple (\<lambda>s. pending_bounded limits s \<and> pending_items (pending s) < MaxPendingItems limits \<and>
                  pending_bytes (pending s) + int (length content) \<le> MaxPendingBytes limits)
        (atomicWritePrivateFile (env_tmp env) name content) (\<lambda>_. pending_bounded limits) (\<lambda>_. pending_bounded limits)"
  proof (rule atomicWrite_triple_I, goal_cases)
    case (2 s t)
    then have ok: "dir_ok (pending s)" by (simp add: pending_bounded_def quarantine_bounded_def wf_spool_def)
    from 2(3) consider "pending t = pending s" | y where "pending t = dir_put (temp_name (env_tmp env)) (Regular y) (pending s)"
      | "pending t = dir_put name (Regular content) (pending s)" by blast
    then show ?case
    proof cases
      case 3
      then show ?thesis
        using 2(1,2) pending_put_le(1) [OF ok, of name "Regular content"]
        by (auto simp: pending_bounded_def quarantine_bounded_def wf_spool_def of_bool_def split: if_splits)
    qed (use 2 pending_bounded_same pending_bounded_put temp_not_item in blast)+
  qed (simp add: pending_bounded_def quarantine_bounded_def)
qed

lemma bb_Enqueue: "preserves (bytes_bounded limits) (Enqueue c limits env rounds)"
proof (rule enqueue_triple [OF bb.I_visible bb.I_notify bb.I_cleanup])
  fix name content :: string
  show "triple (\<lambda>s. bytes_bounded limits s \<and> pending_items (pending s) < MaxPendingItems limits \<and>
                  pending_bytes (pending s) + int (length content) \<le> MaxPendingBytes limits)
        (atomicWritePrivateFile (env_tmp env) name content) (\<lambda>_. bytes_bounded limits) (\<lambda>_. bytes_bounded limits)"
  proof (rule atomicWrite_triple_I, goal_cases)
    case (2 s t)
    then have ok: "dir_ok (pending s)" by (simp add: bytes_bounded_def quarantine_bounded_def wf_spool_def)
    from 2(3) consider "pending t = pending s" | y where "pending t = dir_put (temp_name (env_tmp env)) (Regular y) (pending s)"
      | "pending t = dir_put name (Regular content) (pending s)" by blast
    then show ?case
    proof cases
      case 3
      then show ?thesis
        using 2(1,2) pending_put_le(2) [OF ok, of name "Regular content"]
        by (auto simp: bytes_bounded_def quarantine_bounded_def wf_spool_def split: if_splits)
    qed (use 2 pending_bounded_same bytes_bounded_put temp_not_item in blast)+
  qed (simp add: bytes_bounded_def quarantine_bounded_def)
qed

lemma pb_ScheduleRetry: "preserves (pending_bounded limits) (ScheduleRetry c limits env ident attempt nextAt)"
proof (rule retry_triple [OF pb.I_visible pb.I_notify])
  fix name content :: string and envelope :: "probeSpoolEnvelope \<times> int"
  show "triple (\<lambda>s. pending_bounded limits s \<and> reads_as c limits name envelope s)
        (atomicWritePrivateFile (env_tmp env) name content) (\<lambda>_. pending_bounded limits) (\<lambda>_. pending_bounded limits)"
  proof (rule atomicWrite_triple_I, goal_cases)
    case (2 s t)
    then have ok: "dir_ok (pending s)" by (simp add: pending_bounded_def quarantine_bounded_def wf_spool_def)
    from 2(3) consider "pending t = pending s" | y where "pending t = dir_put (temp_name (env_tmp env)) (Regular y) (pending s)"
      | "pending t = dir_put name (Regular content) (pending s)" by blast
    then show ?case
    proof cases
      case 3
      then show ?thesis
        using 2(1,2) ok pending_replace [OF ok, of name _ content]
        by (auto simp: reads_as_def pending_bounded_def quarantine_bounded_def wf_spool_def)
    qed (use 2 pending_bounded_same pending_bounded_put temp_not_item in blast)+
  qed (simp add: pending_bounded_def quarantine_bounded_def)
qed

interpretation pbw: spool_invariant_writes limits "pending_bounded limits" c for limits c
  by unfold_locales (rule pb_Enqueue pb_ScheduleRetry)+

end
