(* ===== verification/Spool_Contents.thy ===== *)
theory Spool_Contents
  imports Spool_Bounds Go_Strconv
begin

text \<open>
  What the spool stores and returns: a batch that \<open>Enqueue\<close> accepted is read back by \<open>Load\<close> with exactly
  the marshalled bytes, \<open>ScheduleRetry\<close> changes the attempt counter and the due time only, and \<open>Next\<close>
  returns the first due item in name order, which is the order of creation. All statements about one
  call hold for every script of faults.
\<close>

subsection \<open>What is relied on of the JSON codec\<close>

text \<open>
  An envelope whose batch was produced by \<open>json.Marshal\<close> and whose checksum is the hexadecimal digest
  survives encoding and strict decoding; a marshalled request is not empty and is read back with its
  number of rounds.
\<close>

definition canonical :: "codec \<Rightarrow> probeSpoolEnvelope \<Rightarrow> bool" where
  "canonical c e \<longleftrightarrow> (\<exists>r. Batch e = marshal_request c r) \<and> Checksum e = probeSpoolChecksum c (Batch e) \<and>
     SchemaVersion e = probeSpoolSchemaVersion \<and> fits64 (Created e) \<and> fits64 (NextAt e)"

definition codec_ok :: "codec \<Rightarrow> bool" where
  "codec_ok c \<longleftrightarrow>
     (\<forall>e. canonical c e \<longrightarrow> dec c (enc c e) = Some e) \<and>
     (\<forall>r. marshal_request c r \<noteq> []) \<and>
     (\<forall>r. batch_rounds c (marshal_request c r) = Some (length (request_Rounds r)))"

definition new_id :: "spool_env \<Rightarrow> string" where
  "new_id env = pad20 (UnixNano (env_now env)) @ ''-'' @ hex_EncodeToString (env_random env)"

lemma triple_conj:
  "triple P m Q E \<Longrightarrow> triple P' m Q' E' \<Longrightarrow>
   triple (\<lambda>s. P s \<and> P' s) m (\<lambda>x s. Q x s \<and> Q' x s) (\<lambda>e s. E e s \<and> E' e s)"
  unfolding triple_def by blast

subsection \<open>Generated names are valid item IDs\<close>

definition plain_char :: "char \<Rightarrow> bool" where
  "plain_char ch \<longleftrightarrow> is_digit ch \<or> ch = CHR ''-'' \<or> (CHR ''a'' \<le> ch \<and> ch \<le> CHR ''f'')"

lemma hex_digit_plain: "n < 16 \<Longrightarrow> plain_char (hex_digit n)"
  by (auto simp: plain_char_def hex_digit_def is_digit_iff less_eq_char_def of_char_of)

lemma pad20_plain: "ch \<in> set (pad20 i) \<Longrightarrow> plain_char ch"
proof -
  have "\<forall>ch\<in>set (dec_digits n). is_digit ch" for n using is_digit_dec by (simp only: list_all_iff)
  then show "ch \<in> set (pad20 i) \<Longrightarrow> plain_char ch"
    by (auto simp: pad20_def Let_def plain_char_def is_digit_iff split: if_splits)
qed

lemma new_id_plain: "ch \<in> set (new_id env) \<Longrightarrow> plain_char ch"
  unfolding new_id_def using pad20_plain hex_chars [of ch "env_random env"] hex_digit_plain
  by (auto simp: plain_char_def [of "CHR ''-''"])

lemma plain_not: "plain_char ch \<Longrightarrow>
  ch \<noteq> CHR ''/'' \<and> ch \<noteq> CHR 0x5C \<and> ch \<noteq> CHR ''.'' \<and> ch \<noteq> CHR 0xC4 \<and> ch \<noteq> CHR 0xE2 \<and> ascii_lower ch = ch"
  by (auto simp: plain_char_def is_digit_iff less_eq_char_def ascii_lower_def Let_def)

lemma ToLower_plain: "(\<And>ch. ch \<in> set s \<Longrightarrow> plain_char ch) \<Longrightarrow> ToLower s = s"
  by (induction s) (simp_all add: plain_not)

lemma filepath_Base_plain:
  assumes "s \<noteq> []" "\<And>ch. ch \<in> set s \<Longrightarrow> plain_char ch"
  shows "filepath_Base s = s"
proof -
  have "\<forall>ch\<in>set (rev s). ch \<noteq> CHR ''/''" using assms(2) plain_not by auto
  then have "dropWhile (\<lambda>c. c = CHR ''/'') (rev s) = rev s"
    by (cases "rev s") simp_all
  moreover have "takeWhile (\<lambda>c. c \<noteq> CHR ''/'') (rev s) = rev s"
    using \<open>\<forall>ch\<in>set (rev s). ch \<noteq> CHR ''/''\<close> by (simp add: takeWhile_eq_all_conv)
  ultimately show ?thesis using assms(1) by (simp add: filepath_Base_def Let_def del: takeWhile_eq_all_conv)
qed

lemma pendingPath_plain:
  assumes "s \<noteq> []" and plain: "\<And>ch. ch \<in> set s \<Longrightarrow> plain_char ch"
  shows "pendingPathLocked s = Inr (s @ ''.json'')"
proof -
  have "CHR ''.'' \<notin> set s" using plain plain_not by blast
  then have "\<not> HasSuffix (ToLower s) ''.json''"
    using ToLower_plain [OF plain] by (auto simp: HasSuffix_iff)
  moreover have "s \<noteq> ''.''" "s \<noteq> ''..''" using \<open>CHR ''.'' \<notin> set s\<close> by auto
  moreover have "\<not> (\<exists>ch\<in>set s. ch = CHR ''/'' \<or> ch = CHR 0x5C)" using plain plain_not by blast
  ultimately show ?thesis
    using assms filepath_Base_plain by (simp add: pendingPathLocked_def)
qed

lemma new_id_path: "pendingPathLocked (new_id env) = Inr (new_id env @ ''.json'')"
  by (rule pendingPath_plain) (simp add: new_id_def, erule new_id_plain)

subsection \<open>What Enqueue and ScheduleRetry leave behind\<close>

lemma triple_any: "triple P m (\<lambda>_ _. True) (\<lambda>_ _. True)"
  by (simp add: triple_def)

lemma triple_bind_any:
  "preserves I m \<Longrightarrow> (\<And>x. triple I (k x) Q (\<lambda>_ _. True)) \<Longrightarrow> triple I (bindS m k) Q (\<lambda>_ _. True)"
  unfolding preserves_def by (rule triple_bind [where R = "\<lambda>_. I"]) (erule triple_conseq; simp)

text \<open>A successful write left the content under the name.\<close>

definition holds :: "string \<Rightarrow> string \<Rightarrow> spool_fs \<Rightarrow> bool" where
  "holds name content s \<longleftrightarrow> dir_get (pending s) name = Some (Regular content)"

lemma write_holds:
  "triple wf_spool (atomicWritePrivateFile random name content) (\<lambda>_. holds name content) (\<lambda>_ _. True)"
proof -
  have "holds name content t"
    if "wf_spool s" "atomicWritePrivateFile random name content s = (Inr x, t)" for s x t
  proof -
    have "dir_ok (pending s)" "at_dir (pending s) (quarantine s) (notify s) s"
      using that(1) by (simp_all add: wf_spool_def at_dir_def)
    then show ?thesis
      using triple_value [OF triple_atomicWrite _ that(2)] by (auto simp: at_dir_def holds_def)
  qed
  then show ?thesis by (auto simp: triple_def)
qed

lemma write_signal_holds:
  "triple wf_spool (bindS (atomicWritePrivateFile random name content) (\<lambda>_. bindS signal (\<lambda>_. returnS x)))
     (\<lambda>r s. r = x \<and> holds name content s \<and> notify s) (\<lambda>_ _. True)"
  "triple wf_spool (bindS (atomicWritePrivateFile random name content) (\<lambda>_. signal))
     (\<lambda>_ s. holds name content s \<and> notify s) (\<lambda>_ _. True)"
proof -
  have sig: "triple (holds name content) signal (\<lambda>_ s. holds name content s \<and> notify s) (\<lambda>_ _. True)"
    unfolding signal_def by (rule triple_modify) (simp add: holds_def)
  show "triple wf_spool (bindS (atomicWritePrivateFile random name content) (\<lambda>_. signal))
     (\<lambda>_ s. holds name content s \<and> notify s) (\<lambda>_ _. True)"
    by (rule triple_bind [OF write_holds sig])
  show "triple wf_spool (bindS (atomicWritePrivateFile random name content) (\<lambda>_. bindS signal (\<lambda>_. returnS x)))
     (\<lambda>r s. r = x \<and> holds name content s \<and> notify s) (\<lambda>_ _. True)"
    by (rule triple_bind [OF write_holds triple_bind [OF sig triple_return]]) simp
qed

lemma qb_wf_spool: "quarantine_bounded limits s \<Longrightarrow> wf_spool s"
  by (simp add: quarantine_bounded_def)

lemma enqueue_holds:
  assumes body: "marshalProbeResults c rounds = Inr body"
  shows "triple (quarantine_bounded limits) (Enqueue c limits env rounds)
     (\<lambda>ident s. ident = new_id env \<and> notify s \<and>
        int (length (enc c (new_envelope c (env_now env) body))) \<le> MaxItemBytes limits \<and>
        holds (new_id env @ ''.json'') (enc c (new_envelope c (env_now env) body)) s) (\<lambda>_ _. True)"
proof -
  let ?I = "quarantine_bounded limits" and ?x = "enc c (new_envelope c (env_now env) body)"
  let ?Q = "\<lambda>ident s. ident = new_id env \<and> notify s \<and> int (length ?x) \<le> MaxItemBytes limits \<and>
     holds (new_id env @ ''.json'') ?x s"
  have fin: "triple ?I (bindS (atomicWritePrivateFile (env_tmp env) (new_id env @ ''.json'') ?x)
       (\<lambda>_. bindS signal (\<lambda>_. returnS (new_id env)))) ?Q (\<lambda>_ _. True)" if "int (length ?x) \<le> MaxItemBytes limits"
    by (rule triple_conseq [OF write_signal_holds(1)]) (use that qb_wf_spool in auto)
  have fresh: "triple ?I (newIDLocked env) (\<lambda>i s. ?I s \<and> i = new_id env) (\<lambda>_ _. True)"
    unfolding newIDLocked_def
    by (rule triple_bind_any [OF qb.I_syscall]) (rule triple_return, simp add: new_id_def)
  have named: "triple (\<lambda>s. ?I s \<and> i = new_id env)
     (bindS (atomicWritePrivateFile (env_tmp env) (i @ ''.json'') ?x) (\<lambda>_. bindS signal (\<lambda>_. returnS i)))
     ?Q (\<lambda>_ _. True)" if "int (length ?x) \<le> MaxItemBytes limits" for i
    by (cases "i = new_id env") (use fin [OF that] in \<open>simp_all add: triple_def\<close>)
  have tail: "triple ?I (bindS syscall (\<lambda>_.
        if env_free env < MinFreeBytes limits + of_nat (length ?x) then failS NoFreeSpace
        else bindS (newIDLocked env) (\<lambda>ident.
          bindS (atomicWritePrivateFile (env_tmp env) (ident @ ''.json'') ?x) (\<lambda>_.
          bindS signal (\<lambda>_. returnS ident))))) ?Q (\<lambda>_ _. True)"
    if "int (length ?x) \<le> MaxItemBytes limits"
    by (rule triple_bind_any [OF qb.I_syscall], rule triple_if, rule triple_fail, simp,
        rule triple_bind [OF fresh named [OF that]])
  show ?thesis
    unfolding Enqueue_def body sum.case Let_def
    by (rule triple_bind_any [OF qb.I_cleanup], rule triple_if, rule triple_fail, simp,
        rule triple_bind_any [OF qb.I_usage], rule triple_prod, rule triple_if, rule triple_fail, simp,
        rule tail, simp)
qed

lemma retry_holds:
  assumes name: "pendingPathLocked ident = Inr name"
  shows "triple (\<lambda>s. quarantine_bounded limits s \<and> holds name y s) (ScheduleRetry c limits env ident attempt nextAt)
     (\<lambda>_ s. \<exists>e. check_content c limits y = Inr e \<and> nextAt \<noteq> zero_time \<and>
        int (length (enc c (e\<lparr>Attempt := attempt, NextAt := UnixNano nextAt\<rparr>))) \<le> MaxItemBytes limits \<and>
        holds name (enc c (e\<lparr>Attempt := attempt, NextAt := UnixNano nextAt\<rparr>)) s \<and> notify s) (\<lambda>_ _. True)"
proof -
  let ?P = "\<lambda>s. quarantine_bounded limits s \<and> holds name y s"
  let ?Q = "\<lambda>s. \<exists>e. check_content c limits y = Inr e \<and> nextAt \<noteq> zero_time \<and>
        int (length (enc c (e\<lparr>Attempt := attempt, NextAt := UnixNano nextAt\<rparr>))) \<le> MaxItemBytes limits \<and>
        holds name (enc c (e\<lparr>Attempt := attempt, NextAt := UnixNano nextAt\<rparr>)) s \<and> notify s"
  have vis: "visible ?P" by (simp add: visible_def quarantine_bounded_def wf_spool_def holds_def)
  have rd: "triple ?P (readEnvelopeLocked c limits name)
      (\<lambda>r s. wf_spool s \<and> check_content c limits y = Inr (fst r)) (\<lambda>_ _. True)"
    by (rule triple_conseq [OF readEnvelope_triple [OF vis]]) (auto simp: reads_as_def holds_def qb_wf_spool)
  have tail: "triple (\<lambda>s. wf_spool s \<and> check_content c limits y = Inr (fst (e, k)))
      (if nextAt = zero_time then failS RetryTimeRequired
       else if int (length (enc c (e\<lparr>Attempt := attempt, NextAt := UnixNano nextAt\<rparr>))) > MaxItemBytes limits
         then failS TooLarge
       else bindS (atomicWritePrivateFile (env_tmp env) name
           (enc c (e\<lparr>Attempt := attempt, NextAt := UnixNano nextAt\<rparr>))) (\<lambda>_. signal))
      (\<lambda>_. ?Q) (\<lambda>_ _. True)" for e and k :: int
  proof (cases "check_content c limits y = Inr e")
    case True
    show ?thesis
      by (rule triple_if, rule triple_fail, simp, rule triple_if, rule triple_fail, simp,
          rule triple_conseq [OF write_signal_holds(2)]) (use True in auto)
  next
    case False
    then show ?thesis by (simp add: triple_def)
  qed
  have "triple ?P (bindS (readEnvelopeLocked c limits name) (\<lambda>(e, _).
      if nextAt = zero_time then failS RetryTimeRequired
       else if int (length (enc c (e\<lparr>Attempt := attempt, NextAt := UnixNano nextAt\<rparr>))) > MaxItemBytes limits
         then failS TooLarge
       else bindS (atomicWritePrivateFile (env_tmp env) name
           (enc c (e\<lparr>Attempt := attempt, NextAt := UnixNano nextAt\<rparr>))) (\<lambda>_. signal))) (\<lambda>_. ?Q) (\<lambda>_ _. True)"
    by (rule triple_bind [OF rd], rule triple_prod, rule tail)
  then show ?thesis
    unfolding ScheduleRetry_def name liftS_def sum.case Let_def
    by (simp add: triple_def bindS_def returnS_def)
qed

subsection \<open>Reading back\<close>

lemma Lstat_clean: "dir_get (pending s) name = Some x \<Longrightarrow> faults s = [] \<Longrightarrow> Lstat name s = (Inr x, s)"
  by (simp add: Lstat_def bindS_def syscall_def getS_def returnS_def)

lemma readEnvelope_clean:
  assumes "holds name y s" "faults s = []" "check_content c limits y = Inr e"
  shows "readEnvelopeLocked c limits name s = (Inr (e, int (length y)), s)"
proof -
  have "\<not> int (length y) > MaxItemBytes limits" using assms(3) by (auto simp: check_content_def)
  then show ?thesis
    using assms by (simp add: readEnvelopeLocked_def bindS_def Lstat_clean holds_def syscall_def returnS_def)
qed

lemma Load_clean:
  assumes "pendingPathLocked ident = Inr name" "holds name y s" "faults s = []" "check_content c limits y = Inr e"
  shows "Load c limits ident s = (Inr (probeSpoolItemFromEnvelope ident e), s)"
  using assms readEnvelope_clean [OF assms(2-4)]
  by (simp add: Load_def liftS_def bindS_def returnS_def)

lemma check_canonical:
  assumes "codec_ok c" "canonical c e" "0 < Created e" "0 < NextAt e" "batch_rounds c (Batch e) \<noteq> Some 0"
    "int (length (enc c e)) \<le> MaxItemBytes limits"
  shows "check_content c limits (enc c e) = Inr e"
proof -
  obtain r where r: "Batch e = marshal_request c r" using assms(2) by (auto simp: canonical_def)
  have "dec c (enc c e) = Some e" "Batch e \<noteq> []" "batch_rounds c (Batch e) = Some (length (request_Rounds r))"
    using assms(1,2) r by (simp_all add: codec_ok_def)
  then show ?thesis
    using assms by (simp add: check_content_def canonical_def)
qed

lemma marshal_request_of:
  assumes "marshalProbeResults c rounds = Inr body"
  obtains v where "commonProbeConfigVersion rounds = Inr v" "rounds \<noteq> []"
    "body = marshal_request c \<lparr>request_ConfigVersion = v, request_Rounds = map round_payload rounds\<rparr>"
  using assms by (auto simp: marshalProbeResults_def split: if_splits sum.splits)

lemma new_envelope_canonical:
  assumes "marshalProbeResults c rounds = Inr body"
  shows "canonical c (new_envelope c now body)"
  using assms by (auto simp: canonical_def new_envelope_def UnixNano_def elim!: marshal_request_of)

subsection \<open>What Next returns\<close>

text \<open>After a successful removal or quarantine the name is gone.\<close>

definition gone :: "string \<Rightarrow> spool_fs \<Rightarrow> bool" where
  "gone n s \<longleftrightarrow> dir_get (pending s) n = None"

lemma visible_gone: "visible (gone n)"
  by (simp add: visible_def gone_def)

lemma gone_call: "triple (gone n) syscall (\<lambda>_. gone n) (\<lambda>_ _. True)"
  "triple (gone n) syncDirectory (\<lambda>_. gone n) (\<lambda>_ _. True)"
  by (rule triple_conseq [OF triple_syscall [OF visible_gone]] triple_conseq [OF triple_sync [OF visible_gone]]; simp)+

lemma gone_del: "triple P (bindS (del_pending n) (\<lambda>_. syncDirectory)) (\<lambda>_. gone n) (\<lambda>_ _. True)"
  unfolding del_pending_def
  by (rule triple_bind [OF triple_modify gone_call(2)]) (simp add: gone_def)

lemma triple_skip: "(\<And>x. triple (\<lambda>_. True) (k x) Q (\<lambda>_ _. True)) \<Longrightarrow> triple P (bindS m k) Q (\<lambda>_ _. True)"
  by (rule triple_bind [OF triple_any])

lemma gone_remove: "triple P (removeFileAndSync n) (\<lambda>_. gone n) (\<lambda>_ _. True)"
  unfolding removeFileAndSync_def
  by (rule triple_skip, rule triple_skip, rule triple_if, rule triple_fail, simp, rule gone_del)

lemma gone_rename: "triple P (rename_to_quarantine n dest x) (\<lambda>_. gone n) (\<lambda>_ _. True)"
proof -
  have "triple (\<lambda>_. True) (modifyS (\<lambda>s. s\<lparr>pending := dir_del n (pending s),
      quarantine := dir_put dest x (quarantine s)\<rparr>)) (\<lambda>_. gone n) (\<lambda>_ _. True)"
    by (rule triple_modify) (simp add: gone_def)
  then show ?thesis
    unfolding rename_to_quarantine_def
    by (intro triple_skip) (auto intro: triple_fail split: option.split node.split)
qed

lemma Lstat_missing: "triple P (Lstat n) (\<lambda>_ _. True) (\<lambda>e s. e = NotExist \<longrightarrow> gone n s)"
  by (auto simp: triple_def Lstat_def bindS_def syscall_def getS_def returnS_def failS_def gone_def
      split: list.splits option.splits)

lemma gone_quarantine: "triple P (quarantinePathLocked limits n reason) (\<lambda>_. gone n) (\<lambda>_ _. True)"
proof -
  have regular: "triple (\<lambda>_. True) (bindS (pruneQuarantineLocked limits k) (\<lambda>_.
        bindS (rename_to_quarantine n dest x) (\<lambda>_. bindS syscall (\<lambda>_. bindS syncDirectory (\<lambda>_. syncDirectory)))))
      (\<lambda>_. gone n) (\<lambda>_ _. True)" for k dest x
    by (rule triple_skip, rule triple_bind [OF gone_rename triple_bind [OF gone_call(1)
        triple_bind [OF gone_call(2) gone_call(2)]]])
  show ?thesis
    unfolding quarantinePathLocked_def
  proof (rule triple_catch [OF Lstat_missing])
    show "triple (\<lambda>s. e = NotExist \<longrightarrow> gone n s) (if e = NotExist then returnS () else failS e)
        (\<lambda>_. gone n) (\<lambda>_ _. True)" for e
      by (auto intro: triple_return triple_fail)
    show "triple (\<lambda>_. True) (case info of
         Regular content \<Rightarrow>
           if node_Size info > MaxQuarantineBytes limits then removeFileAndSync n
           else bindS (pruneQuarantineLocked limits (node_Size info)) (\<lambda>_.
             bindS (rename_to_quarantine n (n @ ''.'' @ sanitize_reason reason) info) (\<lambda>_.
             bindS syscall (\<lambda>_. bindS syncDirectory (\<lambda>_. syncDirectory))))
       | _ \<Rightarrow> bindS syscall (\<lambda>_. bindS (del_pending n) (\<lambda>_. syncDirectory))) (\<lambda>_. gone n) (\<lambda>_ _. True)" for info
      using gone_remove regular by (cases info) (auto intro: triple_skip [OF gone_del])
  qed
qed

text \<open>An item whose content is valid at \<open>now\<close> and its state relative to \<open>now\<close>.\<close>

definition item_at :: "codec \<Rightarrow> ProbeSpoolLimits \<Rightarrow> dir \<Rightarrow> string \<Rightarrow> probeSpoolEnvelope \<Rightarrow> bool" where
  "item_at c limits d n e \<longleftrightarrow> (\<exists>y. dir_get d n = Some (Regular y) \<and> check_content c limits y = Inr e)"

definition waiting :: "codec \<Rightarrow> ProbeSpoolLimits \<Rightarrow> instant \<Rightarrow> dir \<Rightarrow> string \<Rightarrow> bool" where
  "waiting c limits now d n \<longleftrightarrow>
     (case dir_get d n of
        Some (Regular y) \<Rightarrow>
          (case check_content c limits y of
             Inl _ \<Rightarrow> False
           | Inr e \<Rightarrow> \<not> expired limits now e \<and> now < NextAt e)
      | _ \<Rightarrow> False)"

text \<open>The loop of \<open>Next\<close>: every item listed before the position reached is gone or waiting.\<close>

definition passed :: "codec \<Rightarrow> ProbeSpoolLimits \<Rightarrow> instant \<Rightarrow> dir \<Rightarrow> dir \<Rightarrow> spool_fs \<Rightarrow> bool" where
  "passed c limits now d seen s \<longleftrightarrow>
     quarantine_bounded limits s \<and> set (pending s) \<subseteq> set d \<and>
     (\<forall>p\<in>set seen. is_item p \<and> p \<in> set (pending s) \<longrightarrow> waiting c limits now (pending s) (fst p))"

lemma passed_shrink:
  assumes p: "passed c limits now d seen s" and bd: "quarantine_bounded limits t"
    and del: "pending t = pending s \<or> pending t = dir_del n (pending s)"
  shows "passed c limits now d seen t"
proof -
  have sub: "q \<in> set (pending s) \<and> waiting c limits now (pending t) (fst q) = waiting c limits now (pending s) (fst q)"
    if "q \<in> set (pending t)" for q
    using del that by (auto simp: dir_del_def [of n "pending s"] waiting_def sd.get_del [unfolded dir_del_def])
  show ?thesis unfolding passed_def
  proof (intro conjI ballI impI)
    show "set (pending t) \<subseteq> set d" using sub p by (auto simp: passed_def)
    show "waiting c limits now (pending t) (fst q)" if "q \<in> set seen" "is_item q \<and> q \<in> set (pending t)" for q
      using sub [of q] that p by (auto simp: passed_def)
  qed (rule bd)
qed

lemma visible_passed: "visible (passed c limits now d seen)"
  by (simp add: visible_def passed_def quarantine_bounded_def wf_spool_def)

lemma passed_gone:
  assumes "passed c limits now d seen s" "gone (fst e) s"
  shows "passed c limits now d (seen @ [e]) s"
proof -
  have "dir_ok (pending s)" using assms(1) qb_wf by (auto simp: passed_def)
  then have "e \<notin> set (pending s)" using assms(2) sd.entries_get [of "pending s" "fst e" "snd e"] by (auto simp: gone_def)
  then show ?thesis using assms(1) by (auto simp: passed_def)
qed

lemma passed_quarantine:
  "triple (passed c limits now d seen) (quarantinePathLocked limits (fst e) reason)
     (\<lambda>_. passed c limits now d (seen @ [e])) (\<lambda>_ _. True)"
proof -
  have "passed c limits now d (seen @ [e]) t"
    if p: "passed c limits now d seen s" and r: "quarantinePathLocked limits (fst e) reason s = (Inr x, t)" for s x t
  proof -
    have bd: "quarantine_bounded limits s" using p by (simp add: passed_def)
    have "gone (fst e) t" using triple_value [OF gone_quarantine _ r] by simp
    moreover have "passed c limits now d seen t"
      using passed_shrink [OF p, of t "fst e"] quarantinePath_step [OF bd, of "fst e" reason] r
      by (auto simp: quarantine_step_def)
    ultimately show ?thesis by (rule passed_gone [rotated])
  qed
  then show ?thesis by (auto simp: triple_def)
qed

lemma passed_remove:
  "triple (passed c limits now d seen) (removeFileAndSync (fst e))
     (\<lambda>_. passed c limits now d (seen @ [e])) (\<lambda>_ _. True)"
proof -
  have pres: "preserves (passed c limits now d seen) (del_pending (fst e))"
    unfolding del_pending_def
    by (rule preserves_modify) (rule passed_shrink, assumption, auto simp: passed_def qb_del)
  have call: "preserves (passed c limits now d seen) syscall"
    by (rule preserves_syscall [OF visible_passed])
  have "preserves (passed c limits now d seen) (removeFileAndSync (fst e))"
    unfolding removeFileAndSync_def syncDirectory_def
    by (intro preserves_bind call preserves_get preserves_if preserves_fail pres)
  then show ?thesis
    unfolding preserves_def
    by (rule triple_conseq [OF triple_conj [OF _ gone_remove [of "\<lambda>_. True"]]]) (auto intro: passed_gone)
qed

definition next_result ::
  "codec \<Rightarrow> ProbeSpoolLimits \<Rightarrow> instant \<Rightarrow> ProbeSpoolItem option \<Rightarrow> spool_fs \<Rightarrow> bool" where
  "next_result c limits now r s \<longleftrightarrow>
     (case r of
        None \<Rightarrow> \<forall>p\<in>set (pending s). is_item p \<longrightarrow> waiting c limits now (pending s) (fst p)
      | Some item \<Rightarrow>
          \<exists>n e. item_at c limits (pending s) n e \<and> HasSuffix n ''.json'' \<and>
            \<not> expired limits now e \<and> NextAt e \<le> now \<and> item = probeSpoolItemFromEnvelope (TrimSuffix_json n) e \<and>
            (\<forall>p\<in>set (pending s). is_item p \<and> fst p < n \<longrightarrow> waiting c limits now (pending s) (fst p)))"

lemma passed_all: "passed c limits now d d s \<Longrightarrow> next_result c limits now None s"
  by (auto simp: passed_def next_result_def)

lemma passed_found:
  assumes p: "passed c limits now (seen @ e # rest) seen s" and ok: "dir_ok (seen @ e # rest)"
    and r: "reads_as c limits (fst e) (envelope, k) s" and item: "is_item e"
    and due: "\<not> expired limits now envelope" "NextAt envelope \<le> now"
  shows "next_result c limits now (Some (probeSpoolItemFromEnvelope (TrimSuffix_json (fst e)) envelope)) s"
proof -
  have before: "p \<in> set seen" if "p \<in> set (pending s)" "fst p < fst e" for p
  proof -
    have "p \<in> set (seen @ e # rest)" using p that by (auto simp: passed_def)
    then show ?thesis using ok that(2) by (fastforce simp: dir_ok_def sorted_wrt_append)
  qed
  have "\<forall>p\<in>set (pending s). is_item p \<and> fst p < fst e \<longrightarrow> waiting c limits now (pending s) (fst p)"
    using before p by (auto simp: passed_def)
  then show ?thesis
    using r item due unfolding next_result_def
    by (auto simp: reads_as_def item_at_def is_item_def intro!: exI [of _ "fst e"])
qed

lemma passed_waiting:
  assumes "passed c limits now d seen s" "reads_as c limits (fst e) (envelope, k) s"
    "\<not> expired limits now envelope" "NextAt envelope > now"
  shows "passed c limits now d (seen @ [e]) s"
  using assms by (auto simp: passed_def reads_as_def waiting_def)

lemma next_loop_triple:
  "dir_ok (seen @ es) \<Longrightarrow>
   triple (passed c limits now (seen @ es) seen) (next_loop c limits now es) (next_result c limits now) (\<lambda>_ _. True)"
proof (induction es arbitrary: seen)
  case Nil
  then show ?case by (auto intro: triple_return simp: passed_all)
next
  case (Cons e es)
  let ?d = "seen @ e # es"
  have IH: "triple (passed c limits now ?d (seen @ [e])) (next_loop c limits now es) (next_result c limits now) (\<lambda>_ _. True)"
    using Cons.IH [of "seen @ [e]"] Cons.prems by simp
  have skip: "triple (passed c limits now ?d seen) (next_loop c limits now es) (next_result c limits now) (\<lambda>_ _. True)"
    if "\<not> is_item e"
    by (rule triple_conseq [OF IH]) (use that in \<open>auto simp: passed_def\<close>)
  have read: "triple (passed c limits now ?d seen) (readEnvelopeLocked c limits (fst e))
      (\<lambda>r s. passed c limits now ?d seen s \<and> reads_as c limits (fst e) r s) (\<lambda>_. passed c limits now ?d seen)"
    by (rule readEnvelope_triple [OF visible_passed])
  have found: "triple (\<lambda>s. passed c limits now ?d seen s \<and> reads_as c limits (fst e) (envelope, k) s)
      (if expired limits now envelope then bindS (removeFileAndSync (fst e)) (\<lambda>_. next_loop c limits now es)
       else if NextAt envelope > now then next_loop c limits now es
       else returnS (Some (probeSpoolItemFromEnvelope (TrimSuffix_json (fst e)) envelope)))
      (next_result c limits now) (\<lambda>_ _. True)" if item: "is_item e" for envelope k
  proof (intro triple_if)
    show "triple (\<lambda>s. passed c limits now ?d seen s \<and> reads_as c limits (fst e) (envelope, k) s)
       (bindS (removeFileAndSync (fst e)) (\<lambda>_. next_loop c limits now es)) (next_result c limits now) (\<lambda>_ _. True)"
      by (rule triple_conseq [OF triple_bind [OF passed_remove IH]]) auto
    show "triple (\<lambda>s. passed c limits now ?d seen s \<and> reads_as c limits (fst e) (envelope, k) s)
       (next_loop c limits now es) (next_result c limits now) (\<lambda>_ _. True)"
      if "\<not> expired limits now envelope" "NextAt envelope > now"
      by (rule triple_conseq [OF IH]) (use that in \<open>auto intro: passed_waiting [of c limits now _ seen _ e envelope k]\<close>)
    show "triple (\<lambda>s. passed c limits now ?d seen s \<and> reads_as c limits (fst e) (envelope, k) s)
       (returnS (Some (probeSpoolItemFromEnvelope (TrimSuffix_json (fst e)) envelope)))
       (next_result c limits now) (\<lambda>_ _. True)"
      if "\<not> expired limits now envelope" "\<not> NextAt envelope > now"
      by (rule triple_return) (use that passed_found [OF _ Cons.prems _ item] in auto)
  qed
  have bad: "triple (passed c limits now ?d seen)
      (bindS (quarantinePathLocked limits (fst e) ''invalid'') (\<lambda>_. next_loop c limits now es))
      (next_result c limits now) (\<lambda>_ _. True)"
    by (rule triple_bind [OF passed_quarantine IH])
  show ?case
    unfolding next_loop.simps
    by (rule triple_if, erule skip, rule triple_catch [OF read bad], rule triple_prod, rule found, simp)
qed

lemma Next_triple: "triple (quarantine_bounded limits) (Next c limits now) (next_result c limits now) (\<lambda>_ _. True)"
proof -
  have dir: "triple (quarantine_bounded limits) ReadDir_pending
      (\<lambda>d s. dir_ok d \<and> passed c limits now d [] s) (\<lambda>_ _. True)"
    unfolding ReadDir_pending_def
    by (rule triple_bind_any [OF qb.I_syscall], rule triple_get) (auto simp: passed_def qb_wf)
  have loop: "triple (\<lambda>s. dir_ok d \<and> passed c limits now d [] s) (next_loop c limits now d)
      (next_result c limits now) (\<lambda>_ _. True)" for d
    by (cases "dir_ok d") (use next_loop_triple [of "[]" d c limits now] in \<open>simp_all add: triple_def\<close>)
  show ?thesis
    unfolding Next_def by (rule triple_bind_any [OF qb.I_cleanup triple_bind [OF dir loop]])
qed

end
