(* ===== verification/Spool_Durability.thy ===== *)
theory Spool_Durability
  imports Spool_Contents
begin

text \<open>
  Durability of a pending item when no file-system call fails: a valid item that has not expired stays
  in the pending directory with its bytes under any sequence of calls, until a call addresses the item
  itself. (With failing calls the item may be moved to the quarantine: a read error is taken for an
  invalid file.)
\<close>

subsection \<open>Predicates that survive without faults\<close>

text \<open>
  What a predicate has to survive so that every internal operation of the spool keeps it when no system
  call fails: system calls, the channel, changes of the quarantine, and the removal of pending files that
  are not among the protected names.
\<close>

locale quiet_invariant =
  fixes K :: "spool_fs \<Rightarrow> bool" and protected :: "string set"
  assumes K_syscall: "preserves K syscall"
    and K_notify: "K s \<Longrightarrow> K (s\<lparr>notify := b\<rparr>)"
    and K_del: "m \<notin> protected \<Longrightarrow> K s \<Longrightarrow> K (s\<lparr>pending := dir_del m (pending s)\<rparr>)"
    and K_quarantine_dir: "K s \<Longrightarrow> K (s\<lparr>quarantine := q\<rparr>)"
begin

lemma K_sync: "preserves K syncDirectory"
  unfolding syncDirectory_def by (intro preserves_bind K_syscall)

lemma K_del_pending: "m \<notin> protected \<Longrightarrow> preserves K (del_pending m)"
  unfolding del_pending_def by (rule preserves_modify) (rule K_del)

lemma K_signal: "preserves K signal"
  unfolding signal_def by (rule preserves_modify) (rule K_notify)

lemma K_del_quarantine: "preserves K (del_quarantine m)"
  unfolding del_quarantine_def by (rule preserves_modify) (rule K_quarantine_dir)

lemma K_ReadDir: "preserves K ReadDir_pending" "preserves K ReadDir_quarantine"
  unfolding ReadDir_pending_def ReadDir_quarantine_def by (intro preserves_bind K_syscall preserves_get)+

lemmas K_rules = preserves_bind preserves_get preserves_if preserves_fail preserves_return
  K_syscall K_sync K_ReadDir K_del_quarantine K_del_pending

lemma K_remove: "m \<notin> protected \<Longrightarrow> preserves K (removeFileAndSync m)"
  unfolding removeFileAndSync_def by (intro K_rules)

lemma K_Lstat: "preserves K (Lstat m)"
proof -
  have "preserves K (case r of None \<Rightarrow> failS NotExist | Some x \<Rightarrow> returnS x)" for r :: "node option"
    by (cases r) (simp_all add: preserves_fail preserves_return)
  then show ?thesis unfolding Lstat_def by (intro K_rules)
qed

lemma K_readEnvelope: "preserves K (readEnvelopeLocked c limits m)"
proof -
  have check: "preserves K (case r of Inl e \<Rightarrow> failS e | Inr env \<Rightarrow> returnS (env, k))"
    for r :: "spool_error + probeSpoolEnvelope" and k :: int
    by (cases r) (simp_all add: preserves_fail preserves_return)
  have "preserves K (case info of
         Regular content \<Rightarrow>
           if node_Size info > MaxItemBytes limits then failS TooLarge
           else bindS syscall (\<lambda>_. bindS syscall (\<lambda>_.
               case check_content c limits content of
                 Inl e \<Rightarrow> failS e | Inr envelope \<Rightarrow> returnS (envelope, node_Size info)))
       | _ \<Rightarrow> failS NotRegular)" for info
    by (cases info) (auto intro!: K_rules check)
  then show ?thesis unfolding readEnvelopeLocked_def by (rule preserves_bind [OF K_Lstat])
qed

lemma K_stat: "preserves K (stat_entries es)"
proof (induction es)
  case (Cons e es)
  then show ?case by (cases e) (auto intro!: K_rules)
qed (simp add: preserves_return)

lemma K_prune_loop: "preserves K (prune_loop limits incoming items used)"
proof (induction items arbitrary: used)
  case (Cons e es)
  then show ?case by (cases e) (auto intro!: K_rules)
qed (simp add: preserves_return)

lemma K_rename: "m \<notin> protected \<Longrightarrow> preserves K (rename_to_quarantine m dest x)"
proof -
  assume m: "m \<notin> protected"
  have "preserves K (modifyS (\<lambda>s. s\<lparr>pending := dir_del m (pending s), quarantine := dir_put dest x (quarantine s)\<rparr>))"
    by (rule preserves_modify) (drule K_quarantine_dir [OF K_del [OF m]], simp)
  then have "preserves K (case r of Some (Directory e) \<Rightarrow> failS IOError
     | _ \<Rightarrow> modifyS (\<lambda>s. s\<lparr>pending := dir_del m (pending s), quarantine := dir_put dest x (quarantine s)\<rparr>))" for r
    by (auto intro: preserves_fail split: option.split node.split)
  then show ?thesis unfolding rename_to_quarantine_def by (intro K_rules)
qed

lemma K_quarantine:
  assumes "m \<notin> protected"
  shows "preserves K (quarantinePathLocked limits m reason)"
proof -
  have prune: "preserves K (pruneQuarantineLocked limits k)" for k
    unfolding pruneQuarantineLocked_def by (intro K_rules K_stat K_prune_loop)
  have "preserves K (case info of
         Regular content \<Rightarrow>
           if node_Size info > MaxQuarantineBytes limits then removeFileAndSync m
           else bindS (pruneQuarantineLocked limits (node_Size info)) (\<lambda>_.
             bindS (rename_to_quarantine m (m @ ''.'' @ sanitize_reason reason) info) (\<lambda>_.
             bindS syscall (\<lambda>_. bindS syncDirectory (\<lambda>_. syncDirectory))))
       | _ \<Rightarrow> bindS syscall (\<lambda>_. bindS (del_pending m) (\<lambda>_. syncDirectory)))" for info
    using assms by (cases info) (auto intro!: K_rules K_remove prune K_rename)
  then show ?thesis
    unfolding quarantinePathLocked_def by (intro preserves_catch K_Lstat preserves_if preserves_return preserves_fail)
qed

lemma K_usage: "preserves K pendingUsageLocked"
proof -
  have "preserves K (usage_loop es count used)" for es count used
    by (induction es arbitrary: count used) (auto intro: preserves_return preserves_bind K_syscall)
  then show ?thesis unfolding pendingUsageLocked_def by (intro K_rules)
qed

lemma K_entry: "fst p \<notin> protected \<Longrightarrow> preserves K (cleanup_entry c limits now p)"
  unfolding cleanup_entry_def
  by (intro preserves_if preserves_catch K_quarantine K_readEnvelope) (auto intro: K_remove preserves_return)

end

text \<open>The file \<open>n\<close> keeps its content \<open>y\<close>, and no fault is to come.\<close>

definition kept :: "string \<Rightarrow> string \<Rightarrow> spool_fs \<Rightarrow> bool" where
  "kept n y s \<longleftrightarrow> faults s = [] \<and> dir_ok (pending s) \<and> holds n y s"

interpretation kp: quiet_invariant "kept n y" "{n}" for n y
proof unfold_locales
  show "preserves (kept n y) syscall" by (rule preservesI) (simp add: kept_def syscall_def holds_def)
qed (auto simp: kept_def holds_def)

lemmas kept_syscall = kp.K_syscall and kept_sync = kp.K_sync and kept_signal = kp.K_signal
  and kept_readEnvelope = kp.K_readEnvelope and kept_usage = kp.K_usage and kept_Lstat = kp.K_Lstat
  and kept_rules = kp.K_rules and kept_stat = kp.K_stat and kept_prune_loop = kp.K_prune_loop

lemma kept_del: "m \<noteq> n \<Longrightarrow> preserves (kept n y) (del_pending m)"
  by (simp add: kp.K_del_pending)

lemma kept_remove: "m \<noteq> n \<Longrightarrow> preserves (kept n y) (removeFileAndSync m)"
  by (simp add: kp.K_remove)

lemma kept_quarantine: "m \<noteq> n \<Longrightarrow> preserves (kept n y) (quarantinePathLocked limits m reason)"
  by (simp add: kp.K_quarantine)

text \<open>That no fault is to come survives everything.\<close>

interpretation calm: quiet_invariant "\<lambda>s. faults s = []" "{}"
proof unfold_locales
  show "preserves (\<lambda>s. faults s = []) syscall" by (rule preservesI) (simp add: syscall_def)
qed auto

subsection \<open>One call\<close>

text \<open>The item under consideration: valid, and not expired at the time of the call.\<close>

definition live_item :: "codec \<Rightarrow> ProbeSpoolLimits \<Rightarrow> instant \<Rightarrow> string \<Rightarrow> string \<Rightarrow> bool" where
  "live_item c limits now n y \<longleftrightarrow> HasSuffix n ''.json'' \<and>
     (case check_content c limits y of Inl _ \<Rightarrow> False | Inr e \<Rightarrow> \<not> expired limits now e)"

lemma live_itemE:
  assumes "live_item c limits now n y"
  obtains e where "check_content c limits y = Inr e" "\<not> expired limits now e" "HasSuffix n ''.json''"
  using assms by (auto simp: live_item_def split: sum.splits)

text \<open>An entry of a listing in which \<open>n\<close> stands for the file with content \<open>y\<close>.\<close>

definition agrees :: "string \<Rightarrow> string \<Rightarrow> string \<times> node \<Rightarrow> bool" where
  "agrees n y p \<longleftrightarrow> (fst p = n \<longrightarrow> snd p = Regular y)"

lemma agrees_item: "agrees n y p \<Longrightarrow> fst p = n \<Longrightarrow> HasSuffix n ''.json'' \<Longrightarrow> is_item p"
  by (cases p) (auto simp: agrees_def is_item_def)

lemma kept_read:
  assumes "kept n y s" "check_content c limits y = Inr e"
  shows "readEnvelopeLocked c limits n s = (Inr (e, int (length y)), s)"
  using assms readEnvelope_clean by (simp add: kept_def)

lemma kept_cleanup_entry:
  assumes live: "live_item c limits now n y" and p: "agrees n y p"
  shows "preserves (kept n y) (cleanup_entry c limits now p)"
proof (cases "fst p = n")
  case True
  obtain e where e: "check_content c limits y = Inr e" "\<not> expired limits now e" "HasSuffix n ''.json''"
    using live by (rule live_itemE)
  have "is_item p" using agrees_item [OF p True e(3)] .
  then show ?thesis
    using True e kept_read [OF _ e(1)]
    by (intro preservesI) (simp add: cleanup_entry_def catchS_def returnS_def)
next
  case False
  then show ?thesis by (simp add: kp.K_entry)
qed

lemma kept_forS:
  "(\<And>p. p \<in> set es \<Longrightarrow> preserves I (f p)) \<Longrightarrow> preserves I (forS f es)"
  by (induction es) (auto intro!: preserves_return preserves_bind)

lemma kept_listing:
  "triple (kept n y) ReadDir_pending (\<lambda>d s. kept n y s \<and> (\<forall>p\<in>set d. agrees n y p)) (\<lambda>_. kept n y)"
proof -
  have "\<forall>p\<in>set (pending s). agrees n y p" if "kept n y s" for s
    using that sd.entries_get [of "pending s"] by (auto simp: kept_def holds_def agrees_def)
  then show ?thesis
    unfolding ReadDir_pending_def
    by (intro triple_bind [OF kept_syscall [unfolded preserves_def]] triple_get) auto
qed

lemma triple_pure: "(A \<Longrightarrow> triple P m Q E) \<Longrightarrow> triple (\<lambda>s. P s \<and> A) m Q E"
  by (auto simp: triple_def)

lemma kept_cleanup:
  assumes "live_item c limits now n y"
  shows "preserves (kept n y) (cleanupPendingLocked c limits now)"
  unfolding cleanupPendingLocked_def preserves_def
  by (rule triple_bind [OF kept_listing], rule triple_pure)
    (rule kept_forS [unfolded preserves_def], rule kept_cleanup_entry [OF assms, unfolded preserves_def], blast)

lemma kept_next_loop:
  assumes live: "live_item c limits now n y"
  shows "\<forall>p\<in>set es. agrees n y p \<Longrightarrow> preserves (kept n y) (next_loop c limits now es)"
proof (induction es)
  case (Cons p es)
  then have IH: "preserves (kept n y) (next_loop c limits now es)" by simp
  obtain e where e: "check_content c limits y = Inr e" "\<not> expired limits now e" "HasSuffix n ''.json''"
    using live by (rule live_itemE)
  show ?case
  proof (cases "fst p = n")
    case True
    show ?thesis
    proof (rule preservesI)
      fix s assume s: "kept n y s"
      show "kept n y (snd (next_loop c limits now (p # es) s))"
        using s True e kept_read [OF s e(1)] preserves_result [OF IH s]
        by (simp add: catchS_def returnS_def)
    qed
  next
    case False
    then show ?thesis
      using IH
      by (auto intro!: preserves_catch preserves_bind kept_readEnvelope kept_quarantine kept_remove preserves_return)
  qed
qed (simp add: preserves_return)

lemma kept_Next:
  assumes "live_item c limits now n y"
  shows "preserves (kept n y) (Next c limits now)"
proof -
  have "triple (kept n y) (bindS ReadDir_pending (next_loop c limits now)) (\<lambda>_. kept n y) (\<lambda>_. kept n y)"
    by (rule triple_bind [OF kept_listing], rule triple_pure)
      (rule kept_next_loop [OF assms, unfolded preserves_def])
  then show ?thesis
    unfolding Next_def preserves_def by (rule triple_bind [OF kept_cleanup [OF assms, unfolded preserves_def]])
qed

lemma kept_put: "m \<noteq> n \<Longrightarrow> preserves (kept n y) (put_pending m x)"
  unfolding put_pending_def by (rule preserves_modify) (auto simp: kept_def holds_def)

lemma temp_not_json: "HasSuffix n ''.json'' \<Longrightarrow> temp_name r \<noteq> n"
  using temp_not_item [of r "Regular []"] by (auto simp: is_item_def)

lemma kept_write_temp: "m \<noteq> n \<Longrightarrow> preserves (kept n y) (write_temp m content)"
  by (rule preservesI)
    (auto simp: write_temp_def kept_def holds_def bindS_def syscall_def put_pending_def modifyS_def)

lemma kept_rename_temp: "tmp \<noteq> n \<Longrightarrow> m \<noteq> n \<Longrightarrow> preserves (kept n y) (rename_temp tmp m content)"
proof -
  assume "tmp \<noteq> n" "m \<noteq> n"
  then have "preserves (kept n y) (bindS (del_pending tmp) (\<lambda>_. put_pending m (Regular content)))"
    by (intro preserves_bind kept_del kept_put)
  then have "preserves (kept n y) (case r of Some (Directory e) \<Rightarrow> failS IOError
     | _ \<Rightarrow> bindS (del_pending tmp) (\<lambda>_. put_pending m (Regular content)))" for r
    by (auto intro: preserves_fail split: option.split node.split)
  then show ?thesis unfolding rename_temp_def by (intro kept_rules)
qed

lemma kept_write:
  assumes "HasSuffix n ''.json''" "m \<noteq> n"
  shows "preserves (kept n y) (atomicWritePrivateFile random m content)"
proof -
  have tmp: "temp_name random \<noteq> n" using assms(1) by (rule temp_not_json)
  have fail: "preserves (kept n y) (cleanup_and_fail (temp_name random) e)" for e
    unfolding cleanup_and_fail_def discard_temp_def
    by (intro preserves_bind preserves_catch kept_syscall preserves_return preserves_fail kept_del tmp)
  show ?thesis
    unfolding atomicWritePrivateFile_def Let_def
    by (intro preserves_bind preserves_get preserves_if preserves_fail kept_syscall kept_put tmp
        preserves_catch fail kept_write_temp kept_rename_temp assms(2) kept_sync)
qed

lemma kept_Enqueue:
  assumes live: "live_item c limits (env_now env) n y" and fresh: "new_id env @ ''.json'' \<noteq> n"
  shows "preserves (kept n y) (Enqueue c limits env rounds)"
proof (cases "marshalProbeResults c rounds")
  case (Inl e)
  then show ?thesis by (simp add: Enqueue_def preserves_fail)
next
  case (Inr body)
  have json: "HasSuffix n ''.json''" using live by (simp add: live_item_def)
  have rest: "preserves (kept n y) (bindS (newIDLocked env) (\<lambda>ident.
       bindS (atomicWritePrivateFile (env_tmp env) (ident @ ''.json'') x) (\<lambda>_. bindS signal (\<lambda>_. returnS ident))))" for x
  proof (rule preservesI)
    fix s assume s: "kept n y s"
    then have "newIDLocked env s = (Inr (new_id env), s)"
      by (simp add: newIDLocked_def bindS_def syscall_def kept_def returnS_def new_id_def)
    moreover have w: "preserves (kept n y) (bindS (atomicWritePrivateFile (env_tmp env) (new_id env @ ''.json'') x)
        (\<lambda>_. bindS signal (\<lambda>_. returnS (new_id env))))"
      by (intro preserves_bind kept_write [OF json fresh] kept_signal preserves_return)
    ultimately show "kept n y (snd (bindS (newIDLocked env) (\<lambda>ident.
       bindS (atomicWritePrivateFile (env_tmp env) (ident @ ''.json'') x) (\<lambda>_. bindS signal (\<lambda>_. returnS ident))) s))"
      using preserves_result [OF w s] by (simp add: bindS_def [of "newIDLocked env"])
  qed
  show ?thesis
    unfolding Enqueue_def Inr sum.case Let_def
    by (intro preserves_bind kept_cleanup [OF live] preserves_if preserves_fail kept_usage)
      (auto intro!: preserves_if preserves_fail preserves_bind kept_syscall rest)
qed

lemma pendingPath_name: "pendingPathLocked ident = Inr name \<Longrightarrow> name = ident @ ''.json''"
  by (simp add: pendingPathLocked_def split: if_splits)

text \<open>A call that goes through \<open>pendingPathLocked\<close> works on the file of its ID.\<close>

lemma kept_path:
  assumes "\<And>name. name = ident @ ''.json'' \<Longrightarrow> preserves I (k name)"
  shows "preserves I (bindS (liftS (pendingPathLocked ident)) k)"
proof (rule preservesI)
  fix s assume s: "I s"
  show "I (snd (bindS (liftS (pendingPathLocked ident)) k s))"
  proof (cases "pendingPathLocked ident")
    case (Inr name)
    then show ?thesis
      using preserves_result [OF assms [OF pendingPath_name [OF Inr]] s] by (simp add: liftS_def bindS_def returnS_def)
  qed (use s in \<open>simp add: liftS_def bindS_def failS_def\<close>)
qed

lemma kept_Load: "preserves (kept n y) (Load c limits ident)"
  unfolding Load_def by (intro preserves_bind preserves_lift kept_readEnvelope) (auto intro: preserves_return)

lemma kept_ScheduleRetry:
  assumes "HasSuffix n ''.json''" "ident @ ''.json'' \<noteq> n"
  shows "preserves (kept n y) (ScheduleRetry c limits env ident attempt nextAt)"
  unfolding ScheduleRetry_def Let_def
  by (rule kept_path, rule preserves_bind [OF kept_readEnvelope])
    (use assms in \<open>auto intro!: preserves_if preserves_fail preserves_bind kept_write kept_signal\<close>)

lemma kept_Ack: "ident @ ''.json'' \<noteq> n \<Longrightarrow> preserves (kept n y) (Ack ident)"
  unfolding Ack_def by (rule kept_path) (auto intro: kept_remove)

lemma kept_Quarantine: "ident @ ''.json'' \<noteq> n \<Longrightarrow> preserves (kept n y) (Quarantine limits ident reason)"
  unfolding Quarantine_def by (rule kept_path) (auto intro: kept_quarantine)

subsection \<open>Sequences of calls\<close>

text \<open>The calls that neither address the item nor run after it has expired.\<close>

fun spares :: "codec \<Rightarrow> ProbeSpoolLimits \<Rightarrow> string \<Rightarrow> string \<Rightarrow> spool_call \<Rightarrow> bool" where
  "spares c limits n y (C_Enqueue env rounds) \<longleftrightarrow> live_item c limits (env_now env) n y \<and> new_id env @ ''.json'' \<noteq> n"
| "spares c limits n y (C_Next now) \<longleftrightarrow> live_item c limits now n y"
| "spares c limits n y (C_Load ident) \<longleftrightarrow> True"
| "spares c limits n y (C_ScheduleRetry env ident attempt nextAt) \<longleftrightarrow> ident @ ''.json'' \<noteq> n"
| "spares c limits n y (C_Ack ident) \<longleftrightarrow> ident @ ''.json'' \<noteq> n"
| "spares c limits n y (C_Quarantine ident reason) \<longleftrightarrow> ident @ ''.json'' \<noteq> n"

lemma kept_run_call:
  assumes "kept n y s" "spares c limits n y call" "HasSuffix n ''.json''"
  shows "kept n y (run_call c limits call s)"
  using assms
  by (cases call)
    (simp_all add: preserves_result [OF kept_Enqueue] preserves_result [OF kept_Next] preserves_result [OF kept_Load]
      preserves_result [OF kept_ScheduleRetry] preserves_result [OF kept_Ack] preserves_result [OF kept_Quarantine])

lemma kept_run_calls:
  "kept n y s \<Longrightarrow> \<forall>call\<in>set calls. spares c limits n y call \<Longrightarrow> HasSuffix n ''.json'' \<Longrightarrow>
   kept n y (run_calls c limits calls s)"
  unfolding run_calls_def by (induction calls arbitrary: s) (simp_all add: kept_run_call)

subsection \<open>A write without faults succeeds\<close>

lemma write_clean:
  assumes "faults s = []" "dir_ok (pending s)" "dir_get (pending s) (temp_name random) = None"
    "temp_name random \<noteq> name" "\<And>b. dir_get (pending s) name \<noteq> Some (Directory b)"
  shows "atomicWritePrivateFile random name content s = (Inr (), s\<lparr>pending := dir_put name (Regular content) (pending s)\<rparr>)"
proof -
  let ?t = "temp_name random"
  have sys: "faults u = [] \<Longrightarrow> syscall u = (Inr (), u)" for u by (simp add: syscall_def)
  have wt: "write_temp ?t content (s\<lparr>pending := dir_put ?t (Regular []) (pending s)\<rparr>) =
      (Inr (), s\<lparr>pending := dir_put ?t (Regular content) (pending s)\<rparr>)"
    using assms(1,2) by (simp add: write_temp_def bindS_def sys put_pending_def modifyS_def)
  have rn: "rename_temp ?t name content (s\<lparr>pending := dir_put ?t (Regular content) (pending s)\<rparr>) =
      (Inr (), s\<lparr>pending := dir_put name (Regular content) (pending s)\<rparr>)"
    using assms by (auto simp: rename_temp_def bindS_def sys getS_def del_pending_def put_pending_def modifyS_def
        split: option.split node.split)
  show ?thesis
    using assms(1,3)
    by (simp add: atomicWritePrivateFile_def Let_def bindS_def getS_def catchS_def sys put_pending_def modifyS_def wt rn
        syncDirectory_def)
qed

end
