(* ===== verification/Example_Codec.thy ===== *)
theory Example_Codec
  imports Spool_Contents
begin

text \<open>
  A small executable codec that meets \<open>codec_ok\<close>: decimal fields separated by commas, the batch last; a
  request is written as one letter per round. It shows that the assumptions on \<open>encoding/json\<close> can be
  met and lets concrete runs of the spool be evaluated.
\<close>

definition cut_comma :: "string \<Rightarrow> (string \<times> string) option" where
  "cut_comma s =
     (if CHR '','' \<in> set s
      then Some (takeWhile (\<lambda>ch. ch \<noteq> CHR '','') s, drop 1 (dropWhile (\<lambda>ch. ch \<noteq> CHR '','') s))
      else None)"

definition demo_enc :: "probeSpoolEnvelope \<Rightarrow> string" where
  "demo_enc e = Itoa (SchemaVersion e) @ '','' @ Itoa (Created e) @ '','' @ Itoa (uint (Attempt e)) @ '','' @
     Itoa (NextAt e) @ '','' @ Checksum e @ '','' @ Batch e"

definition demo_dec :: "string \<Rightarrow> probeSpoolEnvelope option" where
  "demo_dec s =
     (case cut_comma s of None \<Rightarrow> None | Some (f1, s1) \<Rightarrow>
     (case cut_comma s1 of None \<Rightarrow> None | Some (f2, s2) \<Rightarrow>
     (case cut_comma s2 of None \<Rightarrow> None | Some (f3, s3) \<Rightarrow>
     (case cut_comma s3 of None \<Rightarrow> None | Some (f4, s4) \<Rightarrow>
     (case cut_comma s4 of None \<Rightarrow> None | Some (f5, s5) \<Rightarrow>
     (case (ParseInt f1, ParseInt f2, ParseInt f3, ParseInt f4) of
        (Some v, Some created, Some attempt, Some nextAt) \<Rightarrow>
          Some \<lparr>SchemaVersion = v, Created = created, Attempt = word_of_int attempt, NextAt = nextAt,
                Checksum = f5, Batch = s5\<rparr>
      | _ \<Rightarrow> None))))))"

definition demo_codec :: codec where
  "demo_codec =
     \<lparr>enc = demo_enc, dec = demo_dec,
      marshal_request = (\<lambda>r. replicate (length (request_Rounds r)) (CHR ''r'') @ ''.''),
      batch_rounds = (\<lambda>b. Some (length (takeWhile (\<lambda>ch. ch = CHR ''r'') b))),
      sha256 = (\<lambda>b. take 2 b)\<rparr>"

lemma cut_comma_append: "CHR '','' \<notin> set f \<Longrightarrow> cut_comma (f @ CHR '','' # s) = Some (f, s)"
proof -
  assume f: "CHR '','' \<notin> set f"
  then have all: "\<And>x. x \<in> set f \<Longrightarrow> x \<noteq> CHR '',''" by auto
  then show ?thesis by (simp add: cut_comma_def takeWhile_append2 dropWhile_append2)
qed

lemma Itoa_no_comma: "CHR '','' \<notin> set (Itoa i)"
proof -
  have "CHR '','' \<notin> set (dec_digits n)" for n
    using is_digit_dec [of n] by (auto simp: list_all_iff is_digit_iff)
  then show ?thesis by (simp add: Itoa_def)
qed

lemma hex_no_comma: "CHR '','' \<notin> set (hex_EncodeToString s)"
proof
  assume "CHR '','' \<in> set (hex_EncodeToString s)"
  then obtain n where n: "n < 16" "CHR '','' = hex_digit n" using hex_chars by blast
  have "plain_char (CHR '','')" using hex_digit_plain [OF n(1)] n(2) by simp
  then show False by (simp add: plain_char_def is_digit_iff less_eq_char_def)
qed

lemma demo_round_trip:
  assumes "fits64 (SchemaVersion e)" "fits64 (Created e)" "fits64 (NextAt e)" "CHR '','' \<notin> set (Checksum e)"
  shows "demo_dec (demo_enc e) = Some e"
proof -
  have a: "fits64 (uint (Attempt e))"
  proof -
    have "0 \<le> uint (Attempt e)" "uint (Attempt e) < 4294967296" using uint_lt2p [of "Attempt e"] by simp_all
    then show ?thesis unfolding fits64_def minInt64_def maxInt64_def by linarith
  qed
  show ?thesis
    using assms a by (simp add: demo_dec_def demo_enc_def cut_comma_append Itoa_no_comma ParseInt_Itoa)
qed

lemma demo_codec_ok: "codec_ok demo_codec"
proof -
  have "demo_dec (demo_enc e) = Some e" if "canonical demo_codec e" for e
    using that hex_no_comma
    by (intro demo_round_trip)
      (auto simp: canonical_def probeSpoolChecksum_def probeSpoolSchemaVersion_def fits64_def minInt64_def maxInt64_def)
  moreover have "length (takeWhile (\<lambda>ch. ch = CHR ''r'') (replicate n (CHR ''r'') @ ''.'')) = n" for n
    by (induction n) simp_all
  ultimately show ?thesis
    by (simp add: codec_ok_def) (simp add: demo_codec_def)
qed

end
