(* ===== verification/Spool_Properties.thy ===== *)
theory Spool_Properties
  imports Spool_Durability Example_Codec Probe_Scheduler
begin

text \<open>
  The properties of the spool, each with a concrete run: bounds on the directories, atomic writes, what
  \<open>Enqueue\<close>, \<open>ScheduleRetry\<close> and \<open>Next\<close> store and return, and durability.
\<close>

subsection \<open>Example data\<close>

definition empty_spool :: "nat option list \<Rightarrow> spool_fs" where
  "empty_spool fs = \<lparr>pending = [], quarantine = [], faults = fs, notify = False\<rparr>"

definition example_env :: spool_env where
  "example_env = \<lparr>env_now = 1000, env_free = 2 ^ 32, env_random = ''x'', env_tmp = ''1''\<rparr>"

definition later_env :: spool_env where
  "later_env = \<lparr>env_now = 2000, env_free = 2 ^ 32, env_random = ''y'', env_tmp = ''2''\<rparr>"

definition one_round :: ProbeRound where
  "one_round = \<lparr>round_RoundID = ''r1'', round_ConfigVersion = 3, round_TargetID = ''a'', round_TS = 0,
     round_Type = ''tcp'', round_Samples = []\<rparr>"

definition example_id :: string where
  "example_id = new_id example_env"

definition example_envelope :: probeSpoolEnvelope where
  "example_envelope = new_envelope demo_codec 1000 ''r.''"

definition example_content :: string where
  "example_content = demo_enc example_envelope"

definition example_spool :: spool_fs where
  "example_spool = \<lparr>pending = [(example_id @ ''.json'', Regular example_content)], quarantine = [],
     faults = [], notify = True\<rparr>"

lemma bounded_empty: "quarantine_bounded DefaultProbeSpoolLimits (empty_spool fs)"
  by (simp add: quarantine_bounded_def wf_spool_def dir_ok_def empty_spool_def quarantine_items_def quarantine_bytes_def
      DefaultProbeSpoolLimits_def)

lemma bounded_example: "quarantine_bounded DefaultProbeSpoolLimits example_spool"
  by (simp add: quarantine_bounded_def wf_spool_def dir_ok_def example_spool_def quarantine_items_def quarantine_bytes_def
      DefaultProbeSpoolLimits_def)

lemma example_marshal: "marshalProbeResults demo_codec [one_round] = Inr ''r.''"
  by (simp add: marshalProbeResults_def commonProbeConfigVersion_def one_round_def demo_codec_def)

lemma example_length: "length example_content = 21"
  by (simp add: example_content_def example_envelope_def new_envelope_def demo_enc_def Itoa_def dec_digits.simps
      probeSpoolSchemaVersion_def probeSpoolChecksum_def demo_codec_def length_hex UnixNano_def wrap64_def)

lemma enc_demo: "enc demo_codec = demo_enc"
  by (simp add: demo_codec_def)

lemma example_check: "check_content demo_codec DefaultProbeSpoolLimits example_content = Inr example_envelope"
  unfolding example_content_def enc_demo [symmetric]
proof (rule check_canonical [OF demo_codec_ok])
  show "canonical demo_codec example_envelope"
    unfolding example_envelope_def by (rule new_envelope_canonical [OF example_marshal])
  show "int (length (enc demo_codec example_envelope)) \<le> MaxItemBytes DefaultProbeSpoolLimits"
    using example_length by (simp add: enc_demo example_content_def DefaultProbeSpoolLimits_def)
qed (simp_all add: example_envelope_def new_envelope_def UnixNano_def wrap64_def demo_codec_def)

lemma example_enqueue:
  "Enqueue demo_codec DefaultProbeSpoolLimits example_env [one_round] (empty_spool []) = (Inr example_id, example_spool)"
proof -
  have x: "enc demo_codec (new_envelope demo_codec (env_now example_env) ''r.'') = example_content"
    by (simp add: enc_demo example_content_def example_envelope_def example_env_def)
  have "CHR ''.'' \<noteq> hd (example_id @ ''.json'')" 
    by (simp add: example_id_def new_id_def pad20_def Let_def example_env_def UnixNano_def wrap64_def dec_digits.simps)
  then have tmp: "temp_name ''1'' \<noteq> example_id @ ''.json''" by (auto simp: temp_name_def)
  have wr: "atomicWritePrivateFile ''1'' (example_id @ ''.json'') example_content (empty_spool []) =
      (Inr (), (empty_spool [])\<lparr>pending := [(example_id @ ''.json'', Regular example_content)]\<rparr>)"
    using write_clean [of "empty_spool []" "''1''" "example_id @ ''.json''" example_content] tmp
    by (simp add: empty_spool_def dir_ok_def dir_get_def)
  have idn: "newIDLocked example_env (empty_spool []) = (Inr example_id, empty_spool [])"
    by (simp add: newIDLocked_def bindS_def syscall_def returnS_def empty_spool_def example_id_def new_id_def)
  have cl: "cleanupPendingLocked c limits now (empty_spool []) = (Inr (), empty_spool [])"
      "pendingUsageLocked (empty_spool []) = (Inr (0, 0), empty_spool [])"
      "syscall (empty_spool []) = (Inr (), empty_spool [])" for c limits now
    by (simp_all add: cleanupPendingLocked_def pendingUsageLocked_def ReadDir_pending_def bindS_def syscall_def getS_def
        returnS_def empty_spool_def)
  have tmp1: "env_tmp example_env = ''1''" "env_free example_env = 2 ^ 32" by (simp_all add: example_env_def)
  show ?thesis
    unfolding Enqueue_def example_marshal sum.case x Let_def
    by (simp add: bindS_def cl idn wr tmp1 example_length DefaultProbeSpoolLimits_def signal_def modifyS_def returnS_def)
      (simp add: example_spool_def empty_spool_def)
qed

subsection \<open>Bounds\<close>

text \<open>C6: With valid limits the quarantine never holds more than \<open>MaxQuarantineItems\<close> files or
  \<open>MaxQuarantineBytes\<close> bytes, after any sequence of calls to the spool and with any file-system call failing.\<close>

theorem quarantine_stays_bounded:
  assumes "quarantine_bounded limits s" "validateProbeSpoolLimits limits = None"
  shows "quarantine_items (quarantine (run_calls c limits calls s)) \<le> MaxQuarantineItems limits \<and>
    quarantine_bytes (quarantine (run_calls c limits calls s)) \<le> MaxQuarantineBytes limits"
  using qbw.I_run_calls [OF assms(1), of c calls] assms(2) by (simp add: quarantine_bounded_def)

theorem quarantine_stays_bounded_witness:
  "quarantine_items (quarantine (run_calls demo_codec DefaultProbeSpoolLimits
     [C_Enqueue example_env [one_round], C_Quarantine example_id ''http-400''] (empty_spool [None, Some 3]))) \<le> 128"
  using quarantine_stays_bounded [OF bounded_empty, of demo_codec
      "[C_Enqueue example_env [one_round], C_Quarantine example_id ''http-400'']" "[None, Some 3]"]
  by (simp add: DefaultProbeSpoolLimits_def validateProbeSpoolLimits_def time_defs)

text \<open>The number of pending items never exceeds \<open>MaxPendingItems\<close>, after any sequence of calls and with any
  file-system call failing.\<close>

theorem pending_stays_bounded:
  assumes "pending_bounded limits s"
  shows "pending_items (pending (run_calls c limits calls s)) \<le> MaxPendingItems limits"
  using pbw.I_run_calls [OF assms, of c calls] by (simp add: pending_bounded_def)

theorem pending_stays_bounded_witness:
  "pending_items (pending (run_calls demo_codec DefaultProbeSpoolLimits
     [C_Enqueue example_env [one_round], C_Enqueue later_env [one_round]] (empty_spool [None, Some 3]))) \<le> 16384"
  using pending_stays_bounded [of DefaultProbeSpoolLimits "empty_spool [None, Some 3]" demo_codec
      "[C_Enqueue example_env [one_round], C_Enqueue later_env [one_round]]"] bounded_empty
  by (simp add: pending_bounded_def pending_items_def DefaultProbeSpoolLimits_def empty_spool_def)

text \<open>\<open>Enqueue\<close> never takes the pending bytes above \<open>MaxPendingBytes\<close>, whatever fails on the way.\<close>

theorem enqueue_bytes_bounded:
  assumes "bytes_bounded limits s"
  shows "pending_bytes (pending (snd (Enqueue c limits env rounds s))) \<le> MaxPendingBytes limits"
  using preserves_result [OF bb_Enqueue assms, of c env rounds] by (simp add: bytes_bounded_def)

theorem enqueue_bytes_bounded_witness:
  "pending_bytes (pending (snd (Enqueue demo_codec DefaultProbeSpoolLimits later_env [one_round] example_spool)))
     \<le> 268435456"
  using enqueue_bytes_bounded [of DefaultProbeSpoolLimits example_spool demo_codec later_env "[one_round]"] bounded_example
  by (simp add: bytes_bounded_def pending_bytes_def DefaultProbeSpoolLimits_def example_spool_def example_length)

subsection \<open>Writes\<close>

text \<open>C10: A write is atomic whatever system call fails: afterwards every file other than the temporary one has its
  old content, except that the destination may have exactly the new content, and has it whenever the write
  reports success. The quarantine is not touched.\<close>

theorem write_is_atomic:
  assumes "wf_spool s" "atomicWritePrivateFile random name content s = (r, t)"
  shows "quarantine t = quarantine s \<and>
    (\<forall>n. n = temp_name random \<or> dir_get (pending t) n = dir_get (pending s) n \<or>
       n = name \<and> dir_get (pending t) n = Some (Regular content)) \<and>
    (r = Inr () \<longrightarrow> dir_get (pending t) name = Some (Regular content))"
proof (intro conjI impI)
  have ok: "dir_ok (pending s)" using assms(1) by (simp add: wf_spool_def)
  show "quarantine t = quarantine s" by (rule wf_atomicWrite(1) [OF assms])
  show "\<forall>n. n = temp_name random \<or> dir_get (pending t) n = dir_get (pending s) n \<or>
       n = name \<and> dir_get (pending t) n = Some (Regular content)"
    using wf_atomicWrite(2) [OF assms] ok by (auto split: if_splits)
  show "dir_get (pending t) name = Some (Regular content)" if "r = Inr ()"
    using triple_value [OF write_holds assms(1) assms(2) [unfolded that]] by (simp add: holds_def)
qed

theorem write_is_atomic_witness:
  "dir_get (pending (snd (atomicWritePrivateFile ''1'' ''b.json'' ''new'' example_spool))) (example_id @ ''.json'')
     = Some (Regular example_content)"
proof -
  have wf: "wf_spool example_spool" using bounded_example by (rule qb_wf_spool)
  obtain r t where rt: "atomicWritePrivateFile ''1'' ''b.json'' ''new'' example_spool = (r, t)" by fastforce
  have ne: "example_id @ ''.json'' \<noteq> ''b.json''" "example_id @ ''.json'' \<noteq> temp_name ''1''"
    using temp_not_json [OF HasSuffix_append, of "''1''" example_id]
    by (auto simp: example_id_def new_id_def pad20_def Let_def example_env_def UnixNano_def wrap64_def dec_digits.simps)
  have "dir_get (pending example_spool) (example_id @ ''.json'') = Some (Regular example_content)"
    by (simp add: example_spool_def dir_get_def)
  then show ?thesis using write_is_atomic [OF wf rt] ne rt by auto
qed

subsection \<open>Round trips\<close>

lemma enqueue_load_roundtrip:
  assumes "codec_ok c" "quarantine_bounded limits s" "0 < UnixNano (env_now env)"
    "Enqueue c limits env rounds s = (Inr ident, t)"
  shows "\<exists>body. marshalProbeResults c rounds = Inr body \<and>
    Load c limits ident (t\<lparr>faults := []\<rparr>) =
      (Inr \<lparr>item_ID = ident, item_Body = body, item_Created = UnixNano (env_now env), item_Attempt = 0,
            item_NextAt = UnixNano (env_now env)\<rparr>, t\<lparr>faults := []\<rparr>)"
proof (cases "marshalProbeResults c rounds")
  case (Inl e)
  then show ?thesis using assms(4) by (simp add: Enqueue_def failS_def)
next
  case (Inr body)
  let ?e = "new_envelope c (env_now env) body"
  have st: "ident = new_id env" "int (length (enc c ?e)) \<le> MaxItemBytes limits" "holds (new_id env @ ''.json'') (enc c ?e) t"
    using triple_value [OF enqueue_holds [OF Inr] assms(2,4)] by simp_all
  have "batch_rounds c body \<noteq> Some 0"
    using Inr assms(1) by (auto simp: codec_ok_def elim!: marshal_request_of)
  then have "check_content c limits (enc c ?e) = Inr ?e"
    using assms(3) st(2) by (intro check_canonical [OF assms(1) new_envelope_canonical [OF Inr]])
      (simp_all add: new_envelope_def)
  then have "Load c limits ident (t\<lparr>faults := []\<rparr>) = (Inr (probeSpoolItemFromEnvelope ident ?e), t\<lparr>faults := []\<rparr>)"
    using st by (intro Load_clean [OF new_id_path [of env, folded st(1)], of "enc c ?e"]) (simp_all add: holds_def)
  then show ?thesis using Inr by (simp add: probeSpoolItemFromEnvelope_def new_envelope_def)
qed

text \<open>C7: A batch that \<open>Enqueue\<close> accepted is on disk: whatever calls failed or were about to, \<open>Load\<close> of the
  returned ID gives back exactly the marshalled request, with attempt 0 and the creation time as due time.\<close>

theorem enqueue_then_load:
  assumes "codec_ok c" "quarantine_bounded limits s" "0 < UnixNano (env_now env)"
    "Enqueue c limits env rounds s = (Inr ident, t)"
  shows "\<exists>body. marshalProbeResults c rounds = Inr body \<and>
    Load c limits ident (t\<lparr>faults := []\<rparr>) =
      (Inr \<lparr>item_ID = ident, item_Body = body, item_Created = UnixNano (env_now env), item_Attempt = 0,
            item_NextAt = UnixNano (env_now env)\<rparr>, t\<lparr>faults := []\<rparr>)"
  by (rule enqueue_load_roundtrip [OF assms])

theorem enqueue_then_load_witness:
  "\<exists>body. Enqueue demo_codec DefaultProbeSpoolLimits example_env [one_round] (empty_spool []) = (Inr example_id, example_spool) \<and>
     fst (Load demo_codec DefaultProbeSpoolLimits example_id example_spool) =
       Inr \<lparr>item_ID = example_id, item_Body = body, item_Created = 1000, item_Attempt = 0, item_NextAt = 1000\<rparr>"
proof -
  have "UnixNano (env_now example_env) = 1000" by (simp add: example_env_def UnixNano_def wrap64_def)
  moreover have "example_spool\<lparr>faults := []\<rparr> = example_spool" by (simp add: example_spool_def)
  ultimately show ?thesis
    using enqueue_then_load [OF demo_codec_ok bounded_empty _ example_enqueue] example_enqueue by fastforce
qed

text \<open>\<open>ScheduleRetry\<close> on a stored item changes its attempt counter and its due time and nothing else: \<open>Load\<close>
  afterwards gives the same batch and creation time.\<close>

theorem retry_then_load:
  assumes "codec_ok c" "quarantine_bounded limits s" "canonical c e" "0 < Created e"
    "pendingPathLocked ident = Inr name" "holds name (enc c e) s" "batch_rounds c (Batch e) \<noteq> Some 0" "0 < NextAt e"
    "0 < UnixNano nextAt" "ScheduleRetry c limits env ident attempt nextAt s = (Inr (), t)"
  shows "Load c limits ident (t\<lparr>faults := []\<rparr>) =
      (Inr \<lparr>item_ID = ident, item_Body = Batch e, item_Created = Created e, item_Attempt = attempt,
            item_NextAt = UnixNano nextAt\<rparr>, t\<lparr>faults := []\<rparr>)"
proof -
  obtain e' where e': "check_content c limits (enc c e) = Inr e'"
      "int (length (enc c (e'\<lparr>Attempt := attempt, NextAt := UnixNano nextAt\<rparr>))) \<le> MaxItemBytes limits"
      "holds name (enc c (e'\<lparr>Attempt := attempt, NextAt := UnixNano nextAt\<rparr>)) t"
    using triple_value [OF retry_holds [OF assms(5)] _ assms(10), of "enc c e"] assms(2,6) by auto
  have "int (length (enc c e)) \<le> MaxItemBytes limits" using e'(1) by (auto simp: check_content_def split: if_splits)
  then have "e' = e" using check_canonical [OF assms(1,3,4,8,7)] e'(1) by simp
  let ?f = "e\<lparr>Attempt := attempt, NextAt := UnixNano nextAt\<rparr>"
  have "canonical c ?f" using assms(3) by (auto simp: canonical_def UnixNano_def)
  then have "check_content c limits (enc c ?f) = Inr ?f"
    using e'(2) \<open>e' = e\<close> assms by (intro check_canonical [OF assms(1)]) simp_all
  then have "Load c limits ident (t\<lparr>faults := []\<rparr>) = (Inr (probeSpoolItemFromEnvelope ident ?f), t\<lparr>faults := []\<rparr>)"
    using e'(3) \<open>e' = e\<close> by (intro Load_clean [OF assms(5), of "enc c ?f"]) (simp_all add: holds_def)
  then show ?thesis by (simp add: probeSpoolItemFromEnvelope_def)
qed

definition retried_envelope :: probeSpoolEnvelope where
  "retried_envelope = example_envelope\<lparr>Attempt := 1, NextAt := 5000\<rparr>"

lemma example_holds: "holds (example_id @ ''.json'') example_content example_spool" "faults example_spool = []"
  by (simp_all add: holds_def example_spool_def dir_get_def)

lemma example_path: "pendingPathLocked example_id = Inr (example_id @ ''.json'')"
  unfolding example_id_def by (rule new_id_path)

lemma example_read:
  "readEnvelopeLocked demo_codec DefaultProbeSpoolLimits (example_id @ ''.json'') example_spool = (Inr (example_envelope, 21), example_spool)"
  using readEnvelope_clean [OF example_holds example_check] example_length by simp

lemma retried_length: "length (demo_enc retried_envelope) = 21"
  by (simp add: retried_envelope_def example_envelope_def new_envelope_def demo_enc_def Itoa_def dec_digits.simps
      probeSpoolSchemaVersion_def probeSpoolChecksum_def demo_codec_def length_hex UnixNano_def wrap64_def)

lemma example_temp_ne: "temp_name r \<noteq> example_id @ ''.json''"
  by (rule temp_not_json) simp

lemma max_item: "MaxItemBytes DefaultProbeSpoolLimits = 1048576"
  by (simp add: DefaultProbeSpoolLimits_def)

lemma example_retry:
  "ScheduleRetry demo_codec DefaultProbeSpoolLimits later_env example_id 1 5000 example_spool =
     (Inr (), example_spool\<lparr>pending := [(example_id @ ''.json'', Regular (demo_enc retried_envelope))]\<rparr>)"
proof -
  let ?n = "example_id @ ''.json''"
  have x: "enc demo_codec (example_envelope\<lparr>Attempt := 1, NextAt := UnixNano 5000\<rparr>) = demo_enc retried_envelope"
    by (simp add: enc_demo retried_envelope_def UnixNano_def wrap64_def)
  have wr: "atomicWritePrivateFile (env_tmp later_env) ?n (demo_enc retried_envelope) example_spool =
      (Inr (), example_spool\<lparr>pending := [(?n, Regular (demo_enc retried_envelope))]\<rparr>)"
    using write_clean [of example_spool "env_tmp later_env" ?n] example_temp_ne
    by (simp add: example_spool_def dir_ok_def dir_get_def)
  show ?thesis
    by (simp add: ScheduleRetry_def example_path liftS_def bindS_def returnS_def example_read Let_def x wr retried_length
        zero_time_def time_defs max_item signal_def modifyS_def)
      (simp add: example_spool_def)
qed

theorem retry_then_load_witness:
  "fst (Load demo_codec DefaultProbeSpoolLimits example_id
       (snd (ScheduleRetry demo_codec DefaultProbeSpoolLimits later_env example_id 1 5000 example_spool)\<lparr>faults := []\<rparr>)) =
     Inr \<lparr>item_ID = example_id, item_Body = Batch example_envelope, item_Created = Created example_envelope, item_Attempt = 1,
          item_NextAt = UnixNano 5000\<rparr>"
proof -
  have "canonical demo_codec example_envelope"
    unfolding example_envelope_def by (rule new_envelope_canonical [OF example_marshal])
  moreover have "0 < Created example_envelope" "0 < NextAt example_envelope" "batch_rounds demo_codec (Batch example_envelope) \<noteq> Some 0"
    "0 < UnixNano 5000"
    by (simp_all add: example_envelope_def new_envelope_def UnixNano_def wrap64_def demo_codec_def)
  moreover have "holds (example_id @ ''.json'') (enc demo_codec example_envelope) example_spool"
    using example_holds by (simp add: example_content_def enc_demo)
  ultimately show ?thesis
    using retry_then_load [OF demo_codec_ok bounded_example _ _ example_path _ _ _ _ example_retry] example_retry by simp
qed

subsection \<open>Next\<close>

text \<open>C8: \<open>Next\<close> returns the first due item in name order: a valid, unexpired item of the pending directory whose
  retry time has come, such that every item before it is valid and still waiting; it returns nothing only when
  every pending item is waiting. This holds whatever calls fail, as long as \<open>Next\<close> reports no error.\<close>

theorem next_is_first_due:
  assumes "quarantine_bounded limits s" "Next c limits now s = (Inr r, t)"
  shows "next_result c limits now r t"
  by (rule triple_value [OF Next_triple assms])

lemma example_not_expired: "\<not> expired DefaultProbeSpoolLimits 3000 example_envelope"
  by (simp add: expired_def time_sub_def example_envelope_def new_envelope_def UnixNano_def wrap64_def minInt64_def
      maxInt64_def DefaultProbeSpoolLimits_def time_defs)

lemma example_next:
  "Next demo_codec DefaultProbeSpoolLimits 3000 example_spool =
     (Inr (Some (probeSpoolItemFromEnvelope example_id example_envelope)), example_spool)"
proof -
  let ?n = "example_id @ ''.json''"
  have rd: "ReadDir_pending example_spool = (Inr [(?n, Regular example_content)], example_spool)"
    by (simp add: ReadDir_pending_def bindS_def syscall_def getS_def example_spool_def)
  have item: "is_item (?n, Regular example_content)" by (simp add: is_item_def)
  have due: "NextAt example_envelope \<le> 3000"
    by (simp add: example_envelope_def new_envelope_def UnixNano_def wrap64_def)
  have "cleanupPendingLocked demo_codec DefaultProbeSpoolLimits 3000 example_spool = (Inr (), example_spool)"
    using item example_not_expired
    by (simp add: cleanupPendingLocked_def bindS_def rd cleanup_entry_def catchS_def example_read returnS_def)
  then show ?thesis
    using item example_not_expired due
    by (simp add: Next_def bindS_def rd catchS_def example_read returnS_def TrimSuffix_json_def)
qed

theorem next_is_first_due_witness:
  "next_result demo_codec DefaultProbeSpoolLimits 3000
     (Some (probeSpoolItemFromEnvelope example_id example_envelope)) example_spool"
  by (rule next_is_first_due [OF bounded_example example_next])

text \<open>File names order items by creation: of two items created at different times the older one has the
  smaller name, so that \<open>Next\<close> considers it first.\<close>

theorem names_in_creation_order:
  assumes "0 \<le> UnixNano (env_now a)" "UnixNano (env_now a) < UnixNano (env_now b)"
  shows "new_id a @ ''.json'' < new_id b @ ''.json''"
proof -
  have "UnixNano (env_now b) < 10 ^ 20"
    using wrap64_fits [of "env_now b"] by (simp add: UnixNano_def fits64_def maxInt64_def)
  then show ?thesis unfolding new_id_def append_assoc by (rule pad20_mono [OF assms])
qed

theorem names_in_creation_order_witness: "new_id example_env @ ''.json'' < new_id later_env @ ''.json''"
  by (rule names_in_creation_order) (simp_all add: example_env_def later_env_def UnixNano_def wrap64_def)

subsection \<open>Durability\<close>

text \<open>C11: When no file-system call fails, a valid item that has not expired stays in the pending directory with
  exactly its bytes, under any sequence of calls that do not address the item itself.\<close>

theorem live_items_survive:
  assumes "kept n y s" "HasSuffix n ''.json''" "\<forall>call\<in>set calls. spares c limits n y call"
  shows "kept n y (run_calls c limits calls s)"
  by (rule kept_run_calls [OF assms(1,3,2)])

theorem live_items_survive_witness:
  "kept (example_id @ ''.json'') example_content (run_calls demo_codec DefaultProbeSpoolLimits
     [C_Next 3000, C_Ack ''other'', C_Load example_id] example_spool)"
proof (rule live_items_survive)
  show "kept (example_id @ ''.json'') example_content example_spool"
    using example_holds by (simp add: kept_def) (simp add: example_spool_def dir_ok_def)
  have "live_item demo_codec DefaultProbeSpoolLimits 3000 (example_id @ ''.json'') example_content"
    using example_check example_not_expired by (simp add: live_item_def)
  moreover have "length example_id = 23"
    by (simp add: example_id_def new_id_def pad20_def Let_def example_env_def UnixNano_def wrap64_def dec_digits.simps length_hex)
  then have "example_id \<noteq> ''other''" by (auto dest: arg_cong [where f = length])
  ultimately show "\<forall>call\<in>set [C_Next 3000, C_Ack ''other'', C_Load example_id].
      spares demo_codec DefaultProbeSpoolLimits (example_id @ ''.json'') example_content call"
    by auto
qed simp

end
