(* ===== verification/Probe_Cycle.thy ===== *)
theory Probe_Cycle
  imports Manager_Steps Probe_Run Spool_Properties
begin

text \<open>
  One probe cycle (\<open>runDueProbes\<close> of \<open>cmd/zeno-agent/main.go\<close>): take the due batch, probe it, drop the
  results if the configuration changed, persist them in the spool, and only then record the targets as
  completed. It joins the target manager, the probes and the spool. What refreshers do to the manager
  while the probes run (\<open>during\<close>) and while the batch is written (\<open>after\<close>) are functions on the manager.
\<close>

datatype cycle_error = BeginFailed manager_error | SpoolMissing | PersistFailed spool_error

record cycle_env =
  cy_ctx_wins :: bool
  cy_now :: instant
  cy_marked :: instant                 \<comment> \<open>the clock when completion is recorded\<close>
  cy_rounds :: round_env
  cy_codec :: codec
  cy_limits :: ProbeSpoolLimits
  cy_spool :: "spool_env option"
  cy_during :: "probeTargetManager \<Rightarrow> probeTargetManager"
  cy_after :: "probeTargetManager \<Rightarrow> probeTargetManager"

definition runDueProbes ::
  "cycle_env \<Rightarrow> probeTargetManager \<Rightarrow> spool_fs \<Rightarrow> (cycle_error option \<times> probeTargetManager \<times> spool_fs) option" where
  "runDueProbes env m s =
     (case beginRun m (cy_ctx_wins env) of
        None \<Rightarrow> None
      | Some (Inl e) \<Rightarrow> Some (Some (BeginFailed e), m, s)
      | Some (Inr m1) \<Rightarrow>
          let batch = due m1 (cy_now env) in
          if batch_targets batch = [] then Some (None, endRun m1, s)
          else
            let rounds = stamp_rounds batch (ProbeTargets (cy_rounds env) (batch_targets batch) (cy_now env));
                m2 = cy_during env m1
            in if \<not> isCurrent m2 batch then Some (None, endRun m2, s)
               else case cy_spool env of
                 None \<Rightarrow> Some (Some SpoolMissing, endRun m2, s)
               | Some se \<Rightarrow>
                   (case Enqueue (cy_codec env) (cy_limits env) se rounds s of
                      (Inl e, t) \<Rightarrow> Some (Some (PersistFailed e), endRun m2, t)
                    | (Inr ident, t) \<Rightarrow>
                        Some (None, endRun (snd (markCompleted (cy_after env m2) batch (cy_marked env))), t)))"

text \<open>
  The batch of a cycle passes the spool's checks before anything is written: it is not empty and
  carries one version.
\<close>

lemma cycle_marshal:
  assumes "manager_inv m" "batch_targets (due m now) \<noteq> []"
  shows "\<exists>body. marshalProbeResults c (stamp_rounds (due m now) (ProbeTargets renv (batch_targets (due m now)) ts)) = Inr body"
proof -
  let ?rs = "stamp_rounds (due m now) (ProbeTargets renv (batch_targets (due m now)) ts)"
  have "length ?rs = length (LimitProbeTargetsForRun (batch_targets (due m now)))"
    by (simp add: stamp_rounds_def length_ProbeTargets)
  then have "?rs \<noteq> []" using assms(2) Limit_empty_iff by (metis length_0_conv)
  moreover have "0 \<le> version m" using assms(1) by (simp add: manager_inv_def)
  ultimately have "commonProbeConfigVersion ?rs = Inr (version m)"
    by (intro commonProbeConfigVersion_uniform) (auto simp: stamp_rounds_def)
  then show ?thesis using \<open>?rs \<noteq> []\<close> by (simp add: marshalProbeResults_def)
qed

text \<open>The cases of a cycle that got past the gate.\<close>

lemma runDueProbes_cases:
  assumes "runDueProbes env m s = Some (err, m', t)"
  obtains (refused) e where "err = Some (BeginFailed e)" "m' = m" "t = s"
  | (idle) "err = None" "m' = endRun (m\<lparr>runGate := False\<rparr>)" "t = s"
  | (dropped) "t = s" "m' = endRun (cy_during env (m\<lparr>runGate := False\<rparr>))"
  | (failed) se rounds e where "err = Some (PersistFailed e)" "cy_spool env = Some se"
      "Enqueue (cy_codec env) (cy_limits env) se rounds s = (Inl e, t)"
      "m' = endRun (cy_during env (m\<lparr>runGate := False\<rparr>))"
  | (stored) se ident where "err = None" "cy_spool env = Some se"
      "batch_targets (due m (cy_now env)) \<noteq> []"
      "Enqueue (cy_codec env) (cy_limits env) se (stamp_rounds (due m (cy_now env))
         (ProbeTargets (cy_rounds env) (batch_targets (due m (cy_now env))) (cy_now env))) s = (Inr ident, t)"
      "m' = endRun (snd (markCompleted (cy_after env (cy_during env (m\<lparr>runGate := False\<rparr>))) (due m (cy_now env)) (cy_marked env)))"
proof (cases "cy_ctx_wins env")
  case True
  then show ?thesis using assms refused by (auto simp: runDueProbes_def beginRun_def)
next
  case False
  let ?m1 = "m\<lparr>runGate := False\<rparr>"
  have d: "due ?m1 (cy_now env) = due m (cy_now env)" by (simp add: due_def)
  have gate: "runGate m" using assms False by (auto simp: runDueProbes_def beginRun_def split: if_splits)
  consider "batch_targets (due m (cy_now env)) = []"
    | "batch_targets (due m (cy_now env)) \<noteq> []" "\<not> isCurrent (cy_during env ?m1) (due m (cy_now env)) \<or> cy_spool env = None"
    | se where "batch_targets (due m (cy_now env)) \<noteq> []" "isCurrent (cy_during env ?m1) (due m (cy_now env))" "cy_spool env = Some se"
    by (cases "cy_spool env") auto
  then show ?thesis
  proof cases
    case 1
    then show ?thesis using assms False gate d idle by (auto simp: runDueProbes_def beginRun_def Let_def)
  next
    case 2
    then show ?thesis using assms False gate d dropped by (auto simp: runDueProbes_def beginRun_def Let_def split: if_splits)
  next
    case (3 se)
    let ?rs = "stamp_rounds (due m (cy_now env)) (ProbeTargets (cy_rounds env) (batch_targets (due m (cy_now env))) (cy_now env))"
    obtain r u where enq: "Enqueue (cy_codec env) (cy_limits env) se ?rs s = (r, u)" by fastforce
    show ?thesis
    proof (cases r)
      case (Inl e)
      then show ?thesis
        using assms False gate d 3 enq by (intro failed [of e se ?rs]) (auto simp: runDueProbes_def beginRun_def Let_def)
    next
      case (Inr ident)
      then show ?thesis
        using assms False gate d 3 enq by (intro stored [of se ident]) (auto simp: runDueProbes_def beginRun_def Let_def)
    qed
  qed
qed

subsection \<open>Properties\<close>


definition example_cycle :: cycle_env where
  "example_cycle = \<lparr>cy_ctx_wins = False, cy_now = 1000, cy_marked = 2000,
     cy_rounds = \<lparr>re_world = (\<lambda>_. example_world), re_sha256 = (\<lambda>b. b), re_random = (\<lambda>_. Some ''r''), re_counter = (\<lambda>_. 0)\<rparr>,
     cy_codec = demo_codec, cy_limits = DefaultProbeSpoolLimits, cy_spool = Some example_env,
     cy_during = (\<lambda>m. m), cy_after = (\<lambda>m. m)\<rparr>"


end
