(* ===== verification/Agent_Client.thy ===== *)
theory Agent_Client
  imports Go_URL Probe_Round
begin

text \<open>
  The Controller client (\<open>internal/agent/client.go\<close>): the rules on the Controller URL, one request with
  the bearer token, and the calls built on it. A definition that may send returns its result and the
  requests it sent, so that what leaves the process is part of the model. \<open>url.Parse\<close>, \<open>net.ParseIP\<close>,
  \<open>json.Marshal\<close> and the network are parameters.
\<close>

record Client =
  baseURL :: string
  nodeID :: string
  token :: string
  allowInsecureHTTP :: bool
  has_http :: bool

datatype client_error =
    NotConfigured
  | InvalidURL
  | CredentialsInURL
  | RemoteNeedsHTTPS
  | UnsupportedScheme
  | MarshalFailed
  | RequestFailed
  | TransportFailed bool                \<comment> \<open>whether the error is an expired deadline\<close>
  | AgentAPIStatusError string string int
  | ResponseTooLarge
  | DecodeFailed
  | VersionsRejected version_error

definition maxAgentAPIJSONBodyBytes :: nat where "maxAgentAPIJSONBodyBytes = 1048576"

definition TrimRight :: "string \<Rightarrow> string \<Rightarrow> string" where
  "TrimRight s cutset = rev (dropWhile (\<lambda>ch. ch \<in> set cutset) (rev s))"

definition NewClientWithOptions :: "string \<Rightarrow> string \<Rightarrow> string \<Rightarrow> bool \<Rightarrow> Client" where
  "NewClientWithOptions url node tok allow =
     \<lparr>baseURL = TrimRight url ''/'', nodeID = TrimSpace node, token = TrimSpace tok,
      allowInsecureHTTP = allow, has_http = True\<rparr>"

definition NewClient :: "string \<Rightarrow> string \<Rightarrow> string \<Rightarrow> Client" where
  "NewClient url node tok = NewClientWithOptions url node tok False"

subsection \<open>The Controller URL\<close>

record url_env =
  ue_Parse :: "string \<Rightarrow> URL option"
  ue_ParseIP :: "string \<Rightarrow> Addr option"

definition ValidateControllerURLWithOptions :: "url_env \<Rightarrow> string \<Rightarrow> bool \<Rightarrow> client_error option" where
  "ValidateControllerURLWithOptions env base allow =
     (case ue_Parse env (TrimSpace base) of
        None \<Rightarrow> Some InvalidURL
      | Some parsed \<Rightarrow>
          if url_Host parsed = [] \<or> url_Hostname parsed = [] then Some InvalidURL
          else if url_User parsed \<or> url_RawQuery parsed \<noteq> [] \<or> url_Fragment parsed \<noteq> [] then Some CredentialsInURL
          else if ToLower (url_Scheme parsed) = ''https'' then None
          else if ToLower (url_Scheme parsed) = ''http'' then
            (let hostname = TrimSuffix (ToLower (url_Hostname parsed)) ''.'' in
             if hostname = ''localhost'' then None
             else if (case ue_ParseIP env hostname of None \<Rightarrow> False | Some a \<Rightarrow> IsLoopback a) then None
             else if allow \<and> ue_ParseIP env hostname \<noteq> None \<and>
                     (case Atoi (url_Port parsed) of None \<Rightarrow> False | Some port \<Rightarrow> port \<ge> 1 \<and> port \<le> 65535) then None
             else Some RemoteNeedsHTTPS)
          else Some UnsupportedScheme)"

definition ValidateControllerURL :: "url_env \<Rightarrow> string \<Rightarrow> client_error option" where
  "ValidateControllerURL env base = ValidateControllerURLWithOptions env base False"

definition PresenceWebSocketURL :: "url_env \<Rightarrow> Client \<Rightarrow> client_error + string" where
  "PresenceWebSocketURL env c =
     (case ValidateControllerURLWithOptions env (baseURL c) (allowInsecureHTTP c) of
        Some e \<Rightarrow> Inl e
      | None \<Rightarrow>
          (case ue_Parse env (baseURL c) of
             None \<Rightarrow> Inl InvalidURL
           | Some parsed \<Rightarrow>
               let rest = ''://'' @ url_HostText parsed @ ''/api/agent/v1/presence/ws'' @
                 (if url_ForceQuery parsed then ''?'' else [])
               in if url_Scheme parsed = ''http'' then Inr (''ws'' @ rest)
                  else if url_Scheme parsed = ''https'' then Inr (''wss'' @ rest)
                  else Inl UnsupportedScheme))"

subsection \<open>One request\<close>

record http_request =
  req_Method :: string
  req_URL :: string
  req_Header :: "(string \<times> string) list"
  req_Body :: "string option"

datatype http_reply =
    DoFailed bool                              \<comment> \<open>whether the error is an expired deadline\<close>
  | Reply int "(string \<times> string) list" string bool  \<comment> \<open>status, header, body, whether reading the body fails\<close>

definition setAuthHeaders :: "Client \<Rightarrow> (string \<times> string) list" where
  "setAuthHeaders c = [(''X-Node-ID'', nodeID c), (''Authorization'', ''Bearer '' @ token c)]"

record client_env = url_env +
  ce_NewRequest :: bool                        \<comment> \<open>\<open>http.NewRequestWithContext\<close> succeeds\<close>
  ce_Do :: "http_request \<Rightarrow> http_reply"

text \<open>
  \<open>requestValue\<close> is \<open>None\<close> for a call without body, \<open>Some None\<close> when \<open>json.Marshal\<close> fails; \<open>decode\<close> is
  \<open>json.Unmarshal\<close> into the response value, \<open>None\<close> when the caller wants none.
\<close>

definition doJSON ::
  "client_env \<Rightarrow> Client \<Rightarrow> string \<Rightarrow> string \<Rightarrow> string option option \<Rightarrow> (string \<Rightarrow> 'r option) option \<Rightarrow>
   (client_error + 'r option) \<times> http_request list" where
  "doJSON env c httpMethod path requestValue decode =
     (if baseURL c = [] \<or> nodeID c = [] \<or> token c = [] then (Inl NotConfigured, [])
      else case ValidateControllerURLWithOptions (url_env.truncate env) (baseURL c) (allowInsecureHTTP c) of
        Some e \<Rightarrow> (Inl e, [])
      | None \<Rightarrow>
          if requestValue = Some None then (Inl MarshalFailed, [])
          else if \<not> ce_NewRequest env then (Inl RequestFailed, [])
          else
            let req = \<lparr>req_Method = httpMethod, req_URL = baseURL c @ path,
                  req_Header = setAuthHeaders c @ (if requestValue = None then [] else [(''Content-Type'', ''application/json'')]),
                  req_Body = (case requestValue of None \<Rightarrow> None | Some b \<Rightarrow> b)\<rparr>
            in (case ce_Do env req of
                  DoFailed timeout \<Rightarrow> Inl (TransportFailed timeout)
                | Reply status header body readFails \<Rightarrow>
                    if status < 200 \<or> status \<ge> 300 then Inl (AgentAPIStatusError httpMethod path status)
                    else case decode of
                      None \<Rightarrow> Inr None
                    | Some dec \<Rightarrow>
                        if readFails then Inl (TransportFailed False)
                        else if length body > maxAgentAPIJSONBodyBytes then Inl ResponseTooLarge
                        else case dec body of None \<Rightarrow> Inl DecodeFailed | Some r \<Rightarrow> Inr (Some r),
                [req]))"

definition IsAgentAPIStatus :: "client_error \<Rightarrow> int \<Rightarrow> bool" where
  "IsAgentAPIStatus err statusCode = (case err of AgentAPIStatusError _ _ code \<Rightarrow> code = statusCode | _ \<Rightarrow> False)"

definition PostProbeResults ::
  "client_env \<Rightarrow> (ProbeResultsRequest \<Rightarrow> string option) \<Rightarrow> Client \<Rightarrow> ProbeRound list \<Rightarrow>
   (client_error + unit option) \<times> http_request list" where
  "PostProbeResults env marshal c rounds =
     (case commonProbeConfigVersion rounds of
        Inl e \<Rightarrow> (Inl (VersionsRejected e), [])
      | Inr configVersion \<Rightarrow>
          doJSON env c ''POST'' ''/api/agent/v1/probe-results''
            (Some (marshal \<lparr>request_ConfigVersion = configVersion, request_Rounds = map round_payload rounds\<rparr>)) None)"

subsection \<open>Where the token may go\<close>

text \<open>
  The transport a Controller URL promises: HTTPS, or plain HTTP to this machine, or, when the operator
  opted in, plain HTTP to an IP literal with an explicit port.
\<close>

definition secure_transport :: "url_env \<Rightarrow> bool \<Rightarrow> URL \<Rightarrow> bool" where
  "secure_transport env allow u \<longleftrightarrow>
     (let host = TrimSuffix (ToLower (url_Hostname u)) ''.'' in
      ToLower (url_Scheme u) = ''https'' \<or>
      ToLower (url_Scheme u) = ''http'' \<and>
        (host = ''localhost'' \<or>
         (\<exists>a. ue_ParseIP env host = Some a \<and>
            (IsLoopback a \<or> allow \<and> (\<exists>port. Atoi (url_Port u) = Some port \<and> 1 \<le> port \<and> port \<le> 65535)))))"

lemma Validate_iff:
  "ValidateControllerURLWithOptions env base allow = None \<longleftrightarrow>
     (\<exists>u. ue_Parse env (TrimSpace base) = Some u \<and> url_Host u \<noteq> [] \<and> url_Hostname u \<noteq> [] \<and> \<not> url_User u \<and>
        url_RawQuery u = [] \<and> url_Fragment u = [] \<and> secure_transport env allow u)"
  by (auto simp: ValidateControllerURLWithOptions_def secure_transport_def Let_def split: option.splits)

lemma doJSON_sent:
  assumes "doJSON env c m path body decode = (r, sent)" "req \<in> set sent"
  shows "ValidateControllerURLWithOptions (url_env.truncate env) (baseURL c) (allowInsecureHTTP c) = None"
    "sent = [req]" "req_URL req = baseURL c @ path" "set (setAuthHeaders c) \<subseteq> set (req_Header req)"
    "nodeID c \<noteq> []" "token c \<noteq> []"
  using assms by (auto simp: doJSON_def Let_def split: if_splits option.splits)

lemma doJSON_ok:
  assumes "doJSON env c m path body decode = (Inr r, sent)"
  obtains req status hdr reply_body readFails where "sent = [req]" "ce_Do env req = Reply status hdr reply_body readFails"
    "200 \<le> status" "status < 300" "decode \<noteq> None \<longrightarrow> length reply_body \<le> 1048576"
  using assms
  by (auto simp: doJSON_def Let_def maxAgentAPIJSONBodyBytes_def split: if_splits option.splits http_reply.splits)

subsection \<open>Properties\<close>


definition plain_env :: client_env where
  "plain_env = \<lparr>ue_Parse = (\<lambda>_. Some \<lparr>url_Scheme = ''https'', url_Host = ''c'', url_Hostname = ''c'', url_Port = [],
     url_User = False, url_RawQuery = [], url_Fragment = [], url_ForceQuery = False, url_HostText = ''c''\<rparr>),
     ue_ParseIP = (\<lambda>_. None), ce_NewRequest = True, ce_Do = (\<lambda>_. Reply 204 [] [] False)\<rparr>"


text \<open>A call succeeds only on a 2xx answer, and decodes at most one mebibyte of it.\<close>

theorem success_means_2xx:
  assumes "doJSON env c httpMethod path body decode = (Inr r, sent)"
  shows "\<exists>req status hdr reply_body readFails. sent = [req] \<and> ce_Do env req = Reply status hdr reply_body readFails \<and>
    200 \<le> status \<and> status < 300 \<and> (decode = None \<or> length reply_body \<le> 1048576)"
  using doJSON_ok [OF assms] by metis

theorem success_means_2xx_witness:
  "\<exists>req. ce_Do plain_env req = Reply 204 [] [] False \<and>
     doJSON plain_env \<lparr>baseURL = ''https://c'', nodeID = ''n1'', token = ''t'', allowInsecureHTTP = False, has_http = True\<rparr>
       ''POST'' ''/x'' (Some (Some ''{}'')) (None :: (string \<Rightarrow> unit option) option) = (Inr None, [req])"
proof -
  let ?c = "\<lparr>baseURL = ''https://c'', nodeID = ''n1'', token = ''t'', allowInsecureHTTP = False, has_http = True\<rparr> :: Client"
  obtain sent where d: "doJSON plain_env ?c ''POST'' ''/x'' (Some (Some ''{}'')) (None :: (string \<Rightarrow> unit option) option) = (Inr None, sent)"
    by (simp add: doJSON_def plain_env_def ValidateControllerURLWithOptions_def url_env.truncate_def Let_def ascii_lower_def)
  then show ?thesis using success_means_2xx [OF d] by (auto simp: plain_env_def)
qed

end
