(* ===== verification/Backoff.thy ===== *)
theory Backoff
  imports Agent_Prelude
begin

text \<open>
  Capped doubling, the interface behind the two back-offs of the agent: the upload retries
  (\<open>probeUploadBackoff\<close>) and the presence reconnects (\<open>runPresenceLoop\<close>). A step doubles a delay up to a
  cap; iterating it gives the closed form both components rely on.
\<close>

locale capped_doubling =
  fixes step :: "duration \<Rightarrow> duration" and cap :: duration
  assumes step_eq: "0 < d \<Longrightarrow> d \<le> cap \<Longrightarrow> step d = min (d * 2) cap"
begin

lemma step_range: "0 < d \<Longrightarrow> d \<le> cap \<Longrightarrow> d \<le> step d \<and> step d \<le> cap"
  by (simp add: step_eq)

lemma iterate_eq: "0 < d \<Longrightarrow> d \<le> cap \<Longrightarrow> (step ^^ n) d = min (d * 2 ^ n) cap"
proof (induction n)
  case (Suc n)
  let ?m = "min (d * 2 ^ n) cap"
  have "0 < ?m" "?m \<le> cap" using Suc.prems by auto
  then have "step ?m = min (?m * 2) cap" by (rule step_eq)
  also have "\<dots> = min (d * 2 ^ Suc n) cap" using Suc.prems by (auto simp: min_def)
  finally show ?case using Suc by simp
qed simp

lemma iterate_range: "0 < d \<Longrightarrow> d \<le> cap \<Longrightarrow> d \<le> (step ^^ n) d \<and> (step ^^ n) d \<le> cap"
proof -
  assume d: "0 < d" "d \<le> cap"
  have "d * 1 \<le> d * 2 ^ n" by (intro mult_left_mono) (use d in simp_all)
  then show ?thesis using d by (simp add: iterate_eq)
qed

lemma iterate_mono: "0 < d \<Longrightarrow> d \<le> cap \<Longrightarrow> n \<le> m \<Longrightarrow> (step ^^ n) d \<le> (step ^^ m) d"
proof -
  assume d: "0 < d" "d \<le> cap" "n \<le> m"
  have "d * 2 ^ n \<le> d * 2 ^ m" using d by (intro mult_left_mono power_increasing) simp_all
  then have "min (d * 2 ^ n) cap \<le> min (d * 2 ^ m) cap" by (rule min.mono) simp
  then show ?thesis using d by (simp only: iterate_eq)
qed

end

end
