(* ===== verification/Probe_Uploader.thy ===== *)
theory Probe_Uploader
  imports Spool_Durability Agent_Client Safe_Resolver Backoff
begin

text \<open>
  The durable uploader (\<open>internal/agent/probe_uploader.go\<close>): back-off, \<open>Retry-After\<close>, one upload and the
  run loop. The network, the clock, the jitter hook and the context are inputs; the state is the spool.
\<close>

subsection \<open>Back-off\<close>

definition maxProbeUploadBackoff :: duration where
  [go_eval, time_defs]: "maxProbeUploadBackoff = 5 * Minute"

definition defaultProbeUploadPolling :: duration where
  [go_eval, time_defs]: "defaultProbeUploadPolling = Second"

fun backoff_loop :: "nat \<Rightarrow> duration \<Rightarrow> duration" where
  "backoff_loop steps delay =
     (if steps = 0 then (if delay > maxProbeUploadBackoff then maxProbeUploadBackoff else delay)
      else if delay \<ge> go_div maxProbeUploadBackoff 2 then maxProbeUploadBackoff
      else backoff_loop (steps - 1) (delay * 2))"

declare backoff_loop.simps [simp del]

definition probeUploadBackoff :: "32 word \<Rightarrow> duration" where
  "probeUploadBackoff attempt0 =
     (let attempt = (if attempt0 = 0 then 1 else attempt0) in backoff_loop (unat attempt - 1) Second)"

definition allASCIIDigits :: "string \<Rightarrow> bool" where
  "allASCIIDigits s \<longleftrightarrow> s \<noteq> [] \<and> list_all is_digit s"

text \<open>\<open>http.ParseTime\<close> is the parameter \<open>parse_time\<close>.\<close>

definition parseProbeRetryAfter :: "(string \<Rightarrow> instant option) \<Rightarrow> string \<Rightarrow> instant \<Rightarrow> duration \<times> bool" where
  "parseProbeRetryAfter parse_time text now =
     (let v = TrimSpace text in
      if v = [] then (0, False)
      else case ParseInt v of
        Some seconds \<Rightarrow>
          if seconds < 0 then (0, False)
          else
            let delay = wrap64 (seconds * Second) in
            if seconds > go_div maxProbeUploadBackoff Second \<or> delay > maxProbeUploadBackoff
            then (maxProbeUploadBackoff, True) else (delay, True)
      | None \<Rightarrow>
          if allASCIIDigits v then (maxProbeUploadBackoff, True)
          else case parse_time v of
            None \<Rightarrow> (0, False)
          | Some when \<Rightarrow>
              let delay = time_sub when now;
                  delay1 = (if delay < 0 then 0 else delay);
                  delay2 = (if delay1 > maxProbeUploadBackoff then maxProbeUploadBackoff else delay1)
              in (delay2, True))"

definition isRetryableProbeUploadStatus :: "int \<Rightarrow> bool" where
  "isRetryableProbeUploadStatus status \<longleftrightarrow> status = 408 \<or> status = 429 \<or> (status \<ge> 500 \<and> status \<le> 599)"

text \<open>\<open>randomProbeUploadJitter\<close>: \<open>draw\<close> is the random number below the given bound, \<open>None\<close> on failure.\<close>

definition randomProbeUploadJitter :: "(int \<Rightarrow> int option) \<Rightarrow> duration \<Rightarrow> duration" where
  "randomProbeUploadJitter draw limit =
     (if limit \<le> 0 then 0 else case draw (limit + 1) of None \<Rightarrow> limit | Some v \<Rightarrow> v)"

subsection \<open>One upload\<close>

datatype upload_error =
    ContextError ctx_err
  | NoSpoolOrClient
  | SpoolReadFailed spool_error
  | ProbeUploadRetryError int "32 word" instant bool
  | PersistRetryFailed spool_error
  | AckFailed spool_error
  | QuarantineFailed int spool_error
  | ProbeUploadStaleError int
  | ProbeUploadRoundConflictError
  | RejectedStatus int

record upload_env =
  ux_codec :: codec
  ux_limits :: ProbeSpoolLimits
  ux_net :: client_env
  ux_client :: Client
  ux_ready :: bool                       \<comment> \<open>spool and client are both set\<close>
  ux_spool :: spool_env                  \<comment> \<open>clock and random text of the spool\<close>
  ux_now :: instant
  ux_jitter :: "duration \<Rightarrow> duration"
  ux_ctx_call :: ctx                     \<comment> \<open>\<open>ctx.Err()\<close> at the call, after the lock, after the request\<close>
  ux_ctx_locked :: ctx
  ux_ctx_posted :: ctx
  ux_parse_time :: "string \<Rightarrow> instant option"
  ux_error_field :: "string \<Rightarrow> string option"   \<comment> \<open>\<open>json.Unmarshal\<close> of the \<open>error\<close> field\<close>

definition header_get :: "(string \<times> string) list \<Rightarrow> string \<Rightarrow> string" where
  "header_get header name = (case map_of header name of None \<Rightarrow> [] | Some v \<Rightarrow> v)"

datatype post_result = PostFailed bool | Posted int string string

text \<open>\<open>postBody\<close>; the second component is the request sent, if one was.\<close>

definition postBody :: "upload_env \<Rightarrow> string \<Rightarrow> post_result \<times> http_request list" where
  "postBody u body =
     (let c = ux_client u; env = ux_net u in
      if baseURL c = [] \<or> nodeID c = [] \<or> token c = [] then (PostFailed False, [])
      else if ValidateControllerURLWithOptions (url_env.truncate env) (baseURL c) (allowInsecureHTTP c) \<noteq> None
        then (PostFailed False, [])
      else if \<not> ce_NewRequest env then (PostFailed False, [])
      else if \<not> has_http c then (PostFailed False, [])
      else
        let req = \<lparr>req_Method = ''POST'', req_URL = baseURL c @ ''/api/agent/v1/probe-results'',
              req_Header = setAuthHeaders c @ [(''Content-Type'', ''application/json'')], req_Body = Some body\<rparr>
        in (case ce_Do env req of
              DoFailed timeout \<Rightarrow> PostFailed timeout
            | Reply status header reply readFails \<Rightarrow>
                if readFails then PostFailed False
                else
                  let responseCode =
                    (if length reply \<le> 4096 \<and> status = 409 then
                       (case ux_error_field u reply of
                          Some e \<Rightarrow> if e = ''stale_probe_config'' \<or> e = ''probe_round_conflict'' then e else []
                        | None \<Rightarrow> [])
                     else [])
                  in Posted status (header_get header ''Retry-After'') responseCode,
            [req]))"

definition retry_delay :: "upload_env \<Rightarrow> string \<Rightarrow> 32 word \<Rightarrow> duration" where
  "retry_delay u retryAfter attempt =
     (let (delay, valid) = parseProbeRetryAfter (ux_parse_time u) retryAfter (ux_now u) in
      if valid then delay
      else let limit = probeUploadBackoff attempt; d = ux_jitter u limit; d1 = (if d < 0 then 0 else d)
           in if d1 > limit then limit else d1)"

definition next_attempt :: "32 word \<Rightarrow> 32 word" where
  "next_attempt a = (if a \<noteq> NOT 0 then a + 1 else a)"

definition scheduleRetry ::
  "upload_env \<Rightarrow> ProbeSpoolItem \<Rightarrow> string \<Rightarrow> int \<Rightarrow> bool \<Rightarrow> spool_fs \<Rightarrow> upload_error \<times> spool_fs" where
  "scheduleRetry u item retryAfter status timedOut s =
     (let attempt = next_attempt (item_Attempt item);
          nextAt = ux_now u + retry_delay u retryAfter attempt
      in case ScheduleRetry (ux_codec u) (ux_limits u) (ux_spool u) (item_ID item) attempt nextAt s of
           (Inl e, t) \<Rightarrow> (PersistRetryFailed e, t)
         | (Inr _, t) \<Rightarrow> (ProbeUploadRetryError status attempt nextAt timedOut, t))"

definition reject_reason :: "int \<Rightarrow> string \<Rightarrow> string" where
  "reject_reason status responseCode =
     ''http-'' @ Itoa status @
     (if status = 409 \<and> (responseCode = ''stale_probe_config'' \<or> responseCode = ''probe_round_conflict'')
      then ''-'' @ responseCode else [])"

definition reject_error :: "int \<Rightarrow> string \<Rightarrow> upload_error" where
  "reject_error status responseCode =
     (if status = 409 \<and> responseCode = ''stale_probe_config'' then ProbeUploadStaleError status
      else if status = 409 \<and> responseCode = ''probe_round_conflict'' then ProbeUploadRoundConflictError
      else RejectedStatus status)"

text \<open>What happens to the item once the request is over.\<close>

definition settle :: "upload_env \<Rightarrow> ProbeSpoolItem \<Rightarrow> post_result \<Rightarrow> spool_fs \<Rightarrow> upload_error option \<times> spool_fs" where
  "settle u item r s =
     (case r of
        PostFailed timeout \<Rightarrow>
          if ux_ctx_posted u = Some Canceled then (Some (ContextError Canceled), s)
          else
            (let (e, t) = scheduleRetry u item [] 0 (timeout \<or> ux_ctx_posted u = Some DeadlineExceeded) s
             in (Some e, t))
      | Posted status retryAfter responseCode \<Rightarrow>
          if status \<ge> 200 \<and> status < 300 then
            (case Ack (item_ID item) s of (Inl e, t) \<Rightarrow> (Some (AckFailed e), t) | (Inr _, t) \<Rightarrow> (None, t))
          else if isRetryableProbeUploadStatus status then
            (let (e, t) = scheduleRetry u item retryAfter status False s in (Some e, t))
          else
            (case Quarantine (ux_limits u) (item_ID item) (reject_reason status responseCode) s of
               (Inl e, t) \<Rightarrow> (Some (QuarantineFailed status e), t)
             | (Inr _, t) \<Rightarrow> (Some (reject_error status responseCode), t)))"

definition uploadOne :: "upload_env \<Rightarrow> spool_fs \<Rightarrow> (bool \<times> upload_error option) \<times> spool_fs" where
  "uploadOne u s =
     (case ux_ctx_call u of
        Some e \<Rightarrow> ((False, Some (ContextError e)), s)
      | None \<Rightarrow>
          (case ux_ctx_locked u of
             Some e \<Rightarrow> ((False, Some (ContextError e)), s)
           | None \<Rightarrow>
               if \<not> ux_ready u then ((False, Some NoSpoolOrClient), s)
               else
                 (case Next (ux_codec u) (ux_limits u) (ux_now u) s of
                    (Inl e, t) \<Rightarrow> ((False, Some (SpoolReadFailed e)), t)
                  | (Inr None, t) \<Rightarrow> ((False, None), t)
                  | (Inr (Some item), t) \<Rightarrow>
                      (let (e, t') = settle u item (fst (postBody u (item_Body item))) t in ((True, e), t')))))"

definition UploadOne :: "upload_env \<Rightarrow> spool_fs \<Rightarrow> upload_error option \<times> spool_fs" where
  "UploadOne u s = (let ((worked, e), t) = uploadOne u s in (e, t))"

subsection \<open>The run loop\<close>

text \<open>\<open>errors.As\<close> against \<open>*AgentAPIStatusError\<close> and against \<open>*ProbeUploadRetryError\<close>.\<close>

fun is_status_error :: "upload_error \<Rightarrow> bool" where
  "is_status_error (RejectedStatus status) = True"
| "is_status_error (ProbeUploadStaleError status) = True"
| "is_status_error ProbeUploadRoundConflictError = True"
| "is_status_error (ProbeUploadRetryError status attempt nextAt timeout) \<longleftrightarrow> status \<noteq> 0"
| "is_status_error _ = False"

fun is_retry_error :: "upload_error \<Rightarrow> bool" where
  "is_retry_error (ProbeUploadRetryError status attempt nextAt timeout) = True"
| "is_retry_error _ = False"

datatype run_decision =
    Stop upload_error
  | Again "upload_error option"       \<comment> \<open>continue at once; the rejection reported to \<open>onRejected\<close>\<close>
  | Wait "upload_error option"        \<comment> \<open>sleep until the poll timer, a signal or the context\<close>

text \<open>One pass of the loop up to the wait; \<open>ctx_after\<close> is \<open>ctx.Err()\<close> after \<open>uploadOne\<close>.\<close>

definition run_pass :: "upload_env \<Rightarrow> ctx \<Rightarrow> spool_fs \<Rightarrow> run_decision \<times> spool_fs" where
  "run_pass u ctx_after s =
     (let ((worked, err), t) = uploadOne u s;
          rejected = (case err of Some e \<Rightarrow> if is_retry_error e then None else Some e | None \<Rightarrow> None)
      in (case ctx_after of
            Some e \<Rightarrow> Stop (ContextError e)
          | None \<Rightarrow>
              (case err of
                 Some e \<Rightarrow>
                   if \<not> is_status_error e \<and> \<not> is_retry_error e then Stop e
                   else if worked then Again rejected else Wait rejected
               | None \<Rightarrow> if worked then Again rejected else Wait rejected),
          t))"

text \<open>
  The loop on a script of passes: each entry gives the environment of a pass, the context after it, and
  how a wait ends (a received signal empties the channel). The result is the error that ended the loop,
  or \<open>None\<close> when the script ends first; the rejections reported are collected in order.
\<close>

datatype wait_end = Cancelled ctx_err | Signalled | TimerFired

definition report :: "upload_error option \<Rightarrow> upload_error list \<Rightarrow> upload_error list" where
  "report rej rs = (case rej of None \<Rightarrow> rs | Some r \<Rightarrow> r # rs)"

fun run_loop ::
  "(upload_env \<times> ctx \<times> wait_end) list \<Rightarrow> spool_fs \<Rightarrow> (upload_error option \<times> upload_error list) \<times> spool_fs" where
  "run_loop [] s = ((None, []), s)"
| "run_loop ((u, ctx_after, wake) # passes) s =
     (case run_pass u ctx_after s of
        (Stop e, t) \<Rightarrow> ((Some e, []), t)
      | (Again rej, t) \<Rightarrow> (let ((e, rs), t') = run_loop passes t in ((e, report rej rs), t'))
      | (Wait rej, t) \<Rightarrow>
          (case wake of
             Cancelled e \<Rightarrow> ((Some (ContextError e), report rej []), t)
           | Signalled \<Rightarrow> (let ((e, rs), t') = run_loop passes (t\<lparr>notify := False\<rparr>) in ((e, report rej rs), t'))
           | TimerFired \<Rightarrow> (let ((e, rs), t') = run_loop passes t in ((e, report rej rs), t'))))"

subsection \<open>Back-off and Retry-After\<close>

definition upload_step :: "duration \<Rightarrow> duration" where
  "upload_step delay = (if delay \<ge> go_div maxProbeUploadBackoff 2 then maxProbeUploadBackoff else delay * 2)"

interpretation upb: capped_doubling upload_step maxProbeUploadBackoff
  by unfold_locales (simp add: upload_step_def time_defs)

text \<open>The loop is the iterated step: leaving it early at the cap changes nothing.\<close>

lemma upload_step_cap: "(upload_step ^^ n) maxProbeUploadBackoff = maxProbeUploadBackoff"
  using upb.iterate_range [of maxProbeUploadBackoff n] by (simp add: time_defs)

lemma backoff_loop_iterate:
  "0 < d \<Longrightarrow> d \<le> maxProbeUploadBackoff \<Longrightarrow> backoff_loop n d = (upload_step ^^ n) d"
proof (induction n d rule: backoff_loop.induct)
  case (1 n d)
  show ?case
  proof (cases n)
    case 0
    then show ?thesis using "1.prems" by (subst backoff_loop.simps) simp
  next
    case (Suc k)
    show ?thesis
    proof (cases "d \<ge> go_div maxProbeUploadBackoff 2")
      case True
      then have "(upload_step ^^ n) d = (upload_step ^^ k) maxProbeUploadBackoff"
        using Suc by (simp add: funpow_swap1 upload_step_def [of d])
      then show ?thesis using True Suc upload_step_cap by (subst backoff_loop.simps) simp
    next
      case False
      then have "d * 2 \<le> maxProbeUploadBackoff" by (simp add: time_defs)
      then have "backoff_loop k (d * 2) = (upload_step ^^ k) (d * 2)"
        using "1.IH" False "1.prems" Suc by simp
      then show ?thesis using False Suc by (subst backoff_loop.simps) (simp add: funpow_swap1 upload_step_def [of d])
    qed
  qed
qed

lemma backoff_loop_eq:
  "0 < d \<Longrightarrow> d \<le> maxProbeUploadBackoff \<Longrightarrow> backoff_loop n d = min (d * 2 ^ n) maxProbeUploadBackoff"
  by (simp add: backoff_loop_iterate upb.iterate_eq)

lemma probeUploadBackoff_eq:
  "probeUploadBackoff a = min (Second * 2 ^ (unat a - 1)) (300 * Second)"
proof -
  have "probeUploadBackoff a = backoff_loop (unat a - 1) Second"
    by (simp add: probeUploadBackoff_def Let_def)
  also have "\<dots> = min (Second * 2 ^ (unat a - 1)) maxProbeUploadBackoff"
    by (rule backoff_loop_eq) (simp_all add: time_defs)
  finally show ?thesis by (simp add: time_defs)
qed

lemma backoff_bounds: "Second \<le> probeUploadBackoff a" "probeUploadBackoff a \<le> 300 * Second"
proof -
  have "Second * 1 \<le> Second * 2 ^ (unat a - 1)" by (intro mult_left_mono) (simp_all add: time_defs)
  then show "Second \<le> probeUploadBackoff a" unfolding probeUploadBackoff_eq by (simp add: time_defs)
qed (simp add: probeUploadBackoff_eq)

lemma wrap_seconds: "0 \<le> n \<Longrightarrow> n \<le> 300 \<Longrightarrow> wrap64 (n * Second) = n * Second"
  by (rule wrap64_id) (simp add: fits64_def minInt64_def maxInt64_def time_defs)

lemma retryAfter_bounds:
  assumes "parseProbeRetryAfter pt v now = (d, valid)"
  shows "0 \<le> d \<and> d \<le> 300 * Second"
proof -
  have cap: "maxProbeUploadBackoff = 300 * Second" "go_div maxProbeUploadBackoff Second = 300" "0 \<le> Second"
    by (simp_all add: time_defs)
  consider "TrimSpace v = []" | n where "TrimSpace v \<noteq> []" "ParseInt (TrimSpace v) = Some n"
    | "TrimSpace v \<noteq> []" "ParseInt (TrimSpace v) = None" by (cases "ParseInt (TrimSpace v)") auto
  then show ?thesis
  proof cases
    case 1
    then show ?thesis using assms cap by (simp add: parseProbeRetryAfter_def)
  next
    case (2 n)
    show ?thesis
    proof (cases "0 \<le> n \<and> n \<le> 300")
      case True
      then have "n * Second \<le> 300 * Second" "0 \<le> n * Second" using cap(3) by (simp_all add: mult_right_mono)
      then show ?thesis
        using assms 2 True wrap_seconds [of n] by (auto simp: parseProbeRetryAfter_def Let_def cap split: if_splits)
    next
      case False
      then consider "n < 0" | "n > go_div maxProbeUploadBackoff Second" using cap(2) by linarith
      then show ?thesis
      proof cases
        case 2
        then show ?thesis
          using assms \<open>TrimSpace v \<noteq> []\<close> \<open>ParseInt (TrimSpace v) = Some n\<close> cap(1,3)
          by (auto simp: parseProbeRetryAfter_def Let_def split: if_splits)
      qed (use assms 2 cap(3) in \<open>simp add: parseProbeRetryAfter_def\<close>)
    qed
  next
    case 3
    then show ?thesis
      using assms by (auto simp: parseProbeRetryAfter_def Let_def time_defs split: if_splits option.splits)
  qed
qed

lemma retry_delay_bounds: "0 \<le> retry_delay u v a \<and> retry_delay u v a \<le> 300 * Second"
proof -
  obtain d valid where p: "parseProbeRetryAfter (ux_parse_time u) v (ux_now u) = (d, valid)" by fastforce
  show ?thesis
    using retryAfter_bounds [OF p] backoff_bounds [of a] p
    by (auto simp: retry_delay_def Let_def time_defs)
qed

lemma next_attempt_unat: "unat (next_attempt a) = min (unat a + 1) (2 ^ 32 - 1)"
proof (cases "a = NOT 0")
  case True
  then show ?thesis by (simp add: next_attempt_def unsigned_minus_1_eq_mask mask_eq_exp_minus_1)
next
  case False
  have "unat a \<noteq> unat (NOT 0 :: 32 word)" using False word_unat_eq_iff by blast
  moreover have "unat a < 2 ^ 32" by (rule order.strict_trans2 [OF unsigned_less]) simp
  ultimately have "unat a + 1 < 2 ^ 32" by (simp add: unsigned_minus_1_eq_mask mask_eq_exp_minus_1)
  then have "unat (a + 1) = unat a + 1" by (simp add: unat_word_ariths)
  then show ?thesis using False \<open>unat a + 1 < 2 ^ 32\<close> by (simp add: next_attempt_def)
qed

end
