(* ===== verification/Upload_Settle.thy ===== *)
theory Upload_Settle
  imports Probe_Uploader Spool_Properties
begin

text \<open>
  What one upload does to a pending item when no file-system call fails: the item stays as it is, or is
  rescheduled with the same batch, or is removed after a 2xx answer to exactly its bytes, or is moved to
  the quarantine after a terminal answer. No batch is dropped for any other reason.
\<close>

subsection \<open>Calls that cannot fail\<close>

lemma clean_syscall: "faults s = [] \<Longrightarrow> syscall s = (Inr (), s)"
  by (simp add: syscall_def)

lemma clean_sync: "faults s = [] \<Longrightarrow> syncDirectory s = (Inr (), s)"
  by (simp add: syncDirectory_def bindS_def clean_syscall)

lemma clean_remove:
  assumes "kept n y s"
  shows "removeFileAndSync n s = (Inr (), s\<lparr>pending := dir_del n (pending s)\<rparr>)"
  using assms
  by (simp add: kept_def holds_def removeFileAndSync_def bindS_def clean_syscall getS_def del_pending_def modifyS_def clean_sync)

lemma kept_prune: "preserves (kept n y) (pruneQuarantineLocked limits k)"
  unfolding pruneQuarantineLocked_def by (intro kept_rules kept_stat kept_prune_loop)

definition in_quarantine :: "string \<Rightarrow> string \<Rightarrow> string \<Rightarrow> spool_fs \<Rightarrow> bool" where
  "in_quarantine n reason y s \<longleftrightarrow>
     dir_get (quarantine s) (n @ ''.'' @ sanitize_reason reason) = Some (Regular y)"

lemma clean_rename:
  assumes "kept n y s" "dir_ok (quarantine s)"
  shows "(\<exists>e. rename_to_quarantine n dest (Regular y) s = (Inl e, s)) \<or>
    (\<exists>t. rename_to_quarantine n dest (Regular y) s = (Inr (), t) \<and> faults t = [] \<and> gone n t \<and>
       dir_get (quarantine t) dest = Some (Regular y))"
proof -
  have f: "faults s = []" using assms(1) by (simp add: kept_def)
  show ?thesis
  proof (cases "\<exists>b. dir_get (quarantine s) dest = Some (Directory b)")
    case True
    then show ?thesis
      using f by (auto simp: rename_to_quarantine_def bindS_def clean_syscall getS_def failS_def)
  next
    case False
    then show ?thesis
      using f assms(2)
      by (auto simp: rename_to_quarantine_def bindS_def clean_syscall getS_def modifyS_def gone_def
          split: option.splits node.splits)
  qed
qed

lemma clean_quarantine:
  assumes k: "kept n y s" and q: "dir_ok (quarantine s)" and r: "quarantinePathLocked limits n reason s = (r, t)"
  shows "(\<exists>e. r = Inl e \<and> holds n y t) \<or>
    (r = Inr () \<and> gone n t \<and> (int (length y) \<le> MaxQuarantineBytes limits \<longrightarrow> in_quarantine n reason y t))"
proof -
  have ls: "Lstat n s = (Inr (Regular y), s)" using k by (intro Lstat_clean) (simp_all add: kept_def holds_def)
  show ?thesis
  proof (cases "int (length y) > MaxQuarantineBytes limits")
    case True
    then have "quarantinePathLocked limits n reason s = (Inr (), s\<lparr>pending := dir_del n (pending s)\<rparr>)"
      using k by (simp add: quarantinePathLocked_def catchS_def ls clean_remove)
    then show ?thesis using r True by (auto simp: gone_def)
  next
    case False
    obtain p u where p: "pruneQuarantineLocked limits (int (length y)) s = (p, u)" by fastforce
    have ku: "kept n y u" using preserves_result [OF kept_prune k] p by (metis snd_conv)
    have qu: "dir_ok (quarantine u)"
      using triple_result [OF prune_triple [OF q, of "pending s" limits "int (length y)"] _ p] by (auto simp: pruned_def)
    let ?d = "n @ ''.'' @ sanitize_reason reason"
    show ?thesis
    proof (cases p)
      case (Inl e)
      then have "quarantinePathLocked limits n reason s = (Inl e, u)"
        using False p by (simp add: quarantinePathLocked_def catchS_def ls bindS_def)
      then show ?thesis using r ku by (simp add: kept_def)
    next
      case (Inr x)
      have eq: "quarantinePathLocked limits n reason s =
          bindS (rename_to_quarantine n ?d (Regular y)) (\<lambda>_. bindS syscall (\<lambda>_. bindS syncDirectory (\<lambda>_. syncDirectory))) u"
        using False p Inr by (simp add: quarantinePathLocked_def catchS_def ls bindS_def [of "pruneQuarantineLocked _ _"])
      show ?thesis
        using clean_rename [OF ku qu, of ?d] r ku
        by (auto simp: eq bindS_def clean_syscall clean_sync in_quarantine_def kept_def)
    qed
  qed
qed

subsection \<open>Rescheduling\<close>

lemma write_keeps:
  assumes k: "kept n y s" and q: "dir_ok (quarantine s)" and json: "HasSuffix n ''.json''"
    and w: "bindS (atomicWritePrivateFile random n content) (\<lambda>_. signal) s = (r, t)"
  shows "holds n y t \<or> holds n content t"
proof -
  obtain a b where ab: "atomicWritePrivateFile random n content s = (a, b)" by fastforce
  have wf: "wf_spool s" using k q by (simp add: wf_spool_def kept_def)
  have "holds n y b \<or> holds n content b"
    using wf_atomicWrite(2) [OF wf ab] k temp_not_json [OF json, of random]
    by (auto simp: holds_def kept_def)
  moreover have "pending t = pending b"
    using w ab by (auto simp: bindS_def signal_def modifyS_def split: sum.splits)
  ultimately show ?thesis by (simp add: holds_def)
qed

lemma retry_keeps:
  assumes k: "kept n y s" and q: "dir_ok (quarantine s)" and json: "HasSuffix n ''.json''"
    and e: "check_content c limits y = Inr e"
    and r: "ScheduleRetry c limits env ident attempt nextAt s = (r, t)"
  shows "holds n y t \<or>
    ident @ ''.json'' = n \<and> holds n (enc c (e\<lparr>Attempt := attempt, NextAt := UnixNano nextAt\<rparr>)) t"
proof (cases "ident @ ''.json'' = n \<and> pendingPathLocked ident = Inr n")
  case False
  show ?thesis
  proof (cases "pendingPathLocked ident")
    case (Inl err)
    then show ?thesis
      using k r by (auto simp: ScheduleRetry_def liftS_def bindS_def failS_def kept_def)
  next
    case (Inr name)
    then have "ident @ ''.json'' \<noteq> n" using False pendingPath_name [OF Inr] by auto
    then show ?thesis
      using preserves_result [OF kept_ScheduleRetry [OF json] k, of ident c limits env attempt nextAt] r
      by (simp add: kept_def)
  qed
next
  case True
  let ?x = "enc c (e\<lparr>Attempt := attempt, NextAt := UnixNano nextAt\<rparr>)"
  have "ScheduleRetry c limits env ident attempt nextAt s =
     (if nextAt = zero_time then failS RetryTimeRequired
      else if int (length ?x) > MaxItemBytes limits then failS TooLarge
      else bindS (atomicWritePrivateFile (env_tmp env) n ?x) (\<lambda>_. signal)) s"
    using True kept_read [OF k e]
    by (simp add: ScheduleRetry_def liftS_def bindS_def [of "returnS _"] returnS_def bindS_def [of "readEnvelopeLocked _ _ _"] Let_def)
  then show ?thesis
    using r k True write_keeps [OF k q json, of "env_tmp env" ?x r t]
    by (auto simp: failS_def kept_def split: if_splits)
qed

subsection \<open>One upload\<close>

text \<open>What may become of the item stored under \<open>n\<close> with content \<open>y\<close> and envelope \<open>e\<close>.\<close>

definition rescheduled :: "upload_env \<Rightarrow> string \<Rightarrow> probeSpoolEnvelope \<Rightarrow> spool_fs \<Rightarrow> bool" where
  "rescheduled u n e t \<longleftrightarrow>
     (\<exists>delay. 0 \<le> delay \<and> delay \<le> 300 * Second \<and>
        holds n (enc (ux_codec u) (e\<lparr>Attempt := next_attempt (Attempt e), NextAt := UnixNano (ux_now u + delay)\<rparr>)) t)"

definition delivered :: "upload_env \<Rightarrow> string \<Rightarrow> probeSpoolEnvelope \<Rightarrow> spool_fs \<Rightarrow> bool" where
  "delivered u n e t \<longleftrightarrow> gone n t \<and>
     (\<exists>status ra code. fst (postBody u (Batch e)) = Posted status ra code \<and> 200 \<le> status \<and> status < 300)"

definition rejected :: "upload_env \<Rightarrow> string \<Rightarrow> string \<Rightarrow> probeSpoolEnvelope \<Rightarrow> spool_fs \<Rightarrow> bool" where
  "rejected u n y e t \<longleftrightarrow> gone n t \<and>
     (\<exists>status ra code. fst (postBody u (Batch e)) = Posted status ra code \<and>
        \<not> (200 \<le> status \<and> status < 300) \<and> \<not> isRetryableProbeUploadStatus status \<and>
        (int (length y) \<le> MaxQuarantineBytes (ux_limits u) \<longrightarrow> in_quarantine n (reject_reason status code) y t))"

lemma kept_gone_Ack:
  assumes k: "kept n y s" and r: "Ack ident s = (r, t)"
  shows "holds n y t \<or> ident @ ''.json'' = n \<and> gone n t"
proof (cases "pendingPathLocked ident")
  case (Inl err)
  then show ?thesis using k r by (auto simp: Ack_def liftS_def bindS_def failS_def kept_def)
next
  case (Inr name)
  have name: "name = ident @ ''.json''" using pendingPath_name [OF Inr] .
  show ?thesis
  proof (cases "name = n")
    case True
    then show ?thesis
      using r Inr clean_remove [OF k] name by (auto simp: Ack_def liftS_def bindS_def returnS_def gone_def)
  next
    case False
    then show ?thesis using preserves_result [OF kept_Ack k, of ident] r name by (simp add: kept_def)
  qed
qed

lemma kept_gone_Quarantine:
  assumes k: "kept n y s" and q: "dir_ok (quarantine s)" and r: "Quarantine limits ident reason s = (r, t)"
  shows "holds n y t \<or> ident @ ''.json'' = n \<and> gone n t \<and>
    (int (length y) \<le> MaxQuarantineBytes limits \<longrightarrow> in_quarantine n reason y t)"
proof (cases "pendingPathLocked ident")
  case (Inl err)
  then show ?thesis using k r by (auto simp: Quarantine_def liftS_def bindS_def failS_def kept_def)
next
  case (Inr name)
  have name: "name = ident @ ''.json''" using pendingPath_name [OF Inr] .
  show ?thesis
  proof (cases "name = n")
    case True
    then have "quarantinePathLocked limits n reason s = (r, t)"
      using r Inr by (auto simp: Quarantine_def liftS_def bindS_def returnS_def)
    then show ?thesis using clean_quarantine [OF k q] True name by blast
  next
    case False
    then show ?thesis using preserves_result [OF kept_Quarantine k, of ident limits reason] r name by (simp add: kept_def)
  qed
qed

lemma scheduleRetry_keeps:
  assumes k: "kept n y s" and q: "dir_ok (quarantine s)" and json: "HasSuffix n ''.json''"
    and e: "check_content (ux_codec u) (ux_limits u) y = Inr e"
    and item: "item_ID item @ ''.json'' = n \<Longrightarrow> item_Attempt item = Attempt e"
    and r: "scheduleRetry u item retryAfter status timedOut s = (err, t)"
  shows "holds n y t \<or> rescheduled u n e t"
proof -
  let ?a = "next_attempt (item_Attempt item)"
  let ?at = "ux_now u + retry_delay u retryAfter ?a"
  obtain x where x: "ScheduleRetry (ux_codec u) (ux_limits u) (ux_spool u) (item_ID item) ?a ?at s = (x, t)"
    using r by (auto simp: scheduleRetry_def Let_def split: prod.splits sum.splits)
  show ?thesis
    using retry_keeps [OF k q json e x] retry_delay_bounds [of u retryAfter ?a] item
    unfolding rescheduled_def by auto
qed

lemma settle_item:
  assumes k: "kept n y s" and q: "dir_ok (quarantine s)" and json: "HasSuffix n ''.json''"
    and e: "check_content (ux_codec u) (ux_limits u) y = Inr e"
    and item: "item_ID item @ ''.json'' = n \<Longrightarrow> item_Attempt item = Attempt e \<and> item_Body item = Batch e"
    and r: "settle u item (fst (postBody u (item_Body item))) s = (err, t)"
  shows "holds n y t \<or> rescheduled u n e t \<or> delivered u n e t \<or> rejected u n y e t"
proof (cases "fst (postBody u (item_Body item))")
  case (PostFailed timeout)
  show ?thesis
  proof (cases "ux_ctx_posted u = Some Canceled")
    case True
    then show ?thesis using r PostFailed k by (simp add: settle_def kept_def)
  next
    case False
    then obtain x where "scheduleRetry u item [] 0 (timeout \<or> ux_ctx_posted u = Some DeadlineExceeded) s = (x, t)"
      using r PostFailed by (auto simp: settle_def Let_def split: prod.splits)
    then show ?thesis using scheduleRetry_keeps [OF k q json e] item by blast
  qed
next
  case (Posted status ra code)
  consider "200 \<le> status \<and> status < 300" | "\<not> (200 \<le> status \<and> status < 300)" "isRetryableProbeUploadStatus status"
    | "\<not> (200 \<le> status \<and> status < 300)" "\<not> isRetryableProbeUploadStatus status" by blast
  then show ?thesis
  proof cases
    case 1
    then obtain x where "Ack (item_ID item) s = (x, t)"
      using r Posted by (auto simp: settle_def split: prod.splits sum.splits)
    then show ?thesis
      using kept_gone_Ack [OF k] item Posted 1 unfolding delivered_def by metis
  next
    case 2
    then obtain x where "scheduleRetry u item ra status False s = (x, t)"
      using r Posted by (auto simp: settle_def Let_def split: prod.splits)
    then show ?thesis using scheduleRetry_keeps [OF k q json e] item by blast
  next
    case 3
    then obtain x where "Quarantine (ux_limits u) (item_ID item) (reject_reason status code) s = (x, t)"
      using r Posted by (auto simp: settle_def split: prod.splits sum.splits)
    then show ?thesis
      using kept_gone_Quarantine [OF k q] item Posted 3 unfolding rejected_def by metis
  qed
qed

text \<open>The item \<open>Next\<close> returned, if it is the one stored under \<open>n\<close>, carries its envelope.\<close>

lemma next_item_envelope:
  assumes nr: "next_result c limits now (Some item) t" and h: "holds n y t"
    and e: "check_content c limits y = Inr e" and id: "item_ID item @ ''.json'' = n"
  shows "item_Attempt item = Attempt e \<and> item_Body item = Batch e"
proof -
  obtain m e' where m: "item_at c limits (pending t) m e'" "HasSuffix m ''.json''"
    "item = probeSpoolItemFromEnvelope (TrimSuffix_json m) e'"
    using nr by (auto simp: next_result_def)
  obtain p where p: "m = p @ ''.json''" using m(2) by (auto simp: HasSuffix_iff)
  have "m = n" using id m(2,3) p by (simp add: probeSpoolItemFromEnvelope_def TrimSuffix_json_def)
  then have "e' = e" using m(1) h e by (auto simp: item_at_def holds_def)
  then show ?thesis using m(3) by (simp add: probeSpoolItemFromEnvelope_def)
qed

lemma uploadOne_item:
  assumes k: "kept n y s" and bd: "quarantine_bounded (ux_limits u) s"
    and live: "live_item (ux_codec u) (ux_limits u) (ux_now u) n y"
    and e: "check_content (ux_codec u) (ux_limits u) y = Inr e"
    and r: "uploadOne u s = (res, t)"
  shows "holds n y t \<or> rescheduled u n e t \<or> delivered u n e t \<or> rejected u n y e t"
proof -
  have json: "HasSuffix n ''.json''" using live by (simp add: live_item_def)
  obtain x v where nx: "Next (ux_codec u) (ux_limits u) (ux_now u) s = (x, v)" by fastforce
  have kv: "kept n y v" using preserves_result [OF kept_Next [OF live] k] nx by simp
  have bv: "quarantine_bounded (ux_limits u) v"
    using preserves_result [OF qb.I_Next bd, of "ux_codec u" "ux_now u"] nx by simp
  then have qv: "dir_ok (quarantine v)" by (simp add: quarantine_bounded_def wf_spool_def)
  show ?thesis
  proof (cases "ux_ctx_call u = None \<and> ux_ctx_locked u = None \<and> ux_ready u \<and> (\<exists>item. x = Inr (Some item))")
    case True
    then obtain item where x: "x = Inr (Some item)" by blast
    have nr: "next_result (ux_codec u) (ux_limits u) (ux_now u) (Some item) v"
      using triple_value [OF Next_triple bd nx [unfolded x]] .
    obtain err where st: "settle u item (fst (postBody u (item_Body item))) v = (err, t)"
      using r True nx x by (auto simp: uploadOne_def Let_def split: prod.splits)
    show ?thesis
      by (rule settle_item [OF kv qv json e _ st], rule next_item_envelope [OF nr _ e])
        (use kv in \<open>simp_all add: kept_def\<close>)
  next
    case False
    then have "t = s \<or> t = v"
      using r nx by (auto simp: uploadOne_def split: option.splits if_splits sum.splits)
    then show ?thesis using k kv by (auto simp: kept_def)
  qed
qed

subsection \<open>Properties\<close>


definition example_client :: Client where
  "example_client = \<lparr>baseURL = ''https://c'', nodeID = ''n1'', token = ''t'', allowInsecureHTTP = False, has_http = True\<rparr>"

definition example_url :: URL where
  "example_url = \<lparr>url_Scheme = ''https'', url_Host = ''c'', url_Hostname = ''c'', url_Port = [], url_User = False,
     url_RawQuery = [], url_Fragment = [], url_ForceQuery = False, url_HostText = ''c''\<rparr>"

definition example_net :: "int \<Rightarrow> client_env" where
  "example_net status = \<lparr>ue_Parse = (\<lambda>_. Some example_url), ue_ParseIP = (\<lambda>_. None), ce_NewRequest = True,
     ce_Do = (\<lambda>_. Reply status [] [] False)\<rparr>"

definition example_upload :: "int \<Rightarrow> upload_env" where
  "example_upload status = \<lparr>ux_codec = demo_codec, ux_limits = DefaultProbeSpoolLimits, ux_net = example_net status,
     ux_client = example_client, ux_ready = True, ux_spool = later_env, ux_now = 3000, ux_jitter = (\<lambda>d. d),
     ux_ctx_call = None, ux_ctx_locked = None, ux_ctx_posted = None, ux_parse_time = (\<lambda>_. None),
     ux_error_field = (\<lambda>_. None)\<rparr>"

lemma example_kept: "kept (example_id @ ''.json'') example_content example_spool"
  using example_holds by (simp add: kept_def) (simp add: example_spool_def dir_ok_def)

lemma example_live: "live_item demo_codec DefaultProbeSpoolLimits 3000 (example_id @ ''.json'') example_content"
  using example_check example_not_expired by (simp add: live_item_def)


text \<open>The exponential back-off for attempt \<open>n\<close> is \<open>2 ^ (n - 1)\<close> seconds, capped at five minutes; attempt 0
  counts as attempt 1.\<close>

theorem backoff_closed_form:
  "probeUploadBackoff attempt = min (Second * 2 ^ (unat attempt - 1)) (300 * Second)"
  by (rule probeUploadBackoff_eq)

text \<open>Whatever the Controller puts into \<open>Retry-After\<close> and whatever the jitter hook returns, the delay of a
  retry lies between 0 and five minutes.\<close>

theorem retry_delay_bounded:
  "0 \<le> retry_delay u retryAfter attempt \<and> retry_delay u retryAfter attempt \<le> 300 * Second"
  by (rule retry_delay_bounds)

text \<open>A decimal \<open>Retry-After\<close> up to five minutes is honoured to the second, and a larger one, even one that
  overflows 64 bits, is capped.\<close>

theorem retry_after_seconds:
  "parseProbeRetryAfter pt (Itoa (int n)) now = (min (int n) 300 * Second, True)"
proof -
  have "TrimSpace (Itoa (int n)) = Itoa (int n)" by (rule TrimSpace_digits) (simp add: Itoa_def)
  moreover have "list_all is_digit (Itoa (int n))" "Itoa (int n) \<noteq> []" by (simp_all add: Itoa_def)
  moreover have "ParseInt (Itoa (int n)) = (if int n < 2 ^ 63 then Some (int n) else None)"
  proof (cases "int n < 2 ^ 63")
    case True
    then show ?thesis using ParseInt_Itoa [of "int n"] by (simp add: fits64_def minInt64_def maxInt64_def)
  next
    case False
    then show ?thesis
      using ParseInt_unsigned [of "Itoa (int n)"]
      by (auto simp: Itoa_def ParseUint_def)
  qed
  moreover have "wrap64 (int n * Second) = int n * Second" if "n \<le> 300" using wrap_seconds that by simp
  ultimately show ?thesis
    by (auto simp: parseProbeRetryAfter_def Let_def allASCIIDigits_def time_defs min_def)
qed

text \<open>A run loop ends only because its context is done or because of a local failure: an answer of the
  Controller and a scheduled retry never end it.\<close>

theorem run_stops_only_locally:
  assumes "run_pass u ctx_after s = (Stop e, t)"
  shows "(\<exists>x. ctx_after = Some x \<and> e = ContextError x) \<or> (\<not> is_status_error e \<and> \<not> is_retry_error e)"
  using assms
  by (auto simp: run_pass_def Let_def split: option.splits prod.splits if_splits)

theorem run_stops_only_locally_witness:
  "\<exists>t. run_pass (example_upload 204\<lparr>ux_ready := False\<rparr>) None example_spool = (Stop NoSpoolOrClient, t) \<and>
     \<not> is_status_error NoSpoolOrClient"
proof -
  have r: "run_pass (example_upload 204\<lparr>ux_ready := False\<rparr>) None example_spool = (Stop NoSpoolOrClient, example_spool)"
    by (simp add: run_pass_def uploadOne_def example_upload_def)
  then show ?thesis using run_stops_only_locally [OF r] by auto
qed

end
