(* ===== verification/Presence.thy ===== *)
theory Presence
  imports Backoff Agent_Client Manager_Steps
begin

text \<open>
  The presence connection (\<open>internal/agent/presence.go\<close>): the reconnect loop with its back-off, and the
  handling of the Controller's messages on one connection. The websocket is a third-party package: what
  it reads and whether a write succeeds are inputs. The configuration handler is \<open>refreshProbeConfig\<close>
  of \<open>runAgent\<close>, with the target manager as state.
\<close>

subsection \<open>Reconnecting\<close>

definition presenceReadTimeout :: duration where [go_eval, time_defs]: "presenceReadTimeout = 75 * Second"
definition presenceInitialReconnectBackoff :: duration where [go_eval, time_defs]: "presenceInitialReconnectBackoff = Second"
definition presenceMaxReconnectBackoff :: duration where [go_eval, time_defs]: "presenceMaxReconnectBackoff = 30 * Second"
definition presenceStableConnectionDuration :: duration where
  [go_eval, time_defs]: "presenceStableConnectionDuration = presenceReadTimeout"

record presenceLoopOptions =
  initialBackoff :: duration
  maxBackoff :: duration
  stableConnectionDuration :: duration

text \<open>The defaults filled in at the start of \<open>runPresenceLoop\<close>.\<close>

definition presence_defaults :: "presenceLoopOptions \<Rightarrow> presenceLoopOptions" where
  "presence_defaults options =
     (let i = (if initialBackoff options \<le> 0 then presenceInitialReconnectBackoff else initialBackoff options);
          m = (if maxBackoff options \<le> 0 then presenceMaxReconnectBackoff else maxBackoff options);
          m' = (if m < i then i else m);
          st = (if stableConnectionDuration options \<le> 0 then presenceStableConnectionDuration
                else stableConnectionDuration options)
      in \<lparr>initialBackoff = i, maxBackoff = m', stableConnectionDuration = st\<rparr>)"

definition next_backoff :: "duration \<Rightarrow> duration \<Rightarrow> duration" where
  "next_backoff cap backoff =
     (if backoff < cap then (let doubled = wrap64 (backoff * 2) in if doubled > cap then cap else doubled) else backoff)"

text \<open>\<open>draw\<close> is \<open>rand.Int63n\<close>: a number below its argument.\<close>

definition randomPresenceJitter :: "(int \<Rightarrow> int) \<Rightarrow> duration \<Rightarrow> duration" where
  "randomPresenceJitter draw backoff = (if backoff \<le> 0 then 0 else draw (go_div backoff 2))"

text \<open>
  One turn of the loop: whether the context is done before the connection and after it, how long the
  connection lasted, the jitter hook, and whether the sleep ran to its end.
\<close>

record presence_turn =
  pt_done_before :: bool
  pt_connectedFor :: duration
  pt_done_after :: bool
  pt_jitter :: "duration \<Rightarrow> duration"
  pt_slept :: bool

text \<open>The waits of the loop, in order; the loop ends with its script at the latest.\<close>

fun presence_loop :: "presenceLoopOptions \<Rightarrow> duration \<Rightarrow> presence_turn list \<Rightarrow> duration list" where
  "presence_loop options backoff [] = []"
| "presence_loop options backoff (t # turns) =
     (if pt_done_before t \<or> pt_done_after t then []
      else
        let backoff1 = (if pt_connectedFor t \<ge> stableConnectionDuration options then initialBackoff options else backoff);
            wait = wrap64 (backoff1 + pt_jitter t backoff1);
            wait1 = (if wait > maxBackoff options then maxBackoff options else wait)
        in if \<not> pt_slept t then [wait1]
           else wait1 # presence_loop options (next_backoff (maxBackoff options) backoff1) turns)"

definition runPresenceLoop :: "presenceLoopOptions \<Rightarrow> presence_turn list \<Rightarrow> duration list" where
  "runPresenceLoop options turns =
     (let o1 = presence_defaults options in presence_loop o1 (initialBackoff o1) turns)"

text \<open>
  \<open>RunPresence\<close> runs the loop with the agent's own hooks: a turn's jitter is drawn by \<open>randomPresenceJitter\<close>, and
  its sleep is \<open>sleepContext\<close>, which tells whether the timer fired before the context was done.
\<close>

datatype sleep_end = SleepCancelled | SleepElapsed

definition sleepContext :: "sleep_end \<Rightarrow> bool" where
  "sleepContext e = (case e of SleepCancelled \<Rightarrow> False | SleepElapsed \<Rightarrow> True)"

record presence_script =
  ps_done_before :: bool
  ps_connectedFor :: duration
  ps_done_after :: bool
  ps_draw :: "int \<Rightarrow> int"
  ps_sleep :: sleep_end

definition RunPresence :: "presence_script list \<Rightarrow> duration list" where
  "RunPresence script =
     runPresenceLoop \<lparr>initialBackoff = 0, maxBackoff = 0, stableConnectionDuration = 0\<rparr>
       (map (\<lambda>p. \<lparr>pt_done_before = ps_done_before p, pt_connectedFor = ps_connectedFor p, pt_done_after = ps_done_after p,
          pt_jitter = randomPresenceJitter (ps_draw p), pt_slept = sleepContext (ps_sleep p)\<rparr>) script)"

subsection \<open>Messages of the Controller\<close>

record PresenceServerMessage =
  pm_Type :: string
  pm_Version :: int

text \<open>
  One message with what the refresh it triggers meets (whether its context ends first, the
  Controller's answer) and whether the acknowledgement can be written.
\<close>

record presence_event =
  pe_message :: PresenceServerMessage
  pe_ctx_wins :: bool
  pe_answer :: "ProbeTargetsResponse option"
  pe_write_ok :: bool

text \<open>How a connection ends: the error \<open>runPresenceOnce\<close> returns.\<close>

datatype presence_end =
    PresenceURLFailed client_error
  | PresenceDialFailed
  | DeadlineFailed
  | ReadFailed
  | AckFailed int

text \<open>
  The read loop of \<open>runPresenceOnce\<close>: the acknowledgements written, each with the version asked for, how the
  loop ends, and the manager. After the last message reading fails. A refresh that would have to wait
  for the gate for ever ends with its context.
\<close>

fun presence_messages ::
  "presence_event list \<Rightarrow> probeTargetManager \<Rightarrow> (int \<times> int) list \<times> presence_end \<times> probeTargetManager" where
  "presence_messages [] m = ([], ReadFailed, m)"
| "presence_messages (e # es) m =
     (let v = pm_Version (pe_message e) in
      if pm_Type (pe_message e) \<noteq> ''config_changed'' then presence_messages es m
      else if v < 0 then presence_messages es m
      else case refreshProbeConfig (pe_ctx_wins e) (pe_answer e) v m of
        None \<Rightarrow> presence_messages es m
      | Some (Inl err, m') \<Rightarrow> presence_messages es m'
      | Some (Inr applied, m') \<Rightarrow>
          if applied < v then presence_messages es m'
          else if \<not> pe_write_ok e then ([], AckFailed applied, m')
          else (let (acks, fin, m2) = presence_messages es m' in ((v, applied) # acks, fin, m2)))"

text \<open>
  One connection: the dials made (URL and header), the acknowledgements, the error and the manager.
  \<open>dial\<close> is the websocket package's answer to the handshake.
\<close>

definition runPresenceOnce ::
  "url_env \<Rightarrow> Client \<Rightarrow> (string \<Rightarrow> (string \<times> string) list \<Rightarrow> bool) \<Rightarrow> bool \<Rightarrow> presence_event list \<Rightarrow> probeTargetManager \<Rightarrow>
   (string \<times> (string \<times> string) list) list \<times> (int \<times> int) list \<times> presence_end \<times> probeTargetManager" where
  "runPresenceOnce env c dial deadline_ok es m =
     (case PresenceWebSocketURL env c of
        Inl e \<Rightarrow> ([], [], PresenceURLFailed e, m)
      | Inr presenceURL \<Rightarrow>
          ([(presenceURL, setAuthHeaders c)],
           if \<not> dial presenceURL (setAuthHeaders c) then ([], PresenceDialFailed, m)
           else if \<not> deadline_ok then ([], DeadlineFailed, m)
           else presence_messages es m))"

subsection \<open>The waits\<close>

text \<open>A cap of at most half the range of a duration keeps the doubling and the jitter from wrapping.\<close>

definition backoff_fits :: "duration \<Rightarrow> bool" where
  "backoff_fits cap \<longleftrightarrow> 2 * cap \<le> maxInt64"

lemma next_backoff_doubling: "backoff_fits cap \<Longrightarrow> capped_doubling (next_backoff cap) cap"
  by unfold_locales (auto simp: next_backoff_def backoff_fits_def Let_def fits64_def minInt64_def maxInt64_def)

interpretation pbo: capped_doubling "next_backoff presenceMaxReconnectBackoff" presenceMaxReconnectBackoff
  by (rule next_backoff_doubling) (simp add: backoff_fits_def time_defs maxInt64_def)

text \<open>
  What is asked of a jitter hook. The agent's own hook draws below half of the back-off; \<open>rand.Int63n\<close>
  panics at zero, so that it needs a back-off of at least two nanoseconds.
\<close>

definition jitter_ok :: "(duration \<Rightarrow> duration) \<Rightarrow> bool" where
  "jitter_ok jitter \<longleftrightarrow> (\<forall>d>0. 0 \<le> jitter d \<and> jitter d \<le> d)"

lemma randomPresenceJitter_range:
  assumes "\<forall>n>0. 0 \<le> draw n \<and> draw n < n" "2 \<le> b"
  shows "0 \<le> randomPresenceJitter draw b \<and> 2 * randomPresenceJitter draw b < b"
proof -
  have "0 < b div 2" using assms(2) by simp
  then have "0 \<le> draw (b div 2)" "draw (b div 2) < b div 2" using assms(1) by blast+
  then show ?thesis using assms(2) by (simp add: randomPresenceJitter_def)
qed

lemma presence_defaults_ok:
  "0 < initialBackoff (presence_defaults o1) \<and> initialBackoff (presence_defaults o1) \<le> maxBackoff (presence_defaults o1)
   \<and> 0 < stableConnectionDuration (presence_defaults o1)"
  by (simp add: presence_defaults_def Let_def time_defs)

lemma presence_defaults_fit:
  "backoff_fits (initialBackoff o1) \<Longrightarrow> backoff_fits (maxBackoff o1) \<Longrightarrow> backoff_fits (maxBackoff (presence_defaults o1))"
  by (auto simp: presence_defaults_def Let_def time_defs backoff_fits_def maxInt64_def)

lemma presence_loop_waits:
  assumes "0 < initialBackoff o1" "initialBackoff o1 \<le> b" "b \<le> maxBackoff o1"
    "backoff_fits (maxBackoff o1)"
    "\<forall>t\<in>set turns. \<forall>d\<ge>initialBackoff o1. 0 \<le> pt_jitter t d \<and> pt_jitter t d \<le> d"
  shows "\<forall>w\<in>set (presence_loop o1 b turns). initialBackoff o1 \<le> w \<and> w \<le> maxBackoff o1"
  using assms
proof (induction o1 b turns rule: presence_loop.induct)
  case (2 o1 b t turns)
  define b1 where "b1 = (if pt_connectedFor t \<ge> stableConnectionDuration o1 then initialBackoff o1 else b)"
  have b1: "initialBackoff o1 \<le> b1" "b1 \<le> maxBackoff o1" "0 < b1"
    using "2.prems" by (auto simp: b1_def)
  then have j: "0 \<le> pt_jitter t b1" "pt_jitter t b1 \<le> b1"
    using "2.prems"(5) by auto
  have w: "wrap64 (b1 + pt_jitter t b1) = b1 + pt_jitter t b1"
    using "2.prems"(4) b1 j by (intro wrap64_id) (simp add: backoff_fits_def fits64_def minInt64_def maxInt64_def)
  have n: "initialBackoff o1 \<le> next_backoff (maxBackoff o1) b1" "next_backoff (maxBackoff o1) b1 \<le> maxBackoff o1"
    using capped_doubling.step_range [OF next_backoff_doubling [OF "2.prems"(4)] b1(3,2)] b1(1) by linarith+
  have IH: "\<forall>w\<in>set (presence_loop o1 (next_backoff (maxBackoff o1) b1) turns). initialBackoff o1 \<le> w \<and> w \<le> maxBackoff o1"
    if "\<not> (pt_done_before t \<or> pt_done_after t)" "pt_slept t"
    using "2.IH" [OF that(1) b1_def refl refl] that(2) n "2.prems" by simp
  show ?case
    using b1 j w IH by (auto simp: Let_def b1_def [symmetric])
qed simp

text \<open>While no connection is stable the n-th wait without jitter is the doubled initial back-off, capped.\<close>

lemma presence_loop_unstable:
  assumes "0 < b" "b \<le> maxBackoff o1" "backoff_fits (maxBackoff o1)"
    "\<forall>t\<in>set turns. \<not> pt_done_before t \<and> \<not> pt_done_after t \<and> pt_slept t \<and> pt_connectedFor t < stableConnectionDuration o1
       \<and> (\<forall>d. pt_jitter t d = 0)"
  shows "presence_loop o1 b turns = map (\<lambda>n. min (b * 2 ^ n) (maxBackoff o1)) [0..<length turns]"
  using assms
proof (induction turns arbitrary: b)
  case (Cons t turns)
  let ?n = "next_backoff (maxBackoff o1) b"
  note cd = next_backoff_doubling [OF Cons.prems(3)]
  have wr: "wrap64 b = b" using Cons.prems(1-3) by (intro wrap64_id) (simp add: backoff_fits_def fits64_def minInt64_def maxInt64_def)
  have n: "0 < ?n" "?n \<le> maxBackoff o1" "?n = min (b * 2) (maxBackoff o1)"
    using capped_doubling.step_range [OF cd Cons.prems(1,2)] capped_doubling.step_eq [OF cd Cons.prems(1,2)] Cons.prems by linarith+
  have "presence_loop o1 ?n turns = map (\<lambda>k. min (?n * 2 ^ k) (maxBackoff o1)) [0..<length turns]"
    using Cons.IH [OF n(1,2) Cons.prems(3)] Cons.prems(4) by simp
  also have "\<dots> = map (\<lambda>k. min (b * 2 ^ Suc k) (maxBackoff o1)) [0..<length turns]"
  proof (rule map_cong [OF refl])
    fix k
    show "min (?n * 2 ^ k) (maxBackoff o1) = min (b * 2 ^ Suc k) (maxBackoff o1)"
      using capped_doubling.iterate_eq [OF cd n(1,2), of k] capped_doubling.iterate_eq [OF cd Cons.prems(1,2), of "Suc k"] by (simp add: funpow_swap1)
  qed
  finally have rest: "presence_loop o1 ?n turns = map (\<lambda>k. min (b * 2 ^ Suc k) (maxBackoff o1)) [0..<length turns]" .
  have "[0..<length (t # turns)] = 0 # map Suc [0..<length turns]"
    by (simp only: length_Cons upt_conv_Cons [OF zero_less_Suc] map_Suc_upt)
  then show ?case using Cons.prems rest wr by (simp add: Let_def comp_def min_absorb1 del: upt_Suc)
qed simp

subsection \<open>Acknowledgements\<close>

lemma refreshProbeConfig_inv:
  assumes "manager_inv m" "refreshProbeConfig ctx_wins answer v m = Some (r, m')"
  shows "manager_inv m' \<and> version m \<le> version m'"
proof (cases "v > 0 \<and> initialized m \<and> version m \<ge> v")
  case True
  then show ?thesis using assms by (auto simp: refreshProbeConfig_def)
next
  case False
  then show ?thesis
  proof (cases "v < 0 \<or> ctx_wins")
    case True
    then show ?thesis
      using assms False by (auto simp: refreshProbeConfig_def refreshProbeTargets_def beginRefresh_def split: if_splits)
  next
    case go: False
    then obtain x m2 where h: "refresh_held answer v (m\<lparr>refreshGate := False\<rparr>) = (x, m2)" "m' = endRefresh m2"
      using assms(2) False
      by (auto simp: refreshProbeConfig_def refreshProbeTargets_def beginRefresh_def split: if_splits prod.splits)
    have "manager_inv (m\<lparr>refreshGate := False\<rparr>)" using assms(1) by simp
    from refresh_held_inv [OF this h(1)] show ?thesis using h(2) by simp
  qed
qed

lemma presence_messages_ok:
  assumes "manager_inv m" "presence_messages es m = (acks, fin, m')"
  shows "manager_inv m' \<and> version m \<le> version m' \<and>
    (\<forall>(v, a)\<in>set acks. 0 \<le> v \<and> v \<le> a \<and> version m \<le> a \<and> a \<le> version m') \<and> sorted_wrt (\<le>) (map snd acks)"
  using assms
proof (induction es arbitrary: m acks)
  case (Cons e es)
  let ?v = "pm_Version (pe_message e)"
  let ?r = "refreshProbeConfig (pe_ctx_wins e) (pe_answer e) ?v m"
  show ?case
  proof (cases "pm_Type (pe_message e) = ''config_changed'' \<and> 0 \<le> ?v \<and> ?r \<noteq> None")
    case False
    then have "presence_messages es m = (acks, fin, m')"
      using Cons.prems(2) by (auto simp: Let_def split: if_splits option.splits prod.splits sum.splits)
    then show ?thesis by (rule Cons.IH [OF Cons.prems(1)])
  next
    case True
    then obtain r m1 where r: "?r = Some (r, m1)" by (metis not_None_eq prod.exhaust)
    have inv: "manager_inv m1" "version m \<le> version m1" using refreshProbeConfig_inv [OF Cons.prems(1) r] by simp_all
    show ?thesis
    proof (cases r)
      case (Inl err)
      then have "presence_messages es m1 = (acks, fin, m')" using Cons.prems(2) True r by (auto simp: Let_def)
      then show ?thesis using Cons.IH [OF inv(1)] inv(2) by fastforce
    next
      case (Inr a)
      have ap: "a = version m1" "?v \<le> a" using refreshProbeConfig_applied [OF Cons.prems(1) r [unfolded Inr]] by simp_all
      show ?thesis
      proof (cases "pe_write_ok e")
        case False
        then have "acks = []" "m' = m1" using Cons.prems(2) True r Inr ap by (auto simp: Let_def)
        then show ?thesis using inv by simp
      next
        case wr: True
        obtain acks2 where a2: "presence_messages es m1 = (acks2, fin, m')" "acks = (?v, a) # acks2"
          using Cons.prems(2) True r Inr ap wr by (auto simp: Let_def split: prod.splits)
        then show ?thesis using Cons.IH [OF inv(1) a2(1)] inv ap True by fastforce
      qed
    qed
  qed
qed simp

lemma runPresenceOnce_messages:
  assumes "manager_inv m" "runPresenceOnce env c dial ok es m = (dials, acks, fin, m')"
  shows "manager_inv m' \<and> version m \<le> version m' \<and>
    (\<forall>(v, a)\<in>set acks. 0 \<le> v \<and> v \<le> a \<and> version m \<le> a \<and> a \<le> version m') \<and> sorted_wrt (\<le>) (map snd acks)"
  using assms(2) presence_messages_ok [OF assms(1), of es acks fin m'] assms(1)
  by (auto simp: runPresenceOnce_def split: sum.splits if_splits)

text \<open>The address dialled is the parsed Controller URL with the websocket scheme of the same security.\<close>

lemma PresenceWebSocketURL_safe:
  assumes "PresenceWebSocketURL env c = Inr w"
  shows "\<exists>u v. ue_Parse env (TrimSpace (baseURL c)) = Some u \<and> secure_transport env (allowInsecureHTTP c) u \<and>
    ue_Parse env (baseURL c) = Some v \<and>
    (url_Scheme v = ''https'' \<and> HasPrefix w (''wss://'' @ url_HostText v) \<or> url_Scheme v = ''http'' \<and> HasPrefix w (''ws://'' @ url_HostText v))"
  using assms
  by (auto simp: PresenceWebSocketURL_def Let_def Validate_iff HasPrefix_iff split: option.splits if_splits)

subsection \<open>Properties\<close>

text \<open>C22: An acknowledgement answers a request of the Controller for a version that is not negative and names an
  applied version at least as new: the manager had it in force, the version in force at the end is not older, and
  successive acknowledgements of a connection never go back.\<close>

theorem presence_acks_applied:
  assumes "manager_inv m" "runPresenceOnce env c dial ok es m = (dials, acks, fin, m')" "(v, a) \<in> set acks"
  shows "0 \<le> v \<and> v \<le> a \<and> a \<le> version m' \<and> sorted_wrt (\<le>) (map snd acks)"
  using runPresenceOnce_messages [OF assms(1,2)] assms(3) by auto

definition example_event :: presence_event where
  "example_event = \<lparr>pe_message = \<lparr>pm_Type = ''config_changed'', pm_Version = 5\<rparr>, pe_ctx_wins = False,
     pe_answer = Some example_response, pe_write_ok = True\<rparr>"

definition presence_client :: Client where
  "presence_client = \<lparr>baseURL = ''https://c'', nodeID = ''n1'', token = ''t'', allowInsecureHTTP = False, has_http = True\<rparr>"

lemma example_presence:
  "\<exists>m'. runPresenceOnce (url_env.truncate plain_env) presence_client (\<lambda>_ _. True) True [example_event] newProbeTargetManager =
     ([(''wss://c/api/agent/v1/presence/ws'', setAuthHeaders presence_client)], [(5, 7)], ReadFailed, m')"
  by (simp add: runPresenceOnce_def PresenceWebSocketURL_def plain_env_def presence_client_def url_env.truncate_def
      ValidateControllerURLWithOptions_def example_event_def refreshProbeConfig_def refreshProbeTargets_def beginRefresh_def
      refresh_held_def FetchProbeConfig_def update_def newProbeTargetManager_def example_response_def Let_def ascii_lower_def)

theorem presence_acks_applied_witness:
  "\<exists>dials fin m'. runPresenceOnce (url_env.truncate plain_env) presence_client (\<lambda>_ _. True) True [example_event] newProbeTargetManager
     = (dials, [(5, 7)], fin, m') \<and> 7 \<le> version m'"
proof -
  obtain m' where m': "runPresenceOnce (url_env.truncate plain_env) presence_client (\<lambda>_ _. True) True [example_event] newProbeTargetManager =
     ([(''wss://c/api/agent/v1/presence/ws'', setAuthHeaders presence_client)], [(5, 7)], ReadFailed, m')"
    using example_presence by blast
  then show ?thesis using presence_acks_applied [OF manager_inv_new m', of 5 7] by auto
qed

text \<open>With options whose back-offs are at most half the range of a duration, and with a jitter hook that adds at
  most the back-off itself, every wait between two connection attempts lies between the initial and the
  maximal back-off, so that the agent neither spins nor stays away.\<close>

theorem presence_waits_bounded:
  assumes "backoff_fits (initialBackoff options)" "backoff_fits (maxBackoff options)"
    "\<forall>t\<in>set turns. jitter_ok (pt_jitter t)" "w \<in> set (runPresenceLoop options turns)"
  shows "initialBackoff (presence_defaults options) \<le> w \<and> w \<le> maxBackoff (presence_defaults options)"
  using presence_loop_waits [of "presence_defaults options" "initialBackoff (presence_defaults options)" turns]
    presence_defaults_ok [of options] presence_defaults_fit [OF assms(1,2)] assms(3,4)
  by (simp add: runPresenceLoop_def jitter_ok_def Let_def)

definition example_turn :: presence_turn where
  "example_turn = \<lparr>pt_done_before = False, pt_connectedFor = 0, pt_done_after = False, pt_jitter = (\<lambda>d. 0), pt_slept = True\<rparr>"

theorem presence_waits_bounded_witness:
  "2 * Second \<in> set (runPresenceLoop \<lparr>initialBackoff = 0, maxBackoff = 0, stableConnectionDuration = 0\<rparr> [example_turn, example_turn]) \<and>
   2 * Second \<le> 30 * Second"
proof -
  let ?o = "\<lparr>initialBackoff = 0, maxBackoff = 0, stableConnectionDuration = 0\<rparr>"
  have "runPresenceLoop ?o [example_turn, example_turn] = [Second, 2 * Second]"
    by (simp add: runPresenceLoop_def presence_defaults_def example_turn_def Let_def next_backoff_def time_defs wrap64_def)
  then have m: "2 * Second \<in> set (runPresenceLoop ?o [example_turn, example_turn])" by simp
  have "maxBackoff (presence_defaults ?o) = 30 * Second" by (simp add: presence_defaults_def Let_def time_defs)
  moreover have "\<forall>t\<in>set [example_turn, example_turn]. jitter_ok (pt_jitter t)" by (simp add: example_turn_def jitter_ok_def)
  moreover have "backoff_fits (initialBackoff ?o)" "backoff_fits (maxBackoff ?o)" by (simp_all add: backoff_fits_def maxInt64_def)
  ultimately show ?thesis using presence_waits_bounded [OF _ _ _ m] m by auto
qed

text \<open>
  The agent's own presence loop waits between one and thirty seconds before it connects again: the random source of
  its jitter is asked for a number below a positive bound only.
\<close>

theorem agent_presence_waits:
  assumes "\<forall>p\<in>set script. \<forall>n>0. 0 \<le> ps_draw p n \<and> ps_draw p n < n" "w \<in> set (RunPresence script)"
  shows "Second \<le> w \<and> w \<le> 30 * Second"
proof -
  let ?o = "presence_defaults \<lparr>initialBackoff = 0, maxBackoff = 0, stableConnectionDuration = 0\<rparr>"
  have o: "initialBackoff ?o = Second" "maxBackoff ?o = 30 * Second" by (simp_all add: presence_defaults_def Let_def time_defs)
  have fit: "backoff_fits (maxBackoff ?o)" unfolding o by (simp add: backoff_fits_def time_defs maxInt64_def)
  have j: "0 \<le> randomPresenceJitter (ps_draw p) d \<and> randomPresenceJitter (ps_draw p) d \<le> d"
    if "p \<in> set script" "Second \<le> d" for p d
  proof -
    have "2 \<le> d" using that(2) by (simp add: time_defs)
    then show ?thesis using randomPresenceJitter_range [of "ps_draw p" d] assms(1) that(1) by fastforce
  qed
  obtain turns where t: "RunPresence script = presence_loop ?o Second turns"
    "\<forall>t\<in>set turns. \<exists>p\<in>set script. pt_jitter t = randomPresenceJitter (ps_draw p)"
    by (rule that) (simp only: RunPresence_def runPresenceLoop_def Let_def o, force)
  have "\<forall>w\<in>set (presence_loop ?o Second turns). Second \<le> w \<and> w \<le> 30 * Second"
    using presence_loop_waits [of ?o Second turns] fit j t(2) unfolding o by (fastforce simp: time_defs)
  then show ?thesis using assms(2) t(1) by simp
qed

end
