(* ===== verification/Install_Receipt.thy ===== *)
theory Install_Receipt
  imports Spool_Dir Go_Strconv
begin

text \<open>
  The install receipt (\<open>cmd/zeno-agent/install_receipt.go\<close>): a file that tells the installer that the
  Controller accepted a heartbeat and a state report. The state is the tracker and the directory of the
  receipt; every attempt to write comes with the step that fails, if one does.
\<close>

definition installReceiptPrefix :: string where
  "installReceiptPrefix = ''zeno-agent-install-receipt-v1 ''"

record installReceiptTracker =
  rt_path :: string
  rt_nonce :: string
  heartbeatOK :: bool
  stateOK :: bool
  written :: bool

definition newInstallReceiptTracker :: "string \<Rightarrow> string \<Rightarrow> installReceiptTracker" where
  "newInstallReceiptTracker path nonce =
     \<lparr>rt_path = path, rt_nonce = nonce, heartbeatOK = False, stateOK = False, written = False\<rparr>"

text \<open>The entry of a path in its directory: what follows the last separator.\<close>

definition base_name :: "string \<Rightarrow> string" where
  "base_name path = rev (takeWhile (\<lambda>ch. ch \<noteq> CHR ''/'') (rev path))"

datatype receipt_step = CreateStep | ChmodStep | WriteStep nat | SyncStep | CloseStep | RenameStep

text \<open>
  What an attempt meets: the name \<open>os.CreateTemp\<close> picks, the failing step (a failed write leaves the given
  number of bytes), and whether the deferred \<open>os.Remove\<close> works.
\<close>

record receipt_io =
  io_temp :: "dir \<Rightarrow> string"
  io_fails :: "receipt_step option"
  io_remove :: bool

definition receipt_text :: "string \<Rightarrow> string" where
  "receipt_text nonce = installReceiptPrefix @ nonce @ [CHR 0x0A]"

text \<open>A rename onto a directory, or onto a path that names one, fails.\<close>

definition rename_blocked :: "dir \<Rightarrow> string \<Rightarrow> bool" where
  "rename_blocked d base \<longleftrightarrow>
     base = [] \<or> base = ''.'' \<or> base = ''..'' \<or> (case dir_get d base of Some (Directory e) \<Rightarrow> True | _ \<Rightarrow> False)"

definition deferred_remove :: "receipt_io \<Rightarrow> string \<Rightarrow> dir \<Rightarrow> dir" where
  "deferred_remove io tmp d = (if io_remove io then dir_del tmp d else d)"

definition writeInstallReceipt :: "receipt_io \<Rightarrow> string \<Rightarrow> string \<Rightarrow> dir \<Rightarrow> receipt_step option \<times> dir" where
  "writeInstallReceipt io path nonce d =
     (let tmp = io_temp io d; base = base_name path; content = receipt_text nonce in
      case io_fails io of
        Some CreateStep \<Rightarrow> (Some CreateStep, d)
      | Some ChmodStep \<Rightarrow> (Some ChmodStep, deferred_remove io tmp (dir_put tmp (Regular []) d))
      | Some (WriteStep n) \<Rightarrow> (Some (WriteStep n), deferred_remove io tmp (dir_put tmp (Regular (take n content)) d))
      | Some SyncStep \<Rightarrow> (Some SyncStep, deferred_remove io tmp (dir_put tmp (Regular content) d))
      | Some CloseStep \<Rightarrow> (Some CloseStep, deferred_remove io tmp (dir_put tmp (Regular content) d))
      | Some RenameStep \<Rightarrow> (Some RenameStep, deferred_remove io tmp (dir_put tmp (Regular content) d))
      | None \<Rightarrow>
          if rename_blocked d base then (Some RenameStep, deferred_remove io tmp (dir_put tmp (Regular content) d))
          else (None, deferred_remove io tmp (dir_put base (Regular content) (dir_del tmp d))))"

definition mark :: "receipt_io \<Rightarrow> bool \<Rightarrow> installReceiptTracker \<times> dir \<Rightarrow> installReceiptTracker \<times> dir" where
  "mark io heartbeat = (\<lambda>(r, d).
     if rt_path r = [] then (r, d)
     else
       let r1 = (if heartbeat then r\<lparr>heartbeatOK := True\<rparr> else r\<lparr>stateOK := True\<rparr>) in
       if written r1 \<or> \<not> heartbeatOK r1 \<or> \<not> stateOK r1 then (r1, d)
       else case writeInstallReceipt io (rt_path r1) (rt_nonce r1) d of
         (Some e, d') \<Rightarrow> (r1, d')
       | (None, d') \<Rightarrow> (r1\<lparr>written := True\<rparr>, d'))"

definition markHeartbeat :: "receipt_io \<Rightarrow> installReceiptTracker \<times> dir \<Rightarrow> installReceiptTracker \<times> dir" where
  "markHeartbeat io = mark io True"

definition markState :: "receipt_io \<Rightarrow> installReceiptTracker \<times> dir \<Rightarrow> installReceiptTracker \<times> dir" where
  "markState io = mark io False"

text \<open>A run: the accepted reports in order, \<open>True\<close> for a heartbeat, each with what its attempt meets.\<close>

fun marks :: "(bool \<times> receipt_io) list \<Rightarrow> installReceiptTracker \<times> dir \<Rightarrow> installReceiptTracker \<times> dir" where
  "marks [] st = st"
| "marks ((True, io) # evs) st = marks evs (markHeartbeat io st)"
| "marks ((False, io) # evs) st = marks evs (markState io st)"

subsection \<open>The documented behaviour of \<open>os.CreateTemp\<close>\<close>

text \<open>The name matches the pattern and belongs to no entry.\<close>

definition temp_ok :: "receipt_io \<Rightarrow> bool" where
  "temp_ok io \<longleftrightarrow> (\<forall>d. dir_get d (io_temp io d) = None \<and> HasPrefix (io_temp io d) ''.zeno-install-receipt-'')"

text \<open>A usable receipt path: it names an entry, and not one of the temporary files.\<close>

definition receipt_path_ok :: "string \<Rightarrow> bool" where
  "receipt_path_ok path \<longleftrightarrow>
     base_name path \<notin> {[], ''.'', ''..''} \<and> \<not> HasPrefix (base_name path) ''.zeno-install-receipt-''"

lemma receipt_path_not_Nil: "receipt_path_ok path \<Longrightarrow> path \<noteq> []"
  by (auto simp: receipt_path_ok_def base_name_def)

subsection \<open>One attempt\<close>

lemma temp_not_base: "temp_ok io \<Longrightarrow> receipt_path_ok path \<Longrightarrow> base_name path \<noteq> io_temp io d"
  by (metis receipt_path_ok_def temp_ok_def)

lemma deferred_remove_ok: "dir_ok d \<Longrightarrow> dir_ok (deferred_remove io tmp d)"
  by (simp add: deferred_remove_def sd.ok_del)

lemma deferred_remove_get: "n \<noteq> tmp \<Longrightarrow> dir_get (deferred_remove io tmp d) n = dir_get d n"
  by (simp add: deferred_remove_def sd.get_del)

lemmas receipt_dir = sd.ok_put sd.ok_del sd.get_put sd.get_del deferred_remove_ok deferred_remove_get

lemma write_receipt_failed:
  assumes "dir_ok d" "temp_ok io" "receipt_path_ok path" "writeInstallReceipt io path nonce d = (Some e, d')"
  shows "dir_ok d' \<and> dir_get d' (base_name path) = dir_get d (base_name path)"
  using assms(4) temp_not_base [OF assms(2,3), of d] assms(1)
  by (auto simp: writeInstallReceipt_def Let_def receipt_dir split: option.splits receipt_step.splits if_splits)

lemma write_receipt_done:
  assumes "dir_ok d" "temp_ok io" "receipt_path_ok path" "writeInstallReceipt io path nonce d = (None, d')"
  shows "dir_ok d' \<and> dir_get d' (base_name path) = Some (Regular (receipt_text nonce))"
  using assms(4) temp_not_base [OF assms(2,3), of d] assms(1)
  by (auto simp: writeInstallReceipt_def Let_def receipt_dir split: option.splits receipt_step.splits if_splits)

lemma write_receipt_result:
  assumes "receipt_path_ok path" "dir_get d (base_name path) = None"
  shows "fst (writeInstallReceipt io path nonce d) = io_fails io"
  using assms
  by (auto simp: writeInstallReceipt_def Let_def rename_blocked_def receipt_path_ok_def split: option.splits receipt_step.splits)

subsection \<open>Runs\<close>

text \<open>The reports that can publish the receipt: no step fails and both kinds of report were accepted by then.\<close>

definition publishes :: "(bool \<times> receipt_io) list \<Rightarrow> bool" where
  "publishes evs \<longleftrightarrow>
     (\<exists>i<length evs. io_fails (snd (evs ! i)) = None \<and> {True, False} \<subseteq> fst ` set (take (Suc i) evs))"

lemma publishes_Nil [simp]: "\<not> publishes []"
  by (simp add: publishes_def)

lemma publishes_snoc:
  "publishes (evs @ [ev]) \<longleftrightarrow>
     publishes evs \<or> io_fails (snd ev) = None \<and> {True, False} \<subseteq> fst ` set (evs @ [ev])"
proof -
  let ?P = "\<lambda>es i. io_fails (snd (es ! i)) = None \<and> {True, False} \<subseteq> fst ` set (take (Suc i) es)"
  have "publishes (evs @ [ev]) \<longleftrightarrow> (\<exists>i<Suc (length evs). ?P (evs @ [ev]) i)" by (simp add: publishes_def)
  also have "\<dots> \<longleftrightarrow> (\<exists>i<length evs. ?P (evs @ [ev]) i) \<or> ?P (evs @ [ev]) (length evs)" by (metis less_Suc_eq)
  also have "(\<exists>i<length evs. ?P (evs @ [ev]) i) \<longleftrightarrow> publishes evs"
    unfolding publishes_def by (rule ex_cong1) (simp add: nth_append cong: conj_cong)
  finally show ?thesis by simp
qed

lemma marks_snoc: "marks (evs @ [ev]) st = mark (snd ev) (fst ev) (marks evs st)"
proof (induction evs st rule: marks.induct)
  case (1 st)
  show ?case by (cases ev; cases "fst ev") (auto simp: markHeartbeat_def markState_def)
qed simp_all

definition receipt_state :: "string \<Rightarrow> string \<Rightarrow> (bool \<times> receipt_io) list \<Rightarrow> installReceiptTracker \<times> dir \<Rightarrow> bool" where
  "receipt_state path nonce evs st \<longleftrightarrow>
     (let (r, d) = st in
      r = \<lparr>rt_path = path, rt_nonce = nonce, heartbeatOK = (True \<in> fst ` set evs), stateOK = (False \<in> fst ` set evs),
           written = publishes evs\<rparr> \<and>
      dir_ok d \<and> dir_get d (base_name path) = (if publishes evs then Some (Regular (receipt_text nonce)) else None))"

lemma mark_receipt_state:
  assumes "receipt_path_ok path" "temp_ok (snd ev)" "receipt_state path nonce evs st"
  shows "receipt_state path nonce (evs @ [ev]) (mark (snd ev) (fst ev) st)"
proof -
  obtain hb io where ev: "ev = (hb, io)" by fastforce
  obtain r d where st: "st = (r, d)" by fastforce
  have np: "path \<noteq> []" by (rule receipt_path_not_Nil [OF assms(1)])
  have r: "r = \<lparr>rt_path = path, rt_nonce = nonce, heartbeatOK = (True \<in> fst ` set evs), stateOK = (False \<in> fst ` set evs),
      written = publishes evs\<rparr>" and d: "dir_ok d"
    and g: "dir_get d (base_name path) = (if publishes evs then Some (Regular (receipt_text nonce)) else None)"
    using assms(3) by (auto simp: receipt_state_def st)
  let ?both = "{True, False} \<subseteq> fst ` set (evs @ [ev])"
  show ?thesis
  proof (cases "publishes evs \<or> \<not> ?both")
    case True
    then show ?thesis
      using d g np by (cases hb) (auto simp: receipt_state_def st ev r mark_def Let_def publishes_snoc)
  next
    case False
    obtain res d' where w: "writeInstallReceipt io path nonce d = (res, d')" by fastforce
    have res: "res = io_fails io" using write_receipt_result [OF assms(1)] g False w by (metis fst_conv)
    have io: "temp_ok io" using assms(2) by (simp add: ev)
    have m: "mark io hb st = (\<lparr>rt_path = path, rt_nonce = nonce, heartbeatOK = True, stateOK = True, written = (res = None)\<rparr>, d')"
      using False np w by (cases hb; cases res) (auto simp: st ev r mark_def Let_def)
    have p: "publishes (evs @ [ev]) \<longleftrightarrow> res = None" using False res by (auto simp: publishes_snoc ev)
    have "dir_ok d' \<and> dir_get d' (base_name path) = (if res = None then Some (Regular (receipt_text nonce)) else None)"
      using write_receipt_failed [OF d io assms(1)] write_receipt_done [OF d io assms(1)] w g False by (cases res) auto
    moreover have "True \<in> fst ` set (evs @ [ev])" "False \<in> fst ` set (evs @ [ev])" using False by blast+
    ultimately show ?thesis using m p unfolding receipt_state_def by (simp add: ev)
  qed
qed

lemma marks_receipt_state:
  assumes "receipt_path_ok path" "\<forall>ev\<in>set evs. temp_ok (snd ev)" "dir_ok d" "dir_get d (base_name path) = None"
  shows "receipt_state path nonce evs (marks evs (newInstallReceiptTracker path nonce, d))"
  using assms(2)
proof (induction evs rule: rev_induct)
  case Nil
  show ?case using assms(3,4) by (simp add: receipt_state_def newInstallReceiptTracker_def)
next
  case (snoc ev evs)
  then show ?case using mark_receipt_state [OF assms(1), of ev] by (simp add: marks_snoc)
qed

subsection \<open>Properties\<close>

text \<open>The receipt stands at its path exactly when some attempt met no failure after both a heartbeat and a state
  report had been accepted, and then it is the prefix, the nonce and a newline; until then there is nothing at the
  path, whatever steps failed before. The tracker knows which of the two is the case.\<close>

theorem receipt_published_exactly:
  assumes "receipt_path_ok path" "\<forall>ev\<in>set evs. temp_ok (snd ev)" "dir_ok d" "dir_get d (base_name path) = None"
    "marks evs (newInstallReceiptTracker path nonce, d) = (r, d')"
  shows "dir_get d' (base_name path) =
      (if \<exists>i<length evs. io_fails (snd (evs ! i)) = None \<and> {True, False} \<subseteq> fst ` set (take (Suc i) evs)
       then Some (Regular (installReceiptPrefix @ nonce @ [CHR 0x0A])) else None) \<and>
    (written r \<longleftrightarrow> dir_get d' (base_name path) \<noteq> None)"
proof -
  have "receipt_state path nonce evs (r, d')"
    using marks_receipt_state [OF assms(1-4), of nonce] assms(5) by simp
  then show ?thesis by (auto simp: receipt_state_def publishes_def receipt_text_def)
qed

text \<open>A name that no entry has: longer than all of them.\<close>

definition example_temp :: "dir \<Rightarrow> string" where
  "example_temp d = ''.zeno-install-receipt-'' @ concat (map fst d)"

lemma length_concat_member: "x \<in> set xs \<Longrightarrow> length x \<le> length (concat xs)"
  by (induction xs) auto

lemma example_temp_ok: "temp_ok \<lparr>io_temp = example_temp, io_fails = f, io_remove = b\<rparr>"
proof -
  have "dir_get d (example_temp d) = None" for d
  proof (rule ccontr)
    assume "dir_get d (example_temp d) \<noteq> None"
    then have "example_temp d \<in> set (map fst d)" by (auto simp: dir_get_def map_of_eq_None_iff)
    then show False using length_concat_member [of "example_temp d" "map fst d"] by (simp add: example_temp_def)
  qed
  then show ?thesis by (auto simp: temp_ok_def HasPrefix_iff example_temp_def)
qed

theorem receipt_published_exactly_witness:
  "\<exists>r d'. marks [(True, \<lparr>io_temp = example_temp, io_fails = None, io_remove = True\<rparr>),
      (False, \<lparr>io_temp = example_temp, io_fails = Some SyncStep, io_remove = False\<rparr>),
      (True, \<lparr>io_temp = example_temp, io_fails = None, io_remove = True\<rparr>)] (newInstallReceiptTracker ''/run/receipt'' ''ab'', []) = (r, d') \<and>
     dir_get d' ''receipt'' = Some (Regular (installReceiptPrefix @ ''ab'' @ [CHR 0x0A])) \<and> written r"
proof -
  let ?e = "\<lambda>b f. (b, \<lparr>io_temp = example_temp, io_fails = f, io_remove = (f = None)\<rparr>)"
  let ?evs = "[?e True None, ?e False (Some SyncStep), ?e True None]"
  obtain r d' where m: "marks ?evs (newInstallReceiptTracker ''/run/receipt'' ''ab'', []) = (r, d')" by fastforce
  have b: "base_name ''/run/receipt'' = ''receipt''" by (simp add: base_name_def)
  have p: "receipt_path_ok ''/run/receipt''" by (simp add: receipt_path_ok_def b HasPrefix_def)
  have t: "\<forall>ev\<in>set ?evs. temp_ok (snd ev)" using example_temp_ok by simp
  have "\<exists>i<length ?evs. io_fails (snd (?evs ! i)) = None \<and> {True, False} \<subseteq> fst ` set (take (Suc i) ?evs)"
    by (rule exI [of _ 2]) simp
  then have "dir_get d' ''receipt'' = Some (Regular (installReceiptPrefix @ ''ab'' @ [CHR 0x0A])) \<and> written r"
    using receipt_published_exactly [OF p t _ _ m] by (simp add: b dir_ok_def dir_get_def)
  then show ?thesis using m by auto
qed

end
