(* ===== verification/Go_Text.thy ===== *)
theory Go_Text
  imports Go_URL
begin

text \<open>
  The text functions of Go's \<open>strings\<close> and \<open>bufio\<close> packages that the metric parsers and the command line
  use: fields, splits, cuts, trims and the line scanner with its limit of 64 KiB per line.
\<close>

subsection \<open>Fields\<close>

text \<open>\<open>strings.Fields\<close>: the maximal runs without white space; \<open>cur\<close> is the current run, reversed.\<close>

definition flush :: "string \<Rightarrow> string list" where
  "flush cur = (if cur = [] then [] else [rev cur])"

function fields_from :: "string \<Rightarrow> string \<Rightarrow> string list" where
  "fields_from cur s =
     (case s of
        [] \<Rightarrow> flush cur
      | c # cs \<Rightarrow>
          (case strip_one space_runes s of
             Some t \<Rightarrow> flush cur @ fields_from [] t
           | None \<Rightarrow> fields_from (c # cur) cs))"
  by pat_completeness auto
termination
  by (relation "measure (\<lambda>(cur, s). length s)") (use strip_one_space_shorter in fastforce)+

declare fields_from.simps [simp del]

definition Fields :: "string \<Rightarrow> string list" where
  "Fields s = fields_from [] s"

subsection \<open>Splitting and cutting\<close>

text \<open>\<open>strings.Split\<close> at a separator of one byte.\<close>

fun split_at :: "char \<Rightarrow> string \<Rightarrow> string list" where
  "split_at sep [] = [[]]"
| "split_at sep (c # s) =
     (case split_at sep s of
        [] \<Rightarrow> []
      | w # ws \<Rightarrow> if c = sep then [] # w # ws else (c # w) # ws)"

text \<open>\<open>strings.Cut\<close>: the parts before and after the first occurrence, or \<open>None\<close> without one.\<close>

fun Cut :: "string \<Rightarrow> string \<Rightarrow> (string \<times> string) option" where
  "Cut [] sep = (if sep = [] then Some ([], []) else None)"
| "Cut (c # s) sep =
     (if has_prefix (c # s) sep then Some ([], drop (length sep) (c # s))
      else map_option (\<lambda>(a, b). (c # a, b)) (Cut s sep))"

text \<open>\<open>strings.Trim\<close> with a set of ASCII characters.\<close>

definition Trim :: "string \<Rightarrow> string \<Rightarrow> string" where
  "Trim s cutset = rev (dropWhile (\<lambda>c. c \<in> set cutset) (rev (dropWhile (\<lambda>c. c \<in> set cutset) s)))"

fun Join :: "string list \<Rightarrow> string \<Rightarrow> string" where
  "Join [] sep = []"
| "Join [w] sep = w"
| "Join (w # ws) sep = w @ sep @ Join ws sep"

subsection \<open>Lines\<close>

text \<open>
  \<open>bufio.Scanner\<close> with its default split function: the lines without their terminator (a newline,
  with a preceding carriage return); a last line without newline counts unless it is empty. A line
  whose newline is not among the first 65536 bytes stops the scan with an error.
\<close>

definition MaxScanTokenSize :: nat where "MaxScanTokenSize = 65536"

definition dropCR :: "string \<Rightarrow> string" where
  "dropCR l = (if l \<noteq> [] \<and> last l = CHR 0x0D then butlast l else l)"

fun raw_lines :: "string list \<Rightarrow> string list" where
  "raw_lines [] = []"
| "raw_lines [l] = (if l = [] then [] else [l])"
| "raw_lines (l # ls) = l # raw_lines ls"

definition ScanLines :: "nat \<Rightarrow> string \<Rightarrow> string list \<times> bool" where
  "ScanLines limit content =
     (let ls = raw_lines (split_at (CHR 0x0A) content); good = takeWhile (\<lambda>l. length l < limit) ls
      in (map dropCR good, length good < length ls))"

subsection \<open>Facts\<close>

lemma split_at_not_Nil [simp]: "split_at sep s \<noteq> []"
  by (induction s) (auto split: list.splits)

lemma split_at_Join: "Join (split_at sep s) [sep] = s"
proof (induction s)
  case (Cons c s)
  obtain w ws where w: "split_at sep s = w # ws" using split_at_not_Nil by (metis neq_Nil_conv)
  then show ?case using Cons by (cases ws) auto
qed simp

lemma split_at_no_sep: "\<forall>w\<in>set (split_at sep s). sep \<notin> set w"
proof (induction s)
  case (Cons c s)
  then show ?case by (cases "split_at sep s") auto
qed simp

lemma split_at_plain: "sep \<notin> set w \<Longrightarrow> split_at sep w = [w]"
  by (induction w) auto

lemma split_at_append: "sep \<notin> set w \<Longrightarrow> split_at sep (w @ sep # s) = w # split_at sep s"
proof (induction w)
  case Nil
  show ?case by (cases "split_at sep s") (use split_at_not_Nil [of sep s] in auto)
qed auto

lemma Cut_append: "c \<notin> set w \<Longrightarrow> Cut (w @ c # s) [c] = Some (w, s)"
  by (induction w) auto

lemma Cut_parts: "Cut s sep = Some (a, b) \<Longrightarrow> s = a @ sep @ b"
proof (induction s arbitrary: a)
  case (Cons c s)
  then show ?case by (auto simp: has_prefix_iff split: if_splits)
qed (auto split: if_splits)

lemma Cut_None_iff: "Cut s [c] = None \<longleftrightarrow> c \<notin> set s"
  by (induction s) auto

text \<open>A word without white space is one field, whatever blank follows.\<close>

definition blank_free :: "string \<Rightarrow> bool" where
  "blank_free w \<longleftrightarrow> (\<forall>c\<in>set w. c \<notin> hd ` set space_runes)"

lemma strip_one_blank_free: "c \<notin> hd ` set space_runes \<Longrightarrow> strip_one space_runes (c # s) = None"
  unfolding strip_one_None_iff by (auto simp: space_runes_def)

lemma fields_from_word: "blank_free w \<Longrightarrow> fields_from cur (w @ s) = fields_from (rev w @ cur) s"
proof (induction w arbitrary: cur)
  case (Cons c w)
  then have "strip_one space_runes (c # w @ s) = None" by (intro strip_one_blank_free) (auto simp: blank_free_def)
  then have "fields_from cur (c # w @ s) = fields_from (c # cur) (w @ s)" by (subst fields_from.simps) simp
  then show ?case using Cons by (simp add: blank_free_def)
qed simp

lemma fields_from_blank: "fields_from cur (CHR 0x20 # s) = flush cur @ fields_from [] s"
proof -
  have "strip_one space_runes (CHR 0x20 # s) = Some s" by (simp add: space_runes_def)
  then show ?thesis by (subst fields_from.simps) simp
qed

lemma Fields_Nil [simp]: "Fields [] = []"
  by (simp add: Fields_def fields_from.simps flush_def)

lemma Fields_blank [simp]: "Fields (CHR 0x20 # s) = Fields s"
  by (simp add: Fields_def fields_from_blank flush_def)

lemma Fields_word: "blank_free w \<Longrightarrow> w \<noteq> [] \<Longrightarrow> Fields (w @ CHR 0x20 # s) = w # Fields s"
  by (simp add: Fields_def fields_from_word fields_from_blank flush_def)

lemma Fields_single: "blank_free w \<Longrightarrow> w \<noteq> [] \<Longrightarrow> Fields w = [w]"
  using fields_from_word [of w "[]" "[]"] by (simp add: Fields_def fields_from.simps flush_def)

lemma Fields_Join:
  assumes "\<forall>w\<in>set ws. blank_free w \<and> w \<noteq> []"
  shows "Fields (Join ws [CHR 0x20]) = ws"
  using assms
proof (induction ws "[CHR 0x20]" rule: Join.induct)
  case (3 w v vs)
  then show ?case using Fields_word [of w "Join (v # vs) [CHR 0x20]"] by simp
qed (auto simp: Fields_single)

lemma digit_blank_free: "list_all is_digit w \<Longrightarrow> blank_free w"
  by (auto simp: blank_free_def space_runes_def is_digit_def list_all_iff)

end
