(* ===== verification/Metrics_Parse.thy ===== *)
theory Metrics_Parse
  imports Go_Text
begin

text \<open>
  The parsers of the Linux metric files (\<open>internal/agent/metrics.go\<close>, \<open>memory_unix.go\<close>,
  \<open>windows_metrics_common.go\<close> for the integer helpers, \<open>parseKeyValueLines\<close> of \<open>probe.go\<close>). A file that
  cannot be read is \<open>None\<close>; the text of a file is its bytes.
\<close>

subsection \<open>Integers\<close>

definition nonNegativeInt64 :: "int \<Rightarrow> int" where
  "nonNegativeInt64 value = (if value < 0 then 0 else value)"

text \<open>\<open>uint64\<close> values are 64-bit words; subtraction wraps.\<close>

definition uint64DifferenceAsInt64 :: "64 word \<Rightarrow> 64 word \<Rightarrow> int" where
  "uint64DifferenceAsInt64 left right =
     (if left \<le> right then 0
      else let delta = left - right in if delta > word_of_int maxInt64 then maxInt64 else uint delta)"

definition windowsPagefileSwapTotals :: "64 word \<Rightarrow> 64 word \<Rightarrow> 64 word \<Rightarrow> 64 word \<Rightarrow> int \<times> int" where
  "windowsPagefileSwapTotals totalPageFile availablePageFile totalPhys availablePhys =
     (uint64DifferenceAsInt64 totalPageFile totalPhys, uint64DifferenceAsInt64 availablePageFile availablePhys)"

text \<open>
  The value \<open>strconv.ParseInt\<close> returns next to its error: zero for malformed text, the nearest bound for
  a number out of range.
\<close>

definition ParseInt_value :: "string \<Rightarrow> int" where
  "ParseInt_value s =
     (let neg = (s \<noteq> [] \<and> hd s = CHR ''-'');
          ds = (if s \<noteq> [] \<and> (hd s = CHR ''-'' \<or> hd s = CHR ''+'') then tl s else s)
      in if ds = [] \<or> \<not> list_all is_digit ds then 0
         else if neg then max minInt64 (- int (digits_val ds)) else min maxInt64 (int (digits_val ds)))"

subsection \<open>Allowlists and interfaces\<close>

fun allow_loop :: "string list \<Rightarrow> string list \<Rightarrow> string list" where
  "allow_loop seen [] = []"
| "allow_loop seen (v # vs) =
     (let trimmed = TrimSpace v in
      if trimmed = [] then allow_loop seen vs
      else if trimmed \<in> set seen then allow_loop seen vs
      else trimmed # allow_loop (trimmed # seen) vs)"

definition normalizeAllowlist :: "string list \<Rightarrow> string list" where
  "normalizeAllowlist values = allow_loop [] values"

text \<open>A set of names is a list without repetitions; a \<open>nil\<close> map is the empty one.\<close>

definition allowlistSet :: "string list \<Rightarrow> string list" where
  "allowlistSet values = normalizeAllowlist values"

definition defaultExcludedInterfacePrefixes :: "string list" where
  "defaultExcludedInterfacePrefixes =
     [''lo'', ''docker'', ''veth'', ''br-'', ''tun'', ''utun'', ''tailscale'', ''kube'', ''vmbr'', ''tap'', ''cni'',
      ''flannel'', ''cali'', ''weave'', ''virbr'', ''vnet'', ''vethernet'', ''virtualbox'', ''vmware'', ''hyper-v'',
      ''loopback'', ''isatap'', ''teredo'', ''npcap'', ''bluetooth'', ''zt'']"

definition includeNetworkInterface :: "string \<Rightarrow> string list \<Rightarrow> bool" where
  "includeNetworkInterface name allowlist =
     (let trimmed = TrimSpace name in
      if trimmed = [] then False
      else if allowlist \<noteq> [] then trimmed \<in> set allowlist
      else let lower = ToLower trimmed in
        \<not> list_ex (\<lambda>p. lower = p \<or> HasPrefix lower p) defaultExcludedInterfacePrefixes)"

subsection \<open>Network counters\<close>

record networkTotals =
  InBytes :: int
  OutBytes :: int
  SourceNames :: "string list"

definition no_totals :: networkTotals where
  "no_totals = \<lparr>InBytes = 0, OutBytes = 0, SourceNames = []\<rparr>"

datatype metrics_error =
    ReadError bool                   \<comment> \<open>whether the file does not exist\<close>
  | ShortRow string nat
  | BadCounter string
  | CounterOverflow
  | LineTooLong
  | NoHeader
  | EmptyTable
  | MalformedRow

definition parseNetworkCounter :: "string \<Rightarrow> int option" where
  "parseNetworkCounter value =
     (case ParseUint value of None \<Rightarrow> None | Some parsed \<Rightarrow> if parsed > maxInt64 then None else Some parsed)"

text \<open>One row added to the totals, with the overflow check in front of the additions.\<close>

definition add_counters :: "string \<Rightarrow> int \<Rightarrow> int \<Rightarrow> networkTotals \<Rightarrow> metrics_error + networkTotals" where
  "add_counters iface inBytes outBytes t =
     (if inBytes > wrap64 (maxInt64 - InBytes t) \<or> outBytes > wrap64 (maxInt64 - OutBytes t) then Inl CounterOverflow
      else Inr \<lparr>InBytes = wrap64 (InBytes t + inBytes), OutBytes = wrap64 (OutBytes t + outBytes),
                SourceNames = SourceNames t @ [iface]\<rparr>)"

fun net_loop :: "string list \<Rightarrow> string list \<Rightarrow> networkTotals \<Rightarrow> bool \<Rightarrow> metrics_error + networkTotals \<times> bool" where
  "net_loop allowlist [] totals foundHeader = Inr (totals, foundHeader)"
| "net_loop allowlist (raw # ls) totals foundHeader =
     (let line = TrimSpace raw in
      if HasPrefix line ''Inter-|'' then net_loop allowlist ls totals True
      else case Cut line '':'' of
        None \<Rightarrow> net_loop allowlist ls totals foundHeader
      | Some (name, rest) \<Rightarrow>
          let iface = TrimSpace name in
          if \<not> includeNetworkInterface iface allowlist then net_loop allowlist ls totals foundHeader
          else
            let fields = Fields rest in
            if length fields < 16 then Inl (ShortRow iface (length fields))
            else case parseNetworkCounter (fields ! 0) of
              None \<Rightarrow> Inl (BadCounter iface)
            | Some inBytes \<Rightarrow>
                (case parseNetworkCounter (fields ! 8) of
                   None \<Rightarrow> Inl (BadCounter iface)
                 | Some outBytes \<Rightarrow>
                     (case add_counters iface inBytes outBytes totals of
                        Inl e \<Rightarrow> Inl e
                      | Inr t \<Rightarrow> net_loop allowlist ls t foundHeader)))"

definition parseLinuxNetworkTotals :: "string \<Rightarrow> string list \<Rightarrow> metrics_error + networkTotals" where
  "parseLinuxNetworkTotals content allowlist =
     (case ScanLines MaxScanTokenSize content of (ls, tooLong) \<Rightarrow>
        (case net_loop allowlist ls no_totals False of
           Inl e \<Rightarrow> Inl e
         | Inr (totals, foundHeader) \<Rightarrow>
             if tooLong then Inl LineTooLong else if \<not> foundHeader then Inl NoHeader else Inr totals))"

definition readNetworkTotals :: "string option \<Rightarrow> string list \<Rightarrow> metrics_error + networkTotals" where
  "readNetworkTotals file allowlist =
     (case file of None \<Rightarrow> Inl (ReadError False) | Some content \<Rightarrow> parseLinuxNetworkTotals content allowlist)"

subsection \<open>The network table as a sum over its rows\<close>

text \<open>The row of a line: the interface and its fields, if the line is one and the interface is counted.\<close>

definition net_row :: "string list \<Rightarrow> string \<Rightarrow> (string \<times> string list) option" where
  "net_row allowlist raw =
     (if HasPrefix (TrimSpace raw) ''Inter-|'' then None
      else case Cut (TrimSpace raw) '':'' of
        None \<Rightarrow> None
      | Some (name, rest) \<Rightarrow>
          if includeNetworkInterface (TrimSpace name) allowlist then Some (TrimSpace name, Fields rest) else None)"

definition net_rows :: "string list \<Rightarrow> string list \<Rightarrow> (string \<times> string list) list" where
  "net_rows allowlist ls = List.map_filter (net_row allowlist) ls"

definition row_ok :: "string \<times> string list \<Rightarrow> bool" where
  "row_ok row \<longleftrightarrow> 16 \<le> length (snd row) \<and> parseNetworkCounter (snd row ! 0) \<noteq> None \<and> parseNetworkCounter (snd row ! 8) \<noteq> None"

definition row_counter :: "nat \<Rightarrow> string \<times> string list \<Rightarrow> int" where
  "row_counter i row = (case parseNetworkCounter (snd row ! i) of None \<Rightarrow> 0 | Some n \<Rightarrow> n)"

definition rows_total :: "nat \<Rightarrow> (string \<times> string list) list \<Rightarrow> int" where
  "rows_total i rows = sum_list (map (row_counter i) rows)"

lemma parseNetworkCounter_range: "parseNetworkCounter v = Some n \<Longrightarrow> 0 \<le> n \<and> n \<le> maxInt64"
  by (auto simp: parseNetworkCounter_def dest: ParseUint_range split: option.splits if_splits)

lemma row_counter_nonneg [simp]: "0 \<le> row_counter i row"
  by (auto simp: row_counter_def dest: parseNetworkCounter_range split: option.splits)

lemma rows_total_nonneg [simp]: "0 \<le> rows_total i rows"
  unfolding rows_total_def by (induction rows) (simp_all add: add_nonneg_nonneg)

lemma rows_total_simps [simp]: "rows_total i [] = 0" "rows_total i (r # rs) = row_counter i r + rows_total i rs"
  by (simp_all add: rows_total_def)

definition totals_ok :: "networkTotals \<Rightarrow> bool" where
  "totals_ok t \<longleftrightarrow> 0 \<le> InBytes t \<and> InBytes t \<le> maxInt64 \<and> 0 \<le> OutBytes t \<and> OutBytes t \<le> maxInt64"

lemma add_counters_eq:
  assumes "totals_ok t" "0 \<le> i" "i \<le> maxInt64" "0 \<le> k" "k \<le> maxInt64"
  shows "add_counters iface i k t =
    (if InBytes t + i \<le> maxInt64 \<and> OutBytes t + k \<le> maxInt64
     then Inr \<lparr>InBytes = InBytes t + i, OutBytes = OutBytes t + k, SourceNames = SourceNames t @ [iface]\<rparr>
     else Inl CounterOverflow)"
proof -
  have "wrap64 (maxInt64 - InBytes t) = maxInt64 - InBytes t" "wrap64 (maxInt64 - OutBytes t) = maxInt64 - OutBytes t"
    using assms(1) by (auto intro!: wrap64_id simp: totals_ok_def fits64_def minInt64_def maxInt64_def)
  moreover have "InBytes t + i \<le> maxInt64 \<Longrightarrow> wrap64 (InBytes t + i) = InBytes t + i"
    "OutBytes t + k \<le> maxInt64 \<Longrightarrow> wrap64 (OutBytes t + k) = OutBytes t + k"
    using assms by (auto intro!: wrap64_id simp: totals_ok_def fits64_def minInt64_def)
  ultimately show ?thesis by (auto simp: add_counters_def)
qed

definition has_header :: "string list \<Rightarrow> bool" where
  "has_header ls \<longleftrightarrow> list_ex (\<lambda>raw. HasPrefix (TrimSpace raw) ''Inter-|'') ls"

lemma net_loop_skip:
  "net_row allowlist raw = None \<Longrightarrow>
   net_loop allowlist (raw # ls) t h = net_loop allowlist ls t (h \<or> HasPrefix (TrimSpace raw) ''Inter-|'')"
  by (auto simp: net_row_def Let_def split: if_splits option.splits)

lemma net_loop_row:
  assumes "net_row allowlist raw = Some (iface, f)" "totals_ok t"
  shows "net_loop allowlist (raw # ls) t h = Inr r \<longleftrightarrow>
    row_ok (iface, f) \<and> InBytes t + row_counter 0 (iface, f) \<le> maxInt64 \<and> OutBytes t + row_counter 8 (iface, f) \<le> maxInt64 \<and>
    net_loop allowlist ls \<lparr>InBytes = InBytes t + row_counter 0 (iface, f), OutBytes = OutBytes t + row_counter 8 (iface, f),
      SourceNames = SourceNames t @ [iface]\<rparr> h = Inr r"
  using assms
  by (auto simp: net_row_def Let_def row_ok_def row_counter_def add_counters_eq parseNetworkCounter_range
      split: if_splits option.splits)

lemma net_loop_iff:
  assumes "totals_ok t"
  shows "net_loop allowlist ls t h = Inr (t', h') \<longleftrightarrow>
    list_all row_ok (net_rows allowlist ls) \<and>
    InBytes t + rows_total 0 (net_rows allowlist ls) \<le> maxInt64 \<and> OutBytes t + rows_total 8 (net_rows allowlist ls) \<le> maxInt64 \<and>
    t' = \<lparr>InBytes = InBytes t + rows_total 0 (net_rows allowlist ls), OutBytes = OutBytes t + rows_total 8 (net_rows allowlist ls),
          SourceNames = SourceNames t @ map fst (net_rows allowlist ls)\<rparr> \<and> h' = (h \<or> has_header ls)"
  using assms
proof (induction ls arbitrary: t h)
  case Nil
  then show ?case by (auto simp: net_rows_def map_filter_simps has_header_def totals_ok_def)
next
  case (Cons raw ls)
  show ?case
  proof (cases "net_row allowlist raw")
    case None
    then show ?thesis
      using Cons by (auto simp: net_loop_skip net_rows_def map_filter_simps has_header_def simp del: net_loop.simps)
  next
    case (Some row)
    obtain iface f where row: "row = (iface, f)" by fastforce
    let ?i = "row_counter 0 row" and ?o = "row_counter 8 row"
    let ?t = "\<lparr>InBytes = InBytes t + ?i, OutBytes = OutBytes t + ?o, SourceNames = SourceNames t @ [iface]\<rparr>"
    have rows: "net_rows allowlist (raw # ls) = row # net_rows allowlist ls" using Some by (simp add: net_rows_def map_filter_simps)
    have hd: "\<not> HasPrefix (TrimSpace raw) ''Inter-|''" using Some by (auto simp: net_row_def)
    show ?thesis
    proof (cases "InBytes t + ?i \<le> maxInt64 \<and> OutBytes t + ?o \<le> maxInt64")
      case True
      then have "totals_ok ?t" using Cons.prems by (simp add: totals_ok_def)
      from Cons.IH [OF this, of h] show ?thesis
        using True hd net_loop_row [OF Some [unfolded row] Cons.prems, of ls h "(t', h')"]
        by (auto simp: rows row has_header_def add.assoc simp del: net_loop.simps)
    next
      case False
      then show ?thesis
        using net_loop_row [OF Some [unfolded row] Cons.prems, of ls h "(t', h')"]
          rows_total_nonneg [of 0 "net_rows allowlist ls"] rows_total_nonneg [of 8 "net_rows allowlist ls"]
        by (auto simp: rows row simp del: net_loop.simps rows_total_nonneg)
    qed
  qed
qed

subsection \<open>Properties of the network table\<close>

text \<open>C23: The totals of the Linux network table are returned exactly when no line is too long, the header is there, every
  counted row has sixteen fields with counters in range, and the sums fit a signed 64-bit integer; they are then the exact
  sums over the counted rows, and the sources are the interfaces of these rows in order. No addition wraps.\<close>

theorem network_totals_exact:
  "parseLinuxNetworkTotals content allowlist = Inr t \<longleftrightarrow>
   (let (ls, tooLong) = ScanLines MaxScanTokenSize content; rows = net_rows allowlist ls in
    \<not> tooLong \<and> has_header ls \<and> list_all row_ok rows \<and> rows_total 0 rows \<le> maxInt64 \<and> rows_total 8 rows \<le> maxInt64 \<and>
    t = \<lparr>InBytes = rows_total 0 rows, OutBytes = rows_total 8 rows, SourceNames = map fst rows\<rparr>)"
proof -
  obtain ls tooLong where s: "ScanLines MaxScanTokenSize content = (ls, tooLong)" by fastforce
  have "totals_ok no_totals" by (simp add: totals_ok_def no_totals_def maxInt64_def)
  from net_loop_iff [OF this, of allowlist ls False]
  have l: "net_loop allowlist ls no_totals False = Inr (t', h') \<longleftrightarrow>
    list_all row_ok (net_rows allowlist ls) \<and> rows_total 0 (net_rows allowlist ls) \<le> maxInt64 \<and>
    rows_total 8 (net_rows allowlist ls) \<le> maxInt64 \<and>
    t' = \<lparr>InBytes = rows_total 0 (net_rows allowlist ls), OutBytes = rows_total 8 (net_rows allowlist ls),
      SourceNames = map fst (net_rows allowlist ls)\<rparr> \<and> h' = has_header ls" for t' h'
    by (simp add: no_totals_def)
  show ?thesis
  proof (cases "net_loop allowlist ls no_totals False")
    case (Inl e)
    then show ?thesis using l by (auto simp: parseLinuxNetworkTotals_def s Let_def)
  next
    case (Inr p)
    then show ?thesis using l [of "fst p" "snd p"] by (auto simp: parseLinuxNetworkTotals_def s Let_def split: prod.splits)
  qed
qed

end
