(* ===== verification/Metrics_System.thy ===== *)
theory Metrics_System
  imports Metrics_Parse
begin

text \<open>
  The other Linux readers of \<open>internal/agent/metrics.go\<close> and \<open>memory_unix.go\<close>: CPU times, memory, the
  connection tables, processes and the static facts of the host. Each takes the contents of the files it
  reads, \<open>None\<close> for one that cannot be read.
\<close>

subsection \<open>CPU times\<close>

record cpuTimes =
  Total :: "64 word"
  Idle :: "64 word"

text \<open>The loop over \<open>fields[1:]\<close>: the fourth and fifth values are idle time; sums of \<open>uint64\<close> wrap.\<close>

fun cpu_loop :: "nat \<Rightarrow> string list \<Rightarrow> cpuTimes \<Rightarrow> cpuTimes option" where
  "cpu_loop index [] t = Some t"
| "cpu_loop index (field # rest) t =
     (case ParseUint field of
        None \<Rightarrow> None
      | Some value \<Rightarrow>
          cpu_loop (Suc index) rest
            \<lparr>Total = Total t + word_of_int value,
             Idle = (if index = 3 \<or> index = 4 then Idle t + word_of_int value else Idle t)\<rparr>)"

definition readCPUTimes :: "string option \<Rightarrow> cpuTimes option" where
  "readCPUTimes file =
     (case file of
        None \<Rightarrow> None
      | Some content \<Rightarrow>
          (case fst (ScanLines MaxScanTokenSize content) of
             [] \<Rightarrow> None
           | line # ls \<Rightarrow>
               let fields = Fields line in
               if length fields < 5 \<or> hd fields \<noteq> ''cpu'' then None
               else cpu_loop 0 (tl fields) \<lparr>Total = 0, Idle = 0\<rparr>))"

subsection \<open>Memory\<close>

record memoryStats =
  memTotal :: int
  memAvailable :: int
  swapTotal :: int
  swapFree :: int

definition memory_line :: "string \<Rightarrow> memoryStats \<Rightarrow> memoryStats" where
  "memory_line line stats =
     (let fields = Fields line in
      if length fields < 2 then stats
      else case ParseInt (fields ! 1) of
        None \<Rightarrow> stats
      | Some valueKB \<Rightarrow>
          let key = TrimSuffix (fields ! 0) '':''; bytes = wrap64 (valueKB * 1024) in
          if key = ''MemTotal'' then stats\<lparr>memTotal := bytes\<rparr>
          else if key = ''MemAvailable'' then stats\<lparr>memAvailable := bytes\<rparr>
          else if key = ''SwapTotal'' then stats\<lparr>swapTotal := bytes\<rparr>
          else if key = ''SwapFree'' then stats\<lparr>swapFree := bytes\<rparr>
          else stats)"

definition parseMemoryStats :: "string \<Rightarrow> memoryStats" where
  "parseMemoryStats content =
     fold memory_line (fst (ScanLines MaxScanTokenSize content))
       \<lparr>memTotal = 0, memAvailable = 0, swapTotal = 0, swapFree = 0\<rparr>"

definition platformMemoryTotals :: "string option \<Rightarrow> int \<times> int" where
  "platformMemoryTotals file =
     (case file of None \<Rightarrow> (0, 0) | Some content \<Rightarrow> let stats = parseMemoryStats content in (memTotal stats, memAvailable stats))"

definition platformSwapTotals :: "string option \<Rightarrow> int \<times> int" where
  "platformSwapTotals file =
     (case file of None \<Rightarrow> (0, 0) | Some content \<Rightarrow> let stats = parseMemoryStats content in (swapTotal stats, swapFree stats))"

definition readMemoryTotals :: "string option \<Rightarrow> int \<times> int" where
  "readMemoryTotals file = platformMemoryTotals file"

definition readSwapTotals :: "string option \<Rightarrow> int \<times> int" where
  "readSwapTotals file = platformSwapTotals file"

subsection \<open>Connection tables\<close>

text \<open>A file is its content, or the error of reading it.\<close>

definition table_header_ok :: "string list \<Rightarrow> bool" where
  "table_header_ok header \<longleftrightarrow>
     3 \<le> length header \<and> header ! 0 = ''sl'' \<and> header ! 1 = ''local_address'' \<and>
     (header ! 2 = ''rem_address'' \<or> header ! 2 = ''remote_address'')"

definition table_row_ok :: "string \<Rightarrow> bool" where
  "table_row_ok line \<longleftrightarrow> (let fields = Fields line in 10 \<le> length fields \<and> HasSuffix (fields ! 0) '':'')"

definition tcpConnectionCountFromFileResult :: "metrics_error + string \<Rightarrow> metrics_error + int" where
  "tcpConnectionCountFromFileResult file =
     (case file of
        Inl e \<Rightarrow> Inl e
      | Inr content \<Rightarrow>
          let trimmed = TrimSpace content in
          if trimmed = [] then Inl EmptyTable
          else let rows = split_at (CHR 0x0A) trimmed in
            if \<not> table_header_ok (Fields (hd rows)) then Inl NoHeader
            else if list_ex (\<lambda>line. \<not> table_row_ok line) (tl rows) then Inl MalformedRow
            else Inr (int (length rows) - 1))"

definition tcpConnectionCountFromFile :: "metrics_error + string \<Rightarrow> int" where
  "tcpConnectionCountFromFile file = (case tcpConnectionCountFromFileResult file of Inl e \<Rightarrow> 0 | Inr n \<Rightarrow> n)"

definition optionalConnectionCountFromFile :: "metrics_error + string \<Rightarrow> metrics_error + int" where
  "optionalConnectionCountFromFile file =
     (case tcpConnectionCountFromFileResult file of
        Inl e \<Rightarrow> if e = ReadError True then Inr 0 else Inl e
      | Inr n \<Rightarrow> Inr n)"

text \<open>The four tables of \<open>/proc/net\<close>.\<close>

record connection_files =
  cf_tcp :: "metrics_error + string"
  cf_tcp6 :: "metrics_error + string"
  cf_udp :: "metrics_error + string"
  cf_udp6 :: "metrics_error + string"

definition connectionCounts :: "connection_files \<Rightarrow> metrics_error + int \<times> int" where
  "connectionCounts files =
     (case tcpConnectionCountFromFileResult (cf_tcp files) of Inl e \<Rightarrow> Inl e | Inr tcp4 \<Rightarrow>
      (case optionalConnectionCountFromFile (cf_tcp6 files) of Inl e \<Rightarrow> Inl e | Inr tcp6 \<Rightarrow>
       (case tcpConnectionCountFromFileResult (cf_udp files) of Inl e \<Rightarrow> Inl e | Inr udp4 \<Rightarrow>
        (case optionalConnectionCountFromFile (cf_udp6 files) of Inl e \<Rightarrow> Inl e | Inr udp6 \<Rightarrow>
         Inr (tcp4 + tcp6, udp4 + udp6)))))"

subsection \<open>Processes and static facts\<close>

definition processCount :: "(string \<times> bool) list option \<Rightarrow> int" where
  "processCount entries =
     (case entries of
        None \<Rightarrow> 0
      | Some es \<Rightarrow> int (length (filter (\<lambda>(name, isDir). isDir \<and> name \<noteq> [] \<and> list_all is_digit name) es)))"

fun key_values :: "string list \<Rightarrow> (string \<rightharpoonup> string) \<Rightarrow> (string \<rightharpoonup> string)" where
  "key_values [] m = m"
| "key_values (raw # ls) m =
     (let line = TrimSpace raw in
      if line = [] \<or> HasPrefix line ''#'' then key_values ls m
      else case Cut line ''='' of
        None \<Rightarrow> key_values ls m
      | Some (key, value) \<Rightarrow> key_values ls (m(key \<mapsto> Trim (TrimSpace value) [CHR 0x22])))"

definition parseKeyValueLines :: "string \<Rightarrow> (string \<rightharpoonup> string)" where
  "parseKeyValueLines content = key_values (fst (ScanLines MaxScanTokenSize content)) Map.empty"

definition osRelease :: "string option \<Rightarrow> string \<times> string" where
  "osRelease file =
     (case file of
        None \<Rightarrow> (''linux'', [])
      | Some content \<Rightarrow>
          let values = parseKeyValueLines content;
              field = (\<lambda>k. case values k of None \<Rightarrow> [] | Some v \<Rightarrow> v);
              ident = (if field ''ID'' = [] then ''linux'' else field ''ID'')
          in (ident, field ''VERSION_ID''))"

definition kernelRelease :: "string option \<Rightarrow> string" where
  "kernelRelease file = (case file of None \<Rightarrow> [] | Some content \<Rightarrow> TrimSpace content)"

text \<open>The product name and, if there is none, the vendor.\<close>

definition virtualizationName :: "string option \<Rightarrow> string option \<Rightarrow> string" where
  "virtualizationName product vendor =
     (let value = (\<lambda>file. case file of None \<Rightarrow> [] | Some content \<Rightarrow> TrimSpace content) in
      if value product \<noteq> [] then value product else value vendor)"

fun model_name :: "string list \<Rightarrow> string" where
  "model_name [] = []"
| "model_name (line # ls) =
     (case Cut line '':'' of
        None \<Rightarrow> model_name ls
      | Some (key, value) \<Rightarrow> if TrimSpace key = ''model name'' then TrimSpace value else model_name ls)"

definition cpuModel :: "string option \<Rightarrow> string" where
  "cpuModel file = (case file of None \<Rightarrow> [] | Some content \<Rightarrow> model_name (fst (ScanLines MaxScanTokenSize content)))"

fun btime :: "string list \<Rightarrow> int" where
  "btime [] = 0"
| "btime (line # ls) =
     (let fields = Fields line in
      if length fields = 2 \<and> hd fields = ''btime'' then ParseInt_value (fields ! 1) else btime ls)"

definition bootTime :: "string option \<Rightarrow> int" where
  "bootTime file = (case file of None \<Rightarrow> 0 | Some content \<Rightarrow> btime (fst (ScanLines MaxScanTokenSize content)))"

definition normalizedArch :: "string \<Rightarrow> string" where
  "normalizedArch arch = (if arch = ''amd64'' then ''x86_64'' else if arch = ''arm64'' then ''aarch64'' else arch)"

subsection \<open>CPU times as sums\<close>

lemma cpu_loop_late:
  assumes "5 \<le> i"
  shows "cpu_loop i fs t =
     (if list_all (\<lambda>f. ParseUint f \<noteq> None) fs
      then Some \<lparr>Total = Total t + word_of_int (sum_list (map (the \<circ> ParseUint) fs)), Idle = Idle t\<rparr> else None)"
  using assms
proof (induction fs arbitrary: i t)
  case (Cons f fs)
  then show ?case by (cases "ParseUint f") (auto simp: add.assoc comp_def)
qed simp

text \<open>The total is the sum of all values and the idle time the sum of the fourth and the fifth, both modulo the word size.\<close>

lemma cpu_loop_sums:
  "cpu_loop 0 (a # b # c # d # e # fs) \<lparr>Total = 0, Idle = 0\<rparr> =
     (if list_all (\<lambda>f. ParseUint f \<noteq> None) (a # b # c # d # e # fs)
      then Some \<lparr>Total = word_of_int (sum_list (map (the \<circ> ParseUint) (a # b # c # d # e # fs))),
                 Idle = word_of_int (the (ParseUint d) + the (ParseUint e))\<rparr> else None)"
  by (cases "ParseUint a"; cases "ParseUint b"; cases "ParseUint c"; cases "ParseUint d"; cases "ParseUint e")
    (simp_all add: cpu_loop_late add.assoc comp_def)

subsection \<open>Connection counts\<close>

lemma connection_count_nonneg: "tcpConnectionCountFromFileResult file = Inr n \<Longrightarrow> 0 \<le> n"
proof -
  assume a: "tcpConnectionCountFromFileResult file = Inr n"
  have "1 \<le> length (split_at sep s)" for sep s by (simp add: Suc_le_eq)
  then have "0 \<le> int (length (split_at sep s)) - 1" for sep s by (simp add: int_one_le_iff_zero_less)
  with a show ?thesis by (auto simp: tcpConnectionCountFromFileResult_def Let_def split: sum.splits if_splits)
qed

lemma optional_count_nonneg: "optionalConnectionCountFromFile file = Inr n \<Longrightarrow> 0 \<le> n"
  by (auto simp: optionalConnectionCountFromFile_def dest: connection_count_nonneg split: sum.splits if_splits)

lemma connectionCounts_nonneg: "connectionCounts files = Inr (tcp, udp) \<Longrightarrow> 0 \<le> tcp \<and> 0 \<le> udp"
  by (auto simp: connectionCounts_def dest!: connection_count_nonneg optional_count_nonneg split: sum.splits)

end
