(* ===== verification/State_Sample.thy ===== *)
theory State_Sample
  imports Probe_Round Go_Float
begin

text \<open>
  State samples and their identifiers (\<open>StateSample\<close> of \<open>internal/agent/types.go\<close>,
  \<open>internal/agent/state_sample_id.go\<close>). SHA-256, the random source, \<open>json.Marshal\<close> and the verb \<open>%+v\<close>
  are parameters; a load average may be any \<open>float64\<close>, also an infinity; the sequence number is the package variable \<open>stateSampleIDSequence\<close>.
\<close>

record StateSample =
  SampleID :: string
  IdempotencyKey :: string
  st_TS :: int
  CPUPercent :: float64
  Load1 :: gofloat
  Load5 :: gofloat
  Load15 :: gofloat
  MemoryUsedBytes :: int
  MemoryTotalBytes :: int
  SwapUsedBytes :: int
  SwapTotalBytes :: int
  DiskUsedBytes :: int
  DiskTotalBytes :: int
  NetInTotalBytes :: int
  NetOutTotalBytes :: int
  NetInSpeedBps :: float64
  NetOutSpeedBps :: float64
  NetTotalsValid :: "bool option"
  NetCounterSource :: string
  ProcessCount :: int
  TCPConnectionCount :: int
  UDPConnectionCount :: int
  ConnectionCountsValid :: "bool option"
  UptimeSeconds :: int

record sample_id_env =
  se_sha :: "string \<Rightarrow> string"                     \<comment> \<open>\<open>sha256.Sum256\<close>\<close>
  se_random :: "string option"                     \<comment> \<open>sixteen bytes of \<open>crypto/rand\<close>, or its failure\<close>

text \<open>The identifier and the sequence number after it.\<close>

definition newStateSampleID :: "sample_id_env \<Rightarrow> instant \<Rightarrow> 64 word \<Rightarrow> string \<times> 64 word" where
  "newStateSampleID env ts seq =
     (case se_random env of
        Some randomBytes \<Rightarrow> (''state-'' @ hex_EncodeToString randomBytes, seq)
      | None \<Rightarrow>
          let seq1 = seq + 1;
              fallback = Itoa (UnixNano ts) @ '':'' @ Itoa (uint seq1);
              digest = se_sha env fallback
          in (''state-'' @ hex_EncodeToString (take 16 digest), seq1))"

definition withNewStateSampleIdentifiers ::
  "sample_id_env \<Rightarrow> StateSample \<Rightarrow> instant \<Rightarrow> 64 word \<Rightarrow> StateSample \<times> 64 word" where
  "withNewStateSampleIdentifiers env sample ts seq =
     (let (ident, seq1) = newStateSampleID env ts seq
      in (sample\<lparr>SampleID := ident, IdempotencyKey := ident\<rparr>, seq1))"

record sample_marshal =
  sm_sha :: "string \<Rightarrow> string"
  sm_Marshal :: "StateSample \<Rightarrow> string option"
  sm_render :: "StateSample \<Rightarrow> string"

definition deterministicStateSampleID :: "sample_marshal \<Rightarrow> StateSample \<Rightarrow> string" where
  "deterministicStateSampleID env sample =
     (let blank = sample\<lparr>SampleID := [], IdempotencyKey := []\<rparr>;
          payload = (case sm_Marshal env blank of Some p \<Rightarrow> p | None \<Rightarrow> sm_render env blank)
      in ''state-'' @ hex_EncodeToString (take 16 (sm_sha env payload)))"

definition ensureStateSampleIdentifiers :: "sample_marshal \<Rightarrow> StateSample \<Rightarrow> StateSample" where
  "ensureStateSampleIdentifiers env sample =
     (let id1 = TrimSpace (SampleID sample);
          id2 = (if id1 = [] then TrimSpace (IdempotencyKey sample) else id1);
          id3 = (if id2 = [] then deterministicStateSampleID env sample else id2)
      in sample\<lparr>SampleID := id3, IdempotencyKey := id3\<rparr>)"

subsection \<open>Identifiers\<close>

lemma state_id_graphic: "list_all graphic (''state-'' @ hex_EncodeToString s)"
  using hex_graphic by (simp add: graphic_def)

lemma newStateSampleID_graphic: "list_all graphic (fst (newStateSampleID env ts seq)) \<and> HasPrefix (fst (newStateSampleID env ts seq)) ''state-''"
  using state_id_graphic by (auto simp: newStateSampleID_def Let_def HasPrefix_def split: option.splits)

lemma deterministic_graphic: "list_all graphic (deterministicStateSampleID env sample) \<and> deterministicStateSampleID env sample \<noteq> []"
  using state_id_graphic by (auto simp: deterministicStateSampleID_def Let_def)

text \<open>A sample is identified: both fields carry one trimmed, non-empty identifier.\<close>

definition identified :: "StateSample \<Rightarrow> bool" where
  "identified s \<longleftrightarrow> SampleID s \<noteq> [] \<and> TrimSpace (SampleID s) = SampleID s \<and> IdempotencyKey s = SampleID s"

lemma ensure_identified: "identified (ensureStateSampleIdentifiers env s)"
  using deterministic_graphic [of env s] TrimSpace_graphic
  by (auto simp: identified_def ensureStateSampleIdentifiers_def Let_def)

lemma ensure_of_identified: "identified s \<Longrightarrow> ensureStateSampleIdentifiers env s = s"
  by (cases s) (auto simp: identified_def ensureStateSampleIdentifiers_def Let_def)

lemma new_identified:
  assumes "withNewStateSampleIdentifiers env s ts seq = (s', seq')"
  shows "identified s'"
proof -
  obtain i q where i: "newStateSampleID env ts seq = (i, q)" by fastforce
  have "list_all graphic i" "i \<noteq> []" using newStateSampleID_graphic [of env ts seq] i by (auto simp: HasPrefix_iff)
  then show ?thesis using assms TrimSpace_graphic [of i] by (auto simp: identified_def withNewStateSampleIdentifiers_def i)
qed

end
