(* ===== verification/Metrics_Collector.thy ===== *)
theory Metrics_Collector
  imports Metrics_System State_Sample "HOL-Library.Multiset"
begin

text \<open>
  The metrics collector (\<open>MetricsCollector\<close> of \<open>internal/agent/metrics.go\<close>): CPU usage from two readings,
  network rates over the time since the last good reading, and the repetition of the last good values when
  a reading fails. What the readers return at one collection is its environment; a \<open>float64\<close> is the
  rational it denotes.
\<close>

record MetricsCollector =
  previousCPU :: cpuTimes
  hasCPU :: bool
  previousNet :: networkTotals
  previousNetSource :: string
  previousNetAt :: instant
  hasNet :: bool
  previousTCP :: int
  previousUDP :: int
  hasConnections :: bool
  networkAllowlist :: "string list"
  diskAllowlist :: "string list"

text \<open>The arguments are the two allowlists of \<open>MetricsOptions\<close>.\<close>

definition NewMetricsCollector :: "string list \<Rightarrow> string list \<Rightarrow> MetricsCollector" where
  "NewMetricsCollector interfaces mounts =
     \<lparr>previousCPU = \<lparr>Total = 0, Idle = 0\<rparr>, hasCPU = False, previousNet = no_totals, previousNetSource = [],
      previousNetAt = 0, hasNet = False, previousTCP = 0, previousUDP = 0, hasConnections = False,
      networkAllowlist = allowlistSet interfaces, diskAllowlist = normalizeAllowlist mounts\<rparr>"

record metrics_env =
  me_cpu :: "cpuTimes option"
  me_memory :: "int \<times> int"
  me_swap :: "int \<times> int"
  me_load :: "float64 \<Rightarrow> gofloat \<times> gofloat \<times> gofloat"
  me_disk :: "string list \<Rightarrow> int \<times> int"
  me_network :: "string list \<Rightarrow> metrics_error + networkTotals"
  me_connections :: "metrics_error + int \<times> int"
  me_processes :: int
  me_uptime :: int
  me_goos :: string
  me_ids :: sample_id_env

subsection \<open>CPU usage\<close>

definition cpuPercent :: "cpuTimes option \<Rightarrow> MetricsCollector \<Rightarrow> float64 \<times> MetricsCollector" where
  "cpuPercent reading c =
     (case reading of
        None \<Rightarrow> (0, c)
      | Some current \<Rightarrow>
          let c' = c\<lparr>previousCPU := current, hasCPU := True\<rparr> in
          if \<not> hasCPU c then (0, c')
          else
            let totalDelta = Total current - Total (previousCPU c);
                idleDelta = Idle current - Idle (previousCPU c)
            in if totalDelta = 0 then (0, c')
               else let v = (1 - of_nat (unat idleDelta) / of_nat (unat totalDelta)) * 100
                 in (if v < 0 then 0 else if v > 100 then 100 else v, c'))"

subsection \<open>Counter sources\<close>

text \<open>\<open>sort.Strings\<close> orders bytewise; the separator is a zero byte.\<close>

definition networkCounterSourceID :: "(string \<Rightarrow> string) \<Rightarrow> string \<Rightarrow> string list \<Rightarrow> string" where
  "networkCounterSourceID sha goos names =
     (if names = [] then []
      else hex_EncodeToString (sha (goos @ [CHR 0x00] @ Join (sort names) [CHR 0x00])))"

subsection \<open>One collection\<close>

definition rate :: "int \<Rightarrow> int \<Rightarrow> duration \<Rightarrow> float64" where
  "rate now before elapsed = of_int (nonNegativeInt64 (wrap64 (now - before))) / (of_int elapsed / of_int Second)"

text \<open>The network part: totals and source of the sample, the two speeds, and the collector.\<close>

definition collect_network ::
  "metrics_env \<Rightarrow> instant \<Rightarrow> MetricsCollector \<Rightarrow> (networkTotals \<times> string \<times> float64 \<times> float64) \<times> MetricsCollector" where
  "collect_network env now c =
     (case me_network env (networkAllowlist c) of
        Inr netTotals \<Rightarrow>
          let source = networkCounterSourceID (se_sha (me_ids env)) (me_goos env) (SourceNames netTotals);
              elapsed = time_sub now (previousNetAt c);
              comparable = (hasNet c \<and> (source = [] \<or> previousNetSource c = [] \<or> source = previousNetSource c) \<and> elapsed > 0);
              inSpeed = (if comparable then rate (InBytes netTotals) (InBytes (previousNet c)) elapsed else 0);
              outSpeed = (if comparable then rate (OutBytes netTotals) (OutBytes (previousNet c)) elapsed else 0)
          in ((netTotals, source, inSpeed, outSpeed),
              c\<lparr>previousNet := netTotals, previousNetSource := source, previousNetAt := now, hasNet := True\<rparr>)
      | Inl e \<Rightarrow>
          if hasNet c then ((previousNet c, previousNetSource c, 0, 0), c)
          else ((no_totals, networkCounterSourceID (se_sha (me_ids env)) (me_goos env) [], 0, 0), c))"

definition collect_connections :: "metrics_env \<Rightarrow> MetricsCollector \<Rightarrow> (int \<times> int) \<times> MetricsCollector" where
  "collect_connections env c =
     (case me_connections env of
        Inr (tcp, udp) \<Rightarrow> ((tcp, udp), c\<lparr>previousTCP := tcp, previousUDP := udp, hasConnections := True\<rparr>)
      | Inl e \<Rightarrow> if hasConnections c then ((previousTCP c, previousUDP c), c) else ((0, 0), c))"

definition CollectState ::
  "metrics_env \<Rightarrow> instant \<Rightarrow> MetricsCollector \<times> 64 word \<Rightarrow> StateSample \<times> MetricsCollector \<times> 64 word" where
  "CollectState env now = (\<lambda>(c, seq).
     let (cpu, c1) = cpuPercent (me_cpu env) c;
         (memTot, memAvail) = me_memory env;
         (swapTot, swapFr) = me_swap env;
         (l1, l5, l15) = me_load env cpu;
         (diskUsed, diskTotal) = me_disk env (diskAllowlist c1);
         ((netTotals, source, inSpeed, outSpeed), c2) = collect_network env now c1;
         ((tcp, udp), c3) = collect_connections env c2;
         sample = \<lparr>SampleID = [], IdempotencyKey = [], st_TS = Unix now, CPUPercent = cpu, Load1 = l1, Load5 = l5, Load15 = l15,
           MemoryUsedBytes = nonNegativeInt64 (wrap64 (memTot - memAvail)), MemoryTotalBytes = memTot,
           SwapUsedBytes = nonNegativeInt64 (wrap64 (swapTot - swapFr)), SwapTotalBytes = swapTot,
           DiskUsedBytes = diskUsed, DiskTotalBytes = diskTotal,
           NetInTotalBytes = InBytes netTotals, NetOutTotalBytes = OutBytes netTotals,
           NetInSpeedBps = inSpeed, NetOutSpeedBps = outSpeed,
           NetTotalsValid = Some (\<not> isl (me_network env (networkAllowlist c1))), NetCounterSource = source,
           ProcessCount = me_processes env, TCPConnectionCount = tcp, UDPConnectionCount = udp,
           ConnectionCountsValid = Some (\<not> isl (me_connections env)), UptimeSeconds = me_uptime env\<rparr>;
         (sample1, seq1) = withNewStateSampleIdentifiers (me_ids env) sample now seq
     in (sample1, c3, seq1))"

text \<open>Successive collections: the samples in order, and the collector after them.\<close>

fun collections ::
  "(metrics_env \<times> instant) list \<Rightarrow> MetricsCollector \<times> 64 word \<Rightarrow> StateSample list \<times> MetricsCollector \<times> 64 word" where
  "collections [] st = ([], st)"
| "collections ((env, now) # rest) st =
     (let (sample, st1) = CollectState env now st; (samples, st2) = collections rest st1 in (sample # samples, st2))"

subsection \<open>Usage is a percentage\<close>

lemma cpuPercent_range: "0 \<le> fst (cpuPercent r c) \<and> fst (cpuPercent r c) \<le> 100"
  by (auto simp: cpuPercent_def Let_def split: option.splits)

lemma cpuPercent_frame:
  "networkAllowlist (snd (cpuPercent r c)) = networkAllowlist c" "hasNet (snd (cpuPercent r c)) = hasNet c"
  "previousNet (snd (cpuPercent r c)) = previousNet c" "previousNetSource (snd (cpuPercent r c)) = previousNetSource c"
  "previousNetAt (snd (cpuPercent r c)) = previousNetAt c" "diskAllowlist (snd (cpuPercent r c)) = diskAllowlist c"
  by (simp_all add: cpuPercent_def Let_def split: option.splits)

lemma clamp_share: "0 \<le> q \<and> q \<le> 1 \<Longrightarrow> 0 \<le> (1 - q) * 100 \<and> (1 - q) * 100 \<le> (100 :: rat)"
  by simp

text \<open>For counters that did not wrap, the usage is the share of the time that was not idle.\<close>

lemma cpuPercent_exact:
  assumes "hasCPU c" "Total (previousCPU c) < Total current" "Idle (previousCPU c) \<le> Idle current"
    "Idle current - Idle (previousCPU c) \<le> Total current - Total (previousCPU c)"
  shows "fst (cpuPercent (Some current) c) =
    (1 - of_nat (unat (Idle current) - unat (Idle (previousCPU c))) / of_nat (unat (Total current) - unat (Total (previousCPU c)))) * 100"
proof -
  let ?t = "Total current - Total (previousCPU c)" and ?i = "Idle current - Idle (previousCPU c)"
  have u: "unat ?i = unat (Idle current) - unat (Idle (previousCPU c))" "unat ?t = unat (Total current) - unat (Total (previousCPU c))"
    using assms(2,3) by (simp_all add: unat_sub order.strict_implies_order)
  have t: "?t \<noteq> 0" using assms(2) by auto
  have q: "0 \<le> (of_nat a :: rat) / of_nat b \<and> (of_nat a :: rat) / of_nat b \<le> 1" if "a \<le> b" for a b :: nat
    using that by (cases "b = 0") simp_all
  have "unat ?i \<le> unat ?t" using assms(4) by (simp add: word_le_nat_alt)
  from q [OF this] have "0 \<le> (1 - (of_nat (unat ?i) :: rat) / of_nat (unat ?t)) * 100 \<and> (1 - (of_nat (unat ?i) :: rat) / of_nat (unat ?t)) * 100 \<le> 100"
    by (metis (no_types) clamp_share)
  then have "\<not> (1 - (of_nat (unat ?i) :: rat) / of_nat (unat ?t)) * 100 < 0 \<and> \<not> (1 - (of_nat (unat ?i) :: rat) / of_nat (unat ?t)) * 100 > 100"
    by (simp only: not_less)
  then have "fst (cpuPercent (Some current) c) = (1 - of_nat (unat ?i) / of_nat (unat ?t)) * 100"
    unfolding cpuPercent_def Let_def option.case using assms(1) t by (simp only: if_False if_True simp_thms fst_conv)
  then show ?thesis by (simp only: u)
qed

subsection \<open>Well-formed samples\<close>

text \<open>What every sample satisfies: percentages and rates in range, identified, values that were read.\<close>

definition sample_wf :: "StateSample \<Rightarrow> bool" where
  "sample_wf s \<longleftrightarrow> 0 \<le> CPUPercent s \<and> CPUPercent s \<le> 100 \<and> 0 \<le> NetInSpeedBps s \<and> 0 \<le> NetOutSpeedBps s \<and>
     0 \<le> MemoryUsedBytes s \<and> 0 \<le> SwapUsedBytes s \<and> identified s \<and> NetTotalsValid s \<noteq> None \<and> ConnectionCountsValid s \<noteq> None"

lemma nonNegativeInt64_nonneg [simp]: "0 \<le> nonNegativeInt64 x"
  by (simp add: nonNegativeInt64_def)

lemma rate_nonneg: "0 < elapsed \<Longrightarrow> 0 \<le> rate n p elapsed"
  by (simp add: rate_def Second_def)

lemma collect_network_speeds:
  "collect_network env now c = ((t, src, i, u), c') \<Longrightarrow> 0 \<le> i \<and> 0 \<le> u"
  by (auto simp: collect_network_def Let_def intro!: rate_nonneg split: sum.splits if_splits)

text \<open>The pieces of one collection.\<close>

lemma CollectStateE:
  assumes "CollectState env now (c, seq) = (s, c', seq')"
  obtains cpu c1 t src i u c2 where "cpuPercent (me_cpu env) c = (cpu, c1)"
    "collect_network env now c1 = ((t, src, i, u), c2)" "c' = snd (collect_connections env c2)"
    "CPUPercent s = cpu" "NetInSpeedBps s = i" "NetOutSpeedBps s = u" "NetInTotalBytes s = InBytes t" "NetOutTotalBytes s = OutBytes t"
    "NetCounterSource s = src" "NetTotalsValid s = Some (\<not> isl (me_network env (networkAllowlist c)))"
    "0 \<le> MemoryUsedBytes s" "0 \<le> SwapUsedBytes s" "ConnectionCountsValid s \<noteq> None" "identified s"
proof -
  obtain cpu c1 where a: "cpuPercent (me_cpu env) c = (cpu, c1)" by fastforce
  obtain t src i u c2 where b: "collect_network env now c1 = ((t, src, i, u), c2)" by (metis prod.exhaust)
  obtain s0 where s0: "withNewStateSampleIdentifiers (me_ids env) s0 now seq = (s, seq')" "c' = snd (collect_connections env c2)"
    "CPUPercent s0 = cpu" "NetInSpeedBps s0 = i" "NetOutSpeedBps s0 = u" "NetInTotalBytes s0 = InBytes t" "NetOutTotalBytes s0 = OutBytes t"
    "NetCounterSource s0 = src" "NetTotalsValid s0 = Some (\<not> isl (me_network env (networkAllowlist c1)))"
    "0 \<le> MemoryUsedBytes s0" "0 \<le> SwapUsedBytes s0" "ConnectionCountsValid s0 \<noteq> None"
    using assms unfolding CollectState_def Let_def by (auto simp: a b split: prod.splits)
  have fr: "networkAllowlist c1 = networkAllowlist c" using cpuPercent_frame(1) [of "me_cpu env" c] a by simp
  obtain ident where "s = s0\<lparr>SampleID := ident, IdempotencyKey := ident\<rparr>"
    using s0(1) by (auto simp: withNewStateSampleIdentifiers_def split: prod.splits)
  then show ?thesis using that [OF a b s0(2)] s0 new_identified [OF s0(1)] fr by simp
qed

lemma CollectState_wf:
  assumes "CollectState env now (c, seq) = (s, c', seq')"
  shows "sample_wf s"
  using assms
proof (cases rule: CollectStateE)
  case (1 cpu c1 t src i u c2)
  then show ?thesis using cpuPercent_range [of "me_cpu env" c] collect_network_speeds [OF 1(2)]
    by (simp add: sample_wf_def)
qed

subsection \<open>Rates across failed readings\<close>

text \<open>What the collector remembers of the network: the last good reading, its source and its time.\<close>

definition net_memory :: "MetricsCollector \<Rightarrow> string list \<Rightarrow> networkTotals \<Rightarrow> string \<Rightarrow> instant \<Rightarrow> bool" where
  "net_memory c allow n src t \<longleftrightarrow>
     networkAllowlist c = allow \<and> hasNet c \<and> previousNet c = n \<and> previousNetSource c = src \<and> previousNetAt c = t"

lemma connections_frame:
  "net_memory (snd (collect_connections env c)) = net_memory c"
  by (auto simp: fun_eq_iff net_memory_def collect_connections_def split: sum.splits prod.splits)

lemma cpu_net_memory: "cpuPercent r c = (cpu, c1) \<Longrightarrow> net_memory c1 = net_memory c"
  using cpuPercent_frame [of r c] by (auto simp: fun_eq_iff net_memory_def)

definition source_of :: "metrics_env \<Rightarrow> networkTotals \<Rightarrow> string" where
  "source_of env n = networkCounterSourceID (se_sha (me_ids env)) (me_goos env) (SourceNames n)"

lemma good_reading:
  assumes "CollectState env now (c, seq) = (s, c', seq')" "me_network env (networkAllowlist c) = Inr n"
  shows "net_memory c' (networkAllowlist c) n (source_of env n) now"
  using assms(1)
proof (cases rule: CollectStateE)
  case (1 cpu c1 t src i u c2)
  have fr: "networkAllowlist c1 = networkAllowlist c" using cpuPercent_frame(1) [of "me_cpu env" c] 1(1) by simp
  have "net_memory c2 (networkAllowlist c) n (source_of env n) now"
    using 1(2) assms(2) fr by (auto simp: collect_network_def Let_def net_memory_def source_of_def)
  then show ?thesis by (simp add: 1(3) connections_frame)
qed

lemma good_reading_rates:
  assumes "CollectState env now (c, seq) = (s, c', seq')" "net_memory c allow p src0 t0" "me_network env allow = Inr n"
    "source_of env n = src0" "0 < time_sub now t0"
  shows "NetInSpeedBps s = rate (InBytes n) (InBytes p) (time_sub now t0) \<and> NetOutSpeedBps s = rate (OutBytes n) (OutBytes p) (time_sub now t0)"
  using assms(1)
proof (cases rule: CollectStateE)
  case (1 cpu c1 t src i u c2)
  have "net_memory c1 allow p src0 t0" using cpu_net_memory [OF 1(1)] assms(2) by simp
  then show ?thesis using 1(2,5,6) assms(3-5)
    by (auto simp: collect_network_def Let_def net_memory_def source_of_def)
qed

lemma failed_reading:
  assumes "CollectState env now (c, seq) = (s, c', seq')" "net_memory c allow n src0 t0" "isl (me_network env allow)"
  shows "net_memory c' allow n src0 t0 \<and> NetInTotalBytes s = InBytes n \<and> NetOutTotalBytes s = OutBytes n \<and>
    NetCounterSource s = src0 \<and> NetTotalsValid s = Some False \<and> NetInSpeedBps s = 0 \<and> NetOutSpeedBps s = 0"
  using assms(1)
proof (cases rule: CollectStateE)
  case (1 cpu c1 t src i u c2)
  have m: "net_memory c1 allow n src0 t0" using cpu_net_memory [OF 1(1)] assms(2) by simp
  obtain e where e: "me_network env allow = Inl e" using assms(3) by (cases "me_network env allow") auto
  have "t = n" "src = src0" "i = 0" "u = 0" "c2 = c1"
    using 1(2) m e by (auto simp: collect_network_def net_memory_def)
  moreover have "networkAllowlist c = allow" using assms(2) by (simp add: net_memory_def)
  ultimately show ?thesis using 1 m e by (simp add: connections_frame)
qed

lemma failed_readings:
  assumes "collections fails (c, seq) = (samples, c', seq')" "net_memory c allow n src0 t0"
    "\<forall>(e, t)\<in>set fails. isl (me_network e allow)"
  shows "net_memory c' allow n src0 t0 \<and> (\<forall>s\<in>set samples. NetInTotalBytes s = InBytes n \<and> NetOutTotalBytes s = OutBytes n \<and>
    NetTotalsValid s = Some False \<and> NetInSpeedBps s = 0 \<and> NetOutSpeedBps s = 0)"
  using assms
proof (induction fails arbitrary: c seq samples)
  case (Cons et fails)
  obtain env now where et: "et = (env, now)" by fastforce
  obtain s c1 seq1 where s: "CollectState env now (c, seq) = (s, c1, seq1)" by (metis prod.exhaust)
  obtain ss where ss: "collections fails (c1, seq1) = (ss, c', seq')" "samples = s # ss"
    using Cons.prems(1) by (auto simp: et s split: prod.splits)
  have "isl (me_network env allow)" using Cons.prems(3) by (simp add: et)
  note f = failed_reading [OF s Cons.prems(2) this]
  then show ?case using Cons.IH [OF ss(1)] Cons.prems(3) ss(2) by auto
qed auto

lemma collections_append:
  "collections (xs @ ys) st = (let (ss, st1) = collections xs st; (ss', st2) = collections ys st1 in (ss @ ss', st2))"
  by (induction xs arbitrary: st) (auto simp: Let_def split: prod.splits)

lemma source_of_perm:
  assumes "mset (SourceNames n1) = mset (SourceNames n2)" "me_goos e1 = me_goos e2" "se_sha (me_ids e1) = se_sha (me_ids e2)"
  shows "source_of e1 n1 = source_of e2 n2"
proof -
  have "sort (SourceNames n1) = sort (SourceNames n2)" using assms(1) by (metis properties_for_sort sorted_sort mset_sort)
  moreover have "SourceNames n1 = [] \<longleftrightarrow> SourceNames n2 = []" using assms(1) by (metis mset_zero_iff)
  ultimately show ?thesis using assms(2,3) by (simp add: source_of_def networkCounterSourceID_def)
qed

lemma rate_exact:
  assumes "0 \<le> p" "p \<le> maxInt64" "0 \<le> n" "n \<le> maxInt64"
  shows "rate n p d = of_int (max 0 (n - p)) * of_int Second / of_int d"
proof -
  have "wrap64 (n - p) = n - p" using assms by (intro wrap64_id) (simp add: fits64_def minInt64_def maxInt64_def)
  then show ?thesis by (simp add: rate_def nonNegativeInt64_def max_def)
qed

lemma collections_wf: "list_all sample_wf (fst (collections es st))"
proof (induction es arbitrary: st)
  case (Cons et es)
  obtain env now where et: "et = (env, now)" by fastforce
  obtain c seq where st: "st = (c, seq)" by fastforce
  obtain s c1 seq1 where s: "CollectState env now (c, seq) = (s, c1, seq1)" by (metis prod.exhaust)
  show ?case using Cons.IH [of "(c1, seq1)"] CollectState_wf [OF s] by (auto simp: et st s split: prod.splits)
qed simp

subsection \<open>Properties\<close>


text \<open>C26: A rate is computed over the whole time between two good readings of the same interfaces, however many
  readings failed in between; the failed ones repeat the last good totals, marked as not valid, with rate zero.\<close>

theorem rate_spans_failures:
  assumes "collections ((e1, t1) # fails @ [(e2, t2)]) (c, seq) = (samples, st)"
    and "me_network e1 (networkAllowlist c) = Inr n1" "me_network e2 (networkAllowlist c) = Inr n2"
    and "\<forall>(e, t)\<in>set fails. isl (me_network e (networkAllowlist c))"
    and "mset (SourceNames n1) = mset (SourceNames n2)" "me_goos e1 = me_goos e2" "se_sha (me_ids e1) = se_sha (me_ids e2)"
    and "t1 < t2" "t2 - t1 \<le> maxInt64"
    and "0 \<le> InBytes n1" "InBytes n1 \<le> maxInt64" "0 \<le> InBytes n2" "InBytes n2 \<le> maxInt64"
  shows "NetInSpeedBps (last samples) = of_int (max 0 (InBytes n2 - InBytes n1)) * of_int Second / of_int (t2 - t1) \<and>
    (\<forall>s\<in>set (butlast (tl samples)). NetInTotalBytes s = InBytes n1 \<and> NetTotalsValid s = Some False \<and> NetInSpeedBps s = 0)"
proof -
  obtain s1 c1 q1 where s1: "CollectState e1 t1 (c, seq) = (s1, c1, q1)" by (metis prod.exhaust)
  obtain ss c2 q2 where ss: "collections fails (c1, q1) = (ss, c2, q2)" by (metis prod.exhaust)
  obtain s2 c3 q3 where s2: "CollectState e2 t2 (c2, q2) = (s2, c3, q3)" by (metis prod.exhaust)
  have samples: "samples = s1 # ss @ [s2]" using assms(1) by (auto simp: s1 ss s2 collections_append)
  have m1: "net_memory c1 (networkAllowlist c) n1 (source_of e1 n1) t1" by (rule good_reading [OF s1 assms(2)])
  note f = failed_readings [OF ss m1 assms(4)]
  have d: "time_sub t2 t1 = t2 - t1" using assms(8,9) by (intro time_sub_exact) (simp add: fits64_def minInt64_def maxInt64_def)
  have "NetInSpeedBps s2 = rate (InBytes n2) (InBytes n1) (t2 - t1)"
    using good_reading_rates [OF s2 conjunct1 [OF f] assms(3) source_of_perm [OF assms(5-7), symmetric]] assms(8) by (simp add: d)
  then show ?thesis using f assms(10-13) by (simp add: samples rate_exact)
qed

definition example_reading :: "int option \<Rightarrow> metrics_env" where
  "example_reading bytes = \<lparr>me_cpu = None, me_memory = (8, 2), me_swap = (0, 0), me_load = (\<lambda>_. (FloatFin 0, FloatFin 0, FloatFin 0)), me_disk = (\<lambda>_. (0, 0)),
     me_network = (\<lambda>_. case bytes of None \<Rightarrow> Inl NoHeader | Some b \<Rightarrow> Inr \<lparr>InBytes = b, OutBytes = 0, SourceNames = [''eth0'']\<rparr>),
     me_connections = Inl EmptyTable, me_processes = 1, me_uptime = 1, me_goos = ''linux'',
     me_ids = \<lparr>se_sha = (\<lambda>_. ''digest''), se_random = Some ''0123456789abcdef''\<rparr>\<rparr>"

theorem rate_spans_failures_witness:
  "\<exists>samples st. collections [(example_reading (Some 1000), 0), (example_reading None, 3 * Second), (example_reading (Some 7000), 6 * Second)]
     (NewMetricsCollector [] [], 0) = (samples, st) \<and> NetInSpeedBps (last samples) = 1000"
proof -
  let ?r = "[(example_reading (Some 1000), 0), (example_reading None, 3 * Second), (example_reading (Some 7000), 6 * Second)]"
  obtain samples st where c: "collections ?r (NewMetricsCollector [] [], 0) = (samples, st)" by (metis prod.exhaust)
  then have "NetInSpeedBps (last samples) = of_int (max 0 (7000 - 1000)) * of_int Second / of_int (6 * Second - 0)"
    using rate_spans_failures [of "example_reading (Some 1000)" 0 "[(example_reading None, 3 * Second)]" "example_reading (Some 7000)" "6 * Second"
        "NewMetricsCollector [] []" 0 samples st "\<lparr>InBytes = 1000, OutBytes = 0, SourceNames = [''eth0'']\<rparr>"
        "\<lparr>InBytes = 7000, OutBytes = 0, SourceNames = [''eth0'']\<rparr>"]
    by (simp add: example_reading_def maxInt64_def Second_def)
  then show ?thesis using c by (auto simp: Second_def)
qed

end
