(* ===== verification/Network_Identity.thy ===== *)
theory Network_Identity
  imports Agent_Client Go_Text
begin

text \<open>
  Discovery of the public addresses (\<open>internal/agent/network_identity.go\<close>): which provider URLs and
  redirects are trusted, the three requests of one discovery, and the cache in front of it. \<open>url.Parse\<close>,
  \<open>net.ParseIP\<close> with its text form, \<open>json.Unmarshal\<close> and the network are parameters.
\<close>

definition networkIdentityMaxJSONBodyBytes :: nat where "networkIdentityMaxJSONBodyBytes = 4096"

definition trustedNetworkIdentityHosts :: "string list" where
  "trustedNetworkIdentityHosts = [''api.ipify.org'', ''api6.ipify.org'', ''ipwho.is'']"

record NetworkIdentity =
  PublicIPv4 :: string
  PublicIPv6 :: string
  CountryCode :: string

definition no_identity :: NetworkIdentity where
  "no_identity = \<lparr>PublicIPv4 = [], PublicIPv6 = [], CountryCode = []\<rparr>"

definition identity_empty :: "NetworkIdentity \<Rightarrow> bool" where
  "identity_empty identity \<longleftrightarrow> PublicIPv4 identity = [] \<and> PublicIPv6 identity = [] \<and> CountryCode identity = []"

record NetworkIdentityDiscoverer =
  IPv4URL :: string
  IPv6URL :: string
  GeoIPURLFormat :: string

definition NewNetworkIdentityDiscoverer :: NetworkIdentityDiscoverer where
  "NewNetworkIdentityDiscoverer =
     \<lparr>IPv4URL = ''https://api.ipify.org?format=json'', IPv6URL = ''https://api6.ipify.org?format=json'',
      GeoIPURLFormat = ''https://ipwho.is/%s?fields=success,country_code,ip''\<rparr>"

record geoIPResponse =
  geo_Success :: bool
  geo_CountryCode :: string

text \<open>
  The surroundings of a discovery. \<open>id_Get\<close> is what the network answers to a request for a URL: the
  redirects the servers offer one after the other, and the reply at the end of the chain.
\<close>

record identity_env = url_env +
  id_AddrString :: "Addr \<Rightarrow> string"
  id_NewRequest :: "string \<Rightarrow> bool"
  id_Get :: "string \<Rightarrow> URL list \<times> http_reply"
  id_DecodeIP :: "string \<Rightarrow> string option"
  id_DecodeGeo :: "string \<Rightarrow> geoIPResponse option"

subsection \<open>Trusted URLs\<close>

definition urlpkgParse :: "url_env \<Rightarrow> string \<Rightarrow> URL option" where
  "urlpkgParse env text_url =
     (case ue_Parse env text_url of
        None \<Rightarrow> None
      | Some parsed \<Rightarrow> if url_Scheme parsed = [] \<or> url_Host parsed = [] then None else Some parsed)"

definition isLocalIdentityProviderHost :: "url_env \<Rightarrow> string \<Rightarrow> bool" where
  "isLocalIdentityProviderHost env host =
     (let h = ToLower (TrimSpace host) in
      if h = ''localhost'' then True
      else case ue_ParseIP env h of None \<Rightarrow> False | Some ip \<Rightarrow> IsLoopback ip)"

definition identityProviderURLAllowed :: "url_env \<Rightarrow> URL \<Rightarrow> bool" where
  "identityProviderURLAllowed env parsed =
     (if url_Scheme parsed = ''https'' then True
      else url_Scheme parsed = ''http'' \<and> isLocalIdentityProviderHost env (url_Hostname parsed))"

definition identityProviderRedirectAllowed :: "URL \<Rightarrow> string \<Rightarrow> bool" where
  "identityProviderRedirectAllowed parsed originHost =
     (if url_Scheme parsed \<noteq> ''https'' then False
      else let host = ToLower (url_Hostname parsed) in
        if host = ToLower originHost then True else host \<in> set trustedNetworkIdentityHosts)"

text \<open>
  The HTTP client asks \<open>CheckRedirect\<close> before each redirect with the requests made so far: the URLs it
  goes on to, or \<open>None\<close> at the first refusal, each with the requests that were made.
\<close>

fun follow_redirects :: "string \<Rightarrow> URL list \<Rightarrow> URL list \<Rightarrow> bool \<times> URL list" where
  "follow_redirects originHost via [] = (True, via)"
| "follow_redirects originHost via (u # us) =
     (if length via \<ge> 5 then (False, via)
      else if \<not> identityProviderRedirectAllowed u originHost then (False, via)
      else follow_redirects originHost (via @ [u]) us)"

text \<open>The decoded body, and the URLs requested.\<close>

definition fetchJSON :: "identity_env \<Rightarrow> string \<Rightarrow> (string \<Rightarrow> 'r option) \<Rightarrow> 'r option \<times> URL list" where
  "fetchJSON env url decode =
     (case urlpkgParse (url_env.truncate env) url of
        None \<Rightarrow> (None, [])
      | Some parsed \<Rightarrow>
          if \<not> identityProviderURLAllowed (url_env.truncate env) parsed then (None, [])
          else if \<not> id_NewRequest env url then (None, [])
          else
            let (redirects, reply) = id_Get env url;
                (arrived, requested) = follow_redirects (url_Hostname parsed) [parsed] redirects
            in (if \<not> arrived then None
                else case reply of
                  DoFailed timeout \<Rightarrow> None
                | Reply status header body readFails \<Rightarrow>
                    if status < 200 \<or> status \<ge> 300 then None
                    else if readFails then None
                    else if length body > networkIdentityMaxJSONBodyBytes then None
                    else decode body,
                requested))"

subsection \<open>Normalisation\<close>

definition normalizePublicIP :: "identity_env \<Rightarrow> string \<Rightarrow> int \<Rightarrow> string" where
  "normalizePublicIP env text_ip family =
     (case ue_ParseIP env (TrimSpace text_ip) of
        None \<Rightarrow> []
      | Some ip \<Rightarrow>
          if family = 4 then (if Is4 (Unmap ip) then id_AddrString env (Unmap ip) else [])
          else if family = 6 then (if Is4 (Unmap ip) then [] else id_AddrString env ip)
          else [])"

text \<open>
  \<open>strings.ToUpper\<close> with the runes whose image is an ASCII letter: U+0131 is C4 B1, U+017F is C5 BF. The
  case of other non-ASCII letters is left alone; they are no letters \<open>A\<close> to \<open>Z\<close> in either case.
\<close>

definition ascii_upper :: "char \<Rightarrow> char" where
  "ascii_upper c = (let n = (of_char c :: nat) in if 97 \<le> n \<and> n \<le> 122 then char_of (n - 32) else c)"

fun ToUpper :: "string \<Rightarrow> string" where
  "ToUpper [] = []"
| "ToUpper (c # s) =
     (if c = CHR 0xC4 \<and> has_prefix s [CHR 0xB1] then CHR ''I'' # ToUpper (drop 1 s)
      else if c = CHR 0xC5 \<and> has_prefix s [CHR 0xBF] then CHR ''S'' # ToUpper (drop 1 s)
      else ascii_upper c # ToUpper s)"

definition is_upper_letter :: "char \<Rightarrow> bool" where
  "is_upper_letter c \<longleftrightarrow> CHR ''A'' \<le> c \<and> c \<le> CHR ''Z''"

definition normalizeCountryCode :: "string \<Rightarrow> string" where
  "normalizeCountryCode code =
     (let trimmed = ToUpper (TrimSpace code) in
      if length trimmed \<noteq> 2 then [] else if list_all is_upper_letter trimmed then trimmed else [])"

subsection \<open>One discovery\<close>

definition fetchPublicIP :: "identity_env \<Rightarrow> string \<Rightarrow> int \<Rightarrow> string \<times> URL list" where
  "fetchPublicIP env url family =
     (let url1 = TrimSpace url in
      if url1 = [] then ([], [])
      else case fetchJSON env url1 (id_DecodeIP env) of
        (None, requested) \<Rightarrow> ([], requested)
      | (Some ip, requested) \<Rightarrow> (normalizePublicIP env ip family, requested))"

text \<open>\<open>fmt.Sprintf\<close> with one string for a format with at most one verb.\<close>

definition Sprintf_s :: "string \<Rightarrow> string \<Rightarrow> string" where
  "Sprintf_s format arg =
     (case Cut format ''%s'' of
        Some (a, b) \<Rightarrow> a @ arg @ b
      | None \<Rightarrow> format @ ''%!(EXTRA string='' @ arg @ '')'')"

definition fetchCountryCode :: "identity_env \<Rightarrow> NetworkIdentityDiscoverer \<Rightarrow> string \<Rightarrow> string \<times> URL list" where
  "fetchCountryCode env d ip =
     (let format = TrimSpace (GeoIPURLFormat d) in
      if format = [] \<or> TrimSpace ip = [] then ([], [])
      else case fetchJSON env (Sprintf_s format ip) (id_DecodeGeo env) of
        (None, requested) \<Rightarrow> ([], requested)
      | (Some response, requested) \<Rightarrow>
          (if \<not> geo_Success response then [] else normalizeCountryCode (geo_CountryCode response), requested))"

definition Discover :: "identity_env \<Rightarrow> NetworkIdentityDiscoverer \<Rightarrow> NetworkIdentity \<times> URL list" where
  "Discover env d =
     (let (ip4, r1) = fetchPublicIP env (IPv4URL d) 4;
          (ip6, r2) = fetchPublicIP env (IPv6URL d) 6;
          (code, r3) = (if ip4 \<noteq> [] then fetchCountryCode env d ip4 else ([], []));
          (code1, r4) = (if code = [] \<and> ip6 \<noteq> [] then fetchCountryCode env d ip6 else (code, []))
      in (\<lparr>PublicIPv4 = ip4, PublicIPv6 = ip6, CountryCode = code1\<rparr>, r1 @ r2 @ r3 @ r4))"

subsection \<open>The cache\<close>

record CachedNetworkIdentityDiscoverer =
  cache_TTL :: duration
  cached :: NetworkIdentity
  checkedAt :: instant
  hasCache :: bool

definition NewCachedNetworkIdentityDiscoverer :: "duration \<Rightarrow> CachedNetworkIdentityDiscoverer" where
  "NewCachedNetworkIdentityDiscoverer ttl =
     \<lparr>cache_TTL = (if ttl \<le> 0 then 12 * Hour else ttl), cached = no_identity, checkedAt = 0, hasCache = False\<rparr>"

definition cache_fresh :: "instant \<Rightarrow> CachedNetworkIdentityDiscoverer \<Rightarrow> bool" where
  "cache_fresh now d \<longleftrightarrow> hasCache d \<and> time_sub now (checkedAt d) < cache_TTL d"

text \<open>\<open>inner\<close> is what the inner discoverer finds if it is asked.\<close>

definition cached_Discover ::
  "instant \<Rightarrow> NetworkIdentity \<Rightarrow> CachedNetworkIdentityDiscoverer \<Rightarrow> NetworkIdentity \<times> CachedNetworkIdentityDiscoverer" where
  "cached_Discover now inner d =
     (if cache_fresh now d then (cached d, d)
      else
        let d1 = d\<lparr>checkedAt := now\<rparr> in
        if identity_empty inner \<and> hasCache d then (cached d1, d1)
        else if \<not> identity_empty inner then (inner, d1\<lparr>cached := inner, hasCache := True\<rparr>)
        else (inner, d1))"

subsection \<open>Requests\<close>

definition url_trusted :: "url_env \<Rightarrow> URL \<Rightarrow> bool" where
  "url_trusted env u \<longleftrightarrow> url_Scheme u = ''https'' \<or> url_Scheme u = ''http'' \<and> isLocalIdentityProviderHost env (url_Hostname u)"

lemma URLAllowed_trusted: "identityProviderURLAllowed env u \<longleftrightarrow> url_trusted env u"
  by (simp add: identityProviderURLAllowed_def url_trusted_def)

lemma RedirectAllowed_iff:
  "identityProviderRedirectAllowed u origin \<longleftrightarrow>
   url_Scheme u = ''https'' \<and> (ToLower (url_Hostname u) = ToLower origin \<or> ToLower (url_Hostname u) \<in> set trustedNetworkIdentityHosts)"
  by (simp add: identityProviderRedirectAllowed_def Let_def)

lemma follow_redirects_visited:
  "follow_redirects origin via us = (ok, requested) \<Longrightarrow> length via \<le> 5 \<Longrightarrow>
   \<exists>more. requested = via @ more \<and> length requested \<le> 5 \<and> list_all (\<lambda>u. identityProviderRedirectAllowed u origin) more"
proof (induction us arbitrary: via)
  case (Cons u us)
  show ?case
  proof (cases "5 \<le> length via \<or> \<not> identityProviderRedirectAllowed u origin")
    case True
    then have "requested = via" using Cons.prems(1) by (auto split: if_splits)
    then show ?thesis using Cons.prems(2) by simp
  next
    case False
    then show ?thesis using Cons.IH [of "via @ [u]"] Cons.prems(1) by auto
  qed
qed auto

lemma fetchJSON_requests:
  assumes "fetchJSON env url decode = (r, requested)"
  shows "requested = [] \<or> (\<exists>first more. urlpkgParse (url_env.truncate env) url = Some first \<and> requested = first # more \<and>
    length requested \<le> 5 \<and> url_trusted (url_env.truncate env) first \<and>
    list_all (\<lambda>u. identityProviderRedirectAllowed u (url_Hostname first)) more)"
proof -
  obtain redirects reply where g: "id_Get env url = (redirects, reply)" by fastforce
  show ?thesis
  proof (cases "urlpkgParse (url_env.truncate env) url")
    case None
    then show ?thesis using assms by (simp add: fetchJSON_def)
  next
    case (Some first)
    obtain ok req where f: "follow_redirects (url_Hostname first) [first] redirects = (ok, req)" by fastforce
    obtain more where "req = [first] @ more" "length req \<le> 5" "list_all (\<lambda>u. identityProviderRedirectAllowed u (url_Hostname first)) more"
      using follow_redirects_visited [OF f] by auto
    then show ?thesis using assms Some by (auto simp: fetchJSON_def g f URLAllowed_trusted split: if_splits)
  qed
qed

lemma fetchJSON_trusted:
  assumes "fetchJSON env url decode = (r, requested)"
  shows "list_all (url_trusted (url_env.truncate env)) requested \<and> length requested \<le> 5"
proof -
  have "identityProviderRedirectAllowed u origin \<Longrightarrow> url_trusted e u" for u origin e
    by (simp add: RedirectAllowed_iff url_trusted_def)
  then show ?thesis using fetchJSON_requests [OF assms] by (fastforce simp: list_all_iff)
qed

lemma fetchPublicIP_trusted:
  "fetchPublicIP env url family = (ip, requested) \<Longrightarrow> list_all (url_trusted (url_env.truncate env)) requested \<and> length requested \<le> 5"
  by (auto simp: fetchPublicIP_def Let_def dest: fetchJSON_trusted split: if_splits prod.splits option.splits)

lemma fetchCountryCode_trusted:
  "fetchCountryCode env d ip = (code, requested) \<Longrightarrow> list_all (url_trusted (url_env.truncate env)) requested \<and> length requested \<le> 5"
  by (auto simp: fetchCountryCode_def Let_def dest: fetchJSON_trusted split: if_splits prod.splits option.splits)

lemma country_code_wf:
  "fetchCountryCode env d ip = (code, requested) \<Longrightarrow> code = [] \<or> length code = 2 \<and> list_all is_upper_letter code"
  by (auto simp: fetchCountryCode_def normalizeCountryCode_def Let_def split: if_splits prod.splits option.splits)

text \<open>The four steps of a discovery.\<close>

lemma DiscoverE:
  assumes "Discover env d = (identity, requested)"
  obtains r1 r2 r3 r4 code1 where "fetchPublicIP env (IPv4URL d) 4 = (PublicIPv4 identity, r1)"
    "fetchPublicIP env (IPv6URL d) 6 = (PublicIPv6 identity, r2)" "requested = r1 @ r2 @ r3 @ r4"
    "(code1, r3) = (if PublicIPv4 identity \<noteq> [] then fetchCountryCode env d (PublicIPv4 identity) else ([], []))"
    "(CountryCode identity, r4) =
       (if code1 = [] \<and> PublicIPv6 identity \<noteq> [] then fetchCountryCode env d (PublicIPv6 identity) else (code1, []))"
proof -
  obtain ip4 r1 where a: "fetchPublicIP env (IPv4URL d) 4 = (ip4, r1)" by fastforce
  obtain ip6 r2 where b: "fetchPublicIP env (IPv6URL d) 6 = (ip6, r2)" by fastforce
  obtain code r3 where c: "(if ip4 \<noteq> [] then fetchCountryCode env d ip4 else ([], [])) = (code, r3)" by fastforce
  obtain code1 r4 where e: "(if code = [] \<and> ip6 \<noteq> [] then fetchCountryCode env d ip6 else (code, [])) = (code1, r4)" by fastforce
  have f: "PublicIPv4 identity = ip4" "PublicIPv6 identity = ip6" "CountryCode identity = code1" "requested = r1 @ r2 @ r3 @ r4"
    using assms by (auto simp: Discover_def a b c e)
  show ?thesis by (rule that [of r1 r2 r3 r4 code]) (simp_all only: f a b c e)
qed


definition example_provider :: "string \<Rightarrow> URL" where
  "example_provider host = \<lparr>url_Scheme = ''https'', url_Host = host, url_Hostname = host, url_Port = [], url_User = False,
     url_RawQuery = [], url_Fragment = [], url_ForceQuery = False, url_HostText = host\<rparr>"

definition example_identity_env :: identity_env where
  "example_identity_env = \<lparr>ue_Parse = (\<lambda>_. Some (example_provider ''a'')), ue_ParseIP = (\<lambda>_. Some (A4 0x01020304)),
     id_AddrString = (\<lambda>_. ''1.2.3.4''), id_NewRequest = (\<lambda>_. True), id_Get = (\<lambda>_. ([example_provider ''b''], Reply 200 [] ''x'' False)),
     id_DecodeIP = (\<lambda>_. Some ''1.2.3.4''), id_DecodeGeo = (\<lambda>_. None)\<rparr>"


subsection \<open>Runs of the cache\<close>

fun cached_run :: "(instant \<times> NetworkIdentity) list \<Rightarrow> CachedNetworkIdentityDiscoverer \<Rightarrow> NetworkIdentity list" where
  "cached_run [] d = []"
| "cached_run ((now, inner) # calls) d = (let (identity, d') = cached_Discover now inner d in identity # cached_run calls d')"

definition cache_ok :: "CachedNetworkIdentityDiscoverer \<Rightarrow> bool" where
  "cache_ok d \<longleftrightarrow> (hasCache d \<longrightarrow> \<not> identity_empty (cached d))"

lemma cached_Discover_ok:
  "cached_Discover now inner d = (identity, d') \<Longrightarrow> cache_ok d \<Longrightarrow> cache_ok d' \<and> (hasCache d \<longrightarrow> hasCache d') \<and>
    (identity_empty identity \<longleftrightarrow> \<not> hasCache d') \<and> (hasCache d' \<longrightarrow> cached d' = identity) \<and>
    (identity = inner \<or> hasCache d \<and> identity = cached d)"
  by (auto simp: cached_Discover_def cache_fresh_def cache_ok_def Let_def split: if_splits)

lemma cached_run_keeps:
  "cache_ok d \<Longrightarrow> hasCache d \<Longrightarrow> list_all (\<lambda>i. \<not> identity_empty i) (cached_run calls d)"
proof (induction calls arbitrary: d)
  case (Cons c calls)
  obtain now inner where c: "c = (now, inner)" by fastforce
  obtain i d' where d': "cached_Discover now inner d = (i, d')" by fastforce
  show ?case using cached_Discover_ok [OF d' Cons.prems(1)] Cons.prems(2) Cons.IH [of d'] by (simp add: c d')
qed simp

lemma cached_run_values:
  "cache_ok d \<Longrightarrow> set (cached_run calls d) \<subseteq> (if hasCache d then {cached d} else {}) \<union> snd ` set calls"
proof (induction calls arbitrary: d)
  case (Cons c calls)
  obtain now inner where c: "c = (now, inner)" by fastforce
  obtain i d' where d': "cached_Discover now inner d = (i, d')" by fastforce
  show ?case using cached_Discover_ok [OF d' Cons.prems] Cons.IH [of d'] by (auto simp: c d' split: if_splits)
qed simp

lemma cached_run_once_found:
  "cache_ok d \<Longrightarrow> i < j \<Longrightarrow> j < length (cached_run calls d) \<Longrightarrow> \<not> identity_empty (cached_run calls d ! i) \<Longrightarrow>
   \<not> identity_empty (cached_run calls d ! j)"
proof (induction calls arbitrary: d i j)
  case (Cons c calls)
  obtain now inner where c: "c = (now, inner)" by fastforce
  obtain v d' where d': "cached_Discover now inner d = (v, d')" by fastforce
  note ok = cached_Discover_ok [OF d' Cons.prems(1)]
  obtain j1 where j: "j = Suc j1" using Cons.prems(2) by (cases j) auto
  show ?case
  proof (cases i)
    case 0
    then have "hasCache d'" using Cons.prems(4) ok by (auto simp: c d')
    then show ?thesis using cached_run_keeps [of d' calls] ok Cons.prems(3) by (simp add: c d' j list_all_length)
  next
    case (Suc i1)
    then show ?thesis using Cons.IH [of d' i1 j1] Cons.prems ok by (simp add: c d' j)
  qed
qed simp

text \<open>C29: Once a discovery found something, no later report is empty, however long the providers stay unreachable; and
  nothing is reported that no discovery found.\<close>

theorem identity_never_lost:
  assumes "i < j" "j < length (cached_run calls (NewCachedNetworkIdentityDiscoverer ttl))"
    "\<not> identity_empty (cached_run calls (NewCachedNetworkIdentityDiscoverer ttl) ! i)"
  shows "\<not> identity_empty (cached_run calls (NewCachedNetworkIdentityDiscoverer ttl) ! j) \<and>
    set (cached_run calls (NewCachedNetworkIdentityDiscoverer ttl)) \<subseteq> snd ` set calls"
  using cached_run_once_found [OF _ assms] cached_run_values [of "NewCachedNetworkIdentityDiscoverer ttl" calls]
  by (simp add: NewCachedNetworkIdentityDiscoverer_def cache_ok_def)

theorem identity_never_lost_witness:
  "\<not> identity_empty (cached_run [(0, no_identity\<lparr>CountryCode := ''DE''\<rparr>), (13 * Hour, no_identity)] (NewCachedNetworkIdentityDiscoverer 0) ! 1)"
  using identity_never_lost [of 0 1 "[(0, no_identity\<lparr>CountryCode := ''DE''\<rparr>), (13 * Hour, no_identity)]" 0]
  by (simp add: NewCachedNetworkIdentityDiscoverer_def cached_Discover_def cache_fresh_def identity_empty_def no_identity_def Let_def)

end
