(* ===== verification/Agent_Reports.thy ===== *)
theory Agent_Reports
  imports Metrics_Collector Network_Identity Install_Receipt
begin

text \<open>
  The three periodic reports: \<open>PostHeartbeat\<close>, \<open>PostHost\<close> and \<open>PostState\<close> of \<open>internal/agent/client.go\<close>,
  \<open>CollectHost\<close> of \<open>metrics.go\<close>, and \<open>reportHeartbeat\<close>, \<open>reportHost\<close>, \<open>reportState\<close> of
  \<open>cmd/zeno-agent/main.go\<close> with the receipt marks that \<open>runAgent\<close> attaches to them. A tick is one firing of
  a report worker with what it meets.
\<close>

record HeartbeatRequest =
  hb_TS :: int
  hb_Status :: string
  hb_AgentVersion :: string

record HostInfo =
  h_Hostname :: string
  h_OSName :: string
  h_OSVersion :: string
  h_Kernel :: string
  h_Arch :: string
  h_Virtualization :: string
  h_CPUModel :: string
  h_CPUCores :: int
  h_MemoryTotalBytes :: int
  h_DiskTotalBytes :: int
  h_BootTime :: int
  h_AgentVersion :: string
  h_PublicIPv4 :: string
  h_PublicIPv6 :: string
  h_CountryCode :: string

text \<open>What the host readers of a Linux build return; the contents of files as in \<open>Metrics_System\<close>.\<close>

record host_env =
  he_meminfo :: "string option"
  he_disk :: "string list \<Rightarrow> int \<times> int"
  he_hostname :: string
  he_os_release :: "string option"
  he_osrelease :: "string option"
  he_goarch :: string
  he_product_name :: "string option"
  he_sys_vendor :: "string option"
  he_cpuinfo :: "string option"
  he_NumCPU :: int
  he_stat :: "string option"

definition CollectHost :: "host_env \<Rightarrow> MetricsCollector \<Rightarrow> string \<Rightarrow> HostInfo" where
  "CollectHost env c version =
     (let (memTot, _) = readMemoryTotals (he_meminfo env);
          (_, diskTotal) = he_disk env (diskAllowlist c);
          (osName, osVersion) = osRelease (he_os_release env)
      in \<lparr>h_Hostname = he_hostname env, h_OSName = osName, h_OSVersion = osVersion, h_Kernel = kernelRelease (he_osrelease env),
          h_Arch = normalizedArch (he_goarch env), h_Virtualization = virtualizationName (he_product_name env) (he_sys_vendor env),
          h_CPUModel = cpuModel (he_cpuinfo env), h_CPUCores = he_NumCPU env, h_MemoryTotalBytes = memTot,
          h_DiskTotalBytes = diskTotal, h_BootTime = bootTime (he_stat env), h_AgentVersion = version,
          h_PublicIPv4 = [], h_PublicIPv6 = [], h_CountryCode = []\<rparr>)"

subsection \<open>Requests\<close>

text \<open>\<open>json.Marshal\<close> on the three payloads.\<close>

record report_codec =
  rc_heartbeat :: "HeartbeatRequest \<Rightarrow> string option"
  rc_host :: "HostInfo \<Rightarrow> string option"
  rc_state :: "StateSample \<Rightarrow> string option"
  rc_ids :: sample_marshal

definition no_decode :: "(string \<Rightarrow> unit option) option" where
  "no_decode = None"

definition PostHeartbeat ::
  "client_env \<Rightarrow> report_codec \<Rightarrow> Client \<Rightarrow> string \<Rightarrow> string \<Rightarrow> instant \<Rightarrow> (client_error + unit option) \<times> http_request list" where
  "PostHeartbeat env codec c status version ts =
     doJSON env c ''POST'' ''/api/agent/v1/heartbeat''
       (Some (rc_heartbeat codec \<lparr>hb_TS = Unix ts, hb_Status = status, hb_AgentVersion = version\<rparr>)) no_decode"

definition PostHost ::
  "client_env \<Rightarrow> report_codec \<Rightarrow> Client \<Rightarrow> HostInfo \<Rightarrow> (client_error + unit option) \<times> http_request list" where
  "PostHost env codec c host = doJSON env c ''POST'' ''/api/agent/v1/host'' (Some (rc_host codec host)) no_decode"

definition PostState ::
  "client_env \<Rightarrow> report_codec \<Rightarrow> Client \<Rightarrow> StateSample \<Rightarrow> (client_error + unit option) \<times> http_request list" where
  "PostState env codec c state =
     (let state1 = ensureStateSampleIdentifiers (rc_ids codec) state
      in doJSON env c ''POST'' ''/api/agent/v1/state'' (Some (rc_state codec state1)) no_decode)"

subsection \<open>Reports\<close>

definition reportHeartbeat ::
  "client_env \<Rightarrow> report_codec \<Rightarrow> Client \<Rightarrow> string \<Rightarrow> instant \<Rightarrow> (client_error + unit option) \<times> http_request list" where
  "reportHeartbeat env codec c version now = PostHeartbeat env codec c ''online'' version now"

text \<open>\<open>inner\<close> is what the inner discoverer finds if the cache asks it.\<close>

definition reportHost ::
  "client_env \<Rightarrow> report_codec \<Rightarrow> Client \<Rightarrow> host_env \<Rightarrow> MetricsCollector \<Rightarrow> string \<Rightarrow> instant \<Rightarrow> NetworkIdentity \<Rightarrow>
   CachedNetworkIdentityDiscoverer \<Rightarrow>
   ((client_error + unit option) \<times> http_request list) \<times> CachedNetworkIdentityDiscoverer" where
  "reportHost env codec c host collector version now inner d =
     (let (identity, d') = cached_Discover now inner d;
          info = (CollectHost host collector version)
            \<lparr>h_PublicIPv4 := PublicIPv4 identity, h_PublicIPv6 := PublicIPv6 identity, h_CountryCode := CountryCode identity\<rparr>
      in (PostHost env codec c info, d'))"

definition reportState ::
  "client_env \<Rightarrow> report_codec \<Rightarrow> Client \<Rightarrow> metrics_env \<Rightarrow> instant \<Rightarrow> MetricsCollector \<times> 64 word \<Rightarrow>
   ((client_error + unit option) \<times> http_request list) \<times> MetricsCollector \<times> 64 word" where
  "reportState env codec c metrics now st =
     (let (sample, st') = CollectState metrics now st in (PostState env codec c sample, st'))"

subsection \<open>The report workers\<close>

record reporter =
  rep_collector :: "MetricsCollector \<times> 64 word"
  rep_identity :: CachedNetworkIdentityDiscoverer
  rep_receipt :: "installReceiptTracker \<times> dir"

datatype tick =
    HeartbeatTick instant client_env receipt_io
  | StateTick instant client_env receipt_io metrics_env
  | HostTick instant client_env host_env NetworkIdentity

text \<open>The reports of \<open>runAgent\<close>, first and periodic: the requests, and the state after the receipt mark.\<close>

fun report_tick :: "report_codec \<Rightarrow> Client \<Rightarrow> string \<Rightarrow> tick \<Rightarrow> reporter \<Rightarrow> http_request list \<times> reporter" where
  "report_tick codec c version (HeartbeatTick now env io) rep =
     (let (res, sent) = reportHeartbeat env codec c version now
      in (sent, if isl res then rep else rep\<lparr>rep_receipt := markHeartbeat io (rep_receipt rep)\<rparr>))"
| "report_tick codec c version (StateTick now env io metrics) rep =
     (let ((res, sent), st) = reportState env codec c metrics now (rep_collector rep);
          rep1 = rep\<lparr>rep_collector := st\<rparr>
      in (sent, if isl res then rep1 else rep1\<lparr>rep_receipt := markState io (rep_receipt rep1)\<rparr>))"
| "report_tick codec c version (HostTick now env host inner) rep =
     (let ((res, sent), d) = reportHost env codec c host (fst (rep_collector rep)) version now inner (rep_identity rep)
      in (sent, rep\<lparr>rep_identity := d\<rparr>))"

fun report_ticks :: "report_codec \<Rightarrow> Client \<Rightarrow> string \<Rightarrow> tick list \<Rightarrow> reporter \<Rightarrow> reporter" where
  "report_ticks codec c version [] rep = rep"
| "report_ticks codec c version (t # ts) rep = report_ticks codec c version ts (snd (report_tick codec c version t rep))"

subsection \<open>Receipts and accepted reports\<close>

text \<open>The receipt marks of a run: one per accepted heartbeat or state report.\<close>

fun tick_marks :: "report_codec \<Rightarrow> Client \<Rightarrow> string \<Rightarrow> tick \<Rightarrow> reporter \<Rightarrow> (bool \<times> receipt_io) list" where
  "tick_marks codec c version (HeartbeatTick now env io) rep =
     (if isl (fst (reportHeartbeat env codec c version now)) then [] else [(True, io)])"
| "tick_marks codec c version (StateTick now env io metrics) rep =
     (if isl (fst (fst (reportState env codec c metrics now (rep_collector rep)))) then [] else [(False, io)])"
| "tick_marks codec c version (HostTick now env host inner) rep = []"

fun report_marks :: "report_codec \<Rightarrow> Client \<Rightarrow> string \<Rightarrow> tick list \<Rightarrow> reporter \<Rightarrow> (bool \<times> receipt_io) list" where
  "report_marks codec c version [] rep = []"
| "report_marks codec c version (t # ts) rep =
     tick_marks codec c version t rep @ report_marks codec c version ts (snd (report_tick codec c version t rep))"

lemma marks_append: "marks (xs @ ys) st = marks ys (marks xs st)"
  by (induction xs st rule: marks.induct) simp_all

lemma report_tick_receipt:
  "rep_receipt (snd (report_tick codec c version t rep)) = marks (tick_marks codec c version t rep) (rep_receipt rep)"
  by (cases t) (auto simp: Let_def split: prod.splits)

lemma report_ticks_receipt:
  "rep_receipt (report_ticks codec c version ts rep) = marks (report_marks codec c version ts rep) (rep_receipt rep)"
  by (induction ts arbitrary: rep) (simp_all add: marks_append report_tick_receipt)

text \<open>A report is accepted when a request of it got a 2xx answer.\<close>

definition accepted_at :: "client_env \<Rightarrow> Client \<Rightarrow> string \<Rightarrow> bool" where
  "accepted_at env c path \<longleftrightarrow>
     (\<exists>req status hdr body fails. req_URL req = baseURL c @ path \<and> ce_Do env req = Reply status hdr body fails \<and>
        200 \<le> status \<and> status < 300)"

lemma doJSON_accepted:
  assumes "doJSON env c m path body decode = (res, sent)" "\<not> isl res"
  shows "accepted_at env c path"
proof -
  obtain r where r: "res = Inr r" using assms(2) by (cases res) auto
  obtain req status hdr b f where a: "sent = [req]" "ce_Do env req = Reply status hdr b f" "200 \<le> status" "status < 300"
    using doJSON_ok [OF assms(1) [unfolded r]] by metis
  moreover have "req_URL req = baseURL c @ path" using doJSON_sent(3) [OF assms(1), of req] a(1) by simp
  ultimately show ?thesis by (auto simp: accepted_at_def)
qed

lemma heartbeat_accepted: "\<not> isl (fst (reportHeartbeat env codec c version now)) \<Longrightarrow> accepted_at env c ''/api/agent/v1/heartbeat''"
  by (rule doJSON_accepted [OF prod.collapse [symmetric]]) (simp add: reportHeartbeat_def PostHeartbeat_def)

lemma state_accepted:
  assumes "\<not> isl (fst (fst (reportState env codec c metrics now st)))"
  shows "accepted_at env c ''/api/agent/v1/state''"
proof -
  obtain s st' where s: "CollectState metrics now st = (s, st')" by (metis prod.exhaust)
  show ?thesis
    by (rule doJSON_accepted [OF prod.collapse [symmetric]]) (use assms in \<open>simp add: reportState_def s PostState_def Let_def\<close>)
qed

lemma report_marks_heartbeat:
  "(True, io) \<in> set (report_marks codec c version ts rep) \<Longrightarrow>
   \<exists>now env. HeartbeatTick now env io \<in> set ts \<and> accepted_at env c ''/api/agent/v1/heartbeat''"
proof (induction ts arbitrary: rep)
  case (Cons t ts)
  then show ?case
    by (cases t) (auto dest: heartbeat_accepted split: if_splits simp del: report_tick.simps, (metis Cons.IH)+)
qed simp

lemma report_marks_state:
  "(False, io) \<in> set (report_marks codec c version ts rep) \<Longrightarrow>
   \<exists>now env metrics. StateTick now env io metrics \<in> set ts \<and> accepted_at env c ''/api/agent/v1/state''"
proof (induction ts arbitrary: rep)
  case (Cons t ts)
  then show ?case
    by (cases t) (auto dest: state_accepted split: if_splits simp del: report_tick.simps, (metis Cons.IH)+)
qed simp

text \<open>The write attempts of the ticks.\<close>

fun tick_io :: "tick \<Rightarrow> receipt_io option" where
  "tick_io (HeartbeatTick now env io) = Some io"
| "tick_io (StateTick now env io metrics) = Some io"
| "tick_io (HostTick now env host inner) = None"

lemma report_marks_io:
  assumes "\<forall>t\<in>set ts. case tick_io t of None \<Rightarrow> True | Some io \<Rightarrow> temp_ok io"
  shows "\<forall>ev\<in>set (report_marks codec c version ts rep). temp_ok (snd ev)"
proof
  fix ev assume ev: "ev \<in> set (report_marks codec c version ts rep)"
  obtain hb io where e: "ev = (hb, io)" by fastforce
  have "\<exists>t\<in>set ts. tick_io t = Some io"
  proof (cases hb)
    case True
    then show ?thesis using report_marks_heartbeat [of io codec c version ts rep] ev e by force
  next
    case False
    then show ?thesis using report_marks_state [of io codec c version ts rep] ev e by force
  qed
  then show "temp_ok (snd ev)" using assms e by (metis option.simps(5) snd_conv)
qed

subsection \<open>Properties\<close>


definition example_codec :: report_codec where
  "example_codec = \<lparr>rc_heartbeat = (\<lambda>_. Some ''h''), rc_host = (\<lambda>_. Some ''o''), rc_state = (\<lambda>_. Some ''s''),
     rc_ids = \<lparr>sm_sha = (\<lambda>_. ''digest''), sm_Marshal = (\<lambda>_. Some ''s''), sm_render = (\<lambda>_. ''s'')\<rparr>\<rparr>"

definition reporting_client :: Client where
  "reporting_client = \<lparr>baseURL = ''https://c'', nodeID = ''n1'', token = ''t'', allowInsecureHTTP = False, has_http = True\<rparr>"

definition example_reporter :: reporter where
  "example_reporter = \<lparr>rep_collector = (NewMetricsCollector [] [], 0), rep_identity = NewCachedNetworkIdentityDiscoverer 0,
     rep_receipt = (newInstallReceiptTracker ''/run/receipt'' ''ab'', [])\<rparr>"

definition example_io :: receipt_io where
  "example_io = \<lparr>io_temp = example_temp, io_fails = None, io_remove = True\<rparr>"

definition example_ticks :: "tick list" where
  "example_ticks = [HeartbeatTick 0 plain_env example_io, StateTick 1 plain_env example_io (example_reading (Some 5))]"

lemma example_marks: "report_marks example_codec reporting_client ''v1'' example_ticks example_reporter = [(True, example_io), (False, example_io)]"
  by (simp add: example_ticks_def reportHeartbeat_def PostHeartbeat_def reportState_def PostState_def example_codec_def plain_env_def
      doJSON_def reporting_client_def ValidateControllerURLWithOptions_def url_env.truncate_def Let_def ascii_lower_def no_decode_def
      split: prod.splits)


end
