(* ===== verification/Agent_Config.thy ===== *)
theory Agent_Config
  imports Agent_Client Metrics_Collector Network_Identity
begin

text \<open>
  The command line and the start of the agent (\<open>cmd/zeno-agent/main.go\<close>): intervals, list flags, the token,
  the checks of \<open>run\<close>, and the timeouts of the periodic workers. \<open>run\<close> either fails, ends after the local
  install check, or starts the agent; what it starts it with is its result. Paths are those of Unix.
\<close>

definition defaultStateInterval :: duration where [time_defs]: "defaultStateInterval = 3 * Second"
definition defaultHeartbeatInterval :: duration where [time_defs]: "defaultHeartbeatInterval = 15 * Second"
definition defaultHostInterval :: duration where [time_defs]: "defaultHostInterval = 30 * Minute"
definition defaultIdentityRefreshInterval :: duration where [time_defs]: "defaultIdentityRefreshInterval = 12 * Hour"
definition defaultProbeConfigPollInterval :: duration where [time_defs]: "defaultProbeConfigPollInterval = Minute"
definition probeConfigRefreshTimeout :: duration where [time_defs]: "probeConfigRefreshTimeout = 20 * Second"
definition probeRunLoopInterval :: duration where [time_defs]: "probeRunLoopInterval = Second"

record config =
  cfg_ControllerURL :: string
  cfg_NodeID :: string
  cfg_Token :: string
  cfg_TokenFile :: string
  cfg_StateInterval :: duration
  cfg_HeartbeatInterval :: duration
  cfg_HostInterval :: duration
  cfg_Once :: bool
  cfg_Version :: string
  cfg_IdentityRefreshInterval :: duration
  cfg_NetworkInterfaces :: string
  cfg_DiskMounts :: string
  cfg_DataDir :: string
  cfg_AllowInsecureHTTP :: bool
  cfg_InstallCheck :: bool
  cfg_InstallReceiptFile :: string
  cfg_InstallReceiptNonce :: string
  cfg_LogFile :: string

definition normalizeConfigIntervals :: "config \<Rightarrow> config" where
  "normalizeConfigIntervals cfg =
     cfg\<lparr>cfg_StateInterval := (if cfg_StateInterval cfg \<le> 0 then defaultStateInterval else cfg_StateInterval cfg),
         cfg_HeartbeatInterval := (if cfg_HeartbeatInterval cfg \<le> 0 then defaultHeartbeatInterval else cfg_HeartbeatInterval cfg),
         cfg_HostInterval := (if cfg_HostInterval cfg \<le> 0 then defaultHostInterval else cfg_HostInterval cfg),
         cfg_IdentityRefreshInterval :=
           (if cfg_IdentityRefreshInterval cfg \<le> 0 then defaultIdentityRefreshInterval else cfg_IdentityRefreshInterval cfg)\<rparr>"

definition perCallTimeout :: "duration \<Rightarrow> duration" where
  "perCallTimeout interval =
     (if interval \<le> 0 then 20 * Second
      else if interval < 10 * Second then 10 * Second
      else if interval < 30 * Second then interval
      else 30 * Second)"

definition maxProbeRunLoopTimeout :: duration where
  "maxProbeRunLoopTimeout = 120000 * Millisecond + 5 * Second"

definition splitCommaList :: "string \<Rightarrow> string list" where
  "splitCommaList list_text =
     (if TrimSpace list_text = [] then []
      else filter (\<lambda>w. w \<noteq> []) (map TrimSpace (split_at (CHR '','') list_text)))"

text \<open>\<open>file\<close> is what \<open>os.ReadFile\<close> returns for the token file.\<close>

definition readToken :: "string \<Rightarrow> string \<Rightarrow> string option \<Rightarrow> string option" where
  "readToken tok tokenFile file =
     (if tokenFile \<noteq> [] then (case file of None \<Rightarrow> None | Some content \<Rightarrow> Some (TrimSpace content))
      else Some (TrimSpace tok))"

text \<open>The nonce is checked rune by rune; a rune of the set is one of these bytes.\<close>

definition is_nonce_char :: "char \<Rightarrow> bool" where
  "is_nonce_char ch \<longleftrightarrow> ch \<in> set ''0123456789abcdef''"

definition IsAbs :: "string \<Rightarrow> bool" where
  "IsAbs path \<longleftrightarrow> HasPrefix path ''/''"

definition validateInstallReceiptConfig :: "string \<Rightarrow> string \<Rightarrow> bool" where
  "validateInstallReceiptConfig path nonce =
     (if path = [] \<and> nonce = [] then True
      else if path = [] \<or> nonce = [] \<or> \<not> IsAbs path \<or> length nonce \<noteq> 64 then False
      else list_all is_nonce_char nonce)"

subsection \<open>Starting\<close>

datatype run_error = ControllerURLError client_error | MissingCredentials | InvalidReceiptConfig

text \<open>The arguments of \<open>runAgent\<close>.\<close>

record agent_start =
  start_cfg :: config
  start_client :: Client
  start_collector :: MetricsCollector
  start_identity :: CachedNetworkIdentityDiscoverer

definition run :: "url_env \<Rightarrow> config \<Rightarrow> run_error + agent_start option" where
  "run env cfg0 =
     (let cfg = normalizeConfigIntervals cfg0 in
      case ValidateControllerURLWithOptions env (cfg_ControllerURL cfg) (cfg_AllowInsecureHTTP cfg) of
        Some e \<Rightarrow> Inl (ControllerURLError e)
      | None \<Rightarrow>
          if TrimSpace (cfg_NodeID cfg) = [] \<or> TrimSpace (cfg_Token cfg) = [] then Inl MissingCredentials
          else if \<not> validateInstallReceiptConfig (cfg_InstallReceiptFile cfg) (cfg_InstallReceiptNonce cfg) then Inl InvalidReceiptConfig
          else if cfg_InstallCheck cfg then Inr None
          else Inr (Some
            \<lparr>start_cfg = cfg,
             start_client = NewClientWithOptions (cfg_ControllerURL cfg) (cfg_NodeID cfg) (cfg_Token cfg) (cfg_AllowInsecureHTTP cfg),
             start_collector = NewMetricsCollector (splitCommaList (cfg_NetworkInterfaces cfg)) (splitCommaList (cfg_DiskMounts cfg)),
             start_identity = NewCachedNetworkIdentityDiscoverer (cfg_IdentityRefreshInterval cfg)\<rparr>))"

subsection \<open>Lists of names\<close>

lemma allow_loop_elems: "w \<in> set (allow_loop seen vs) \<Longrightarrow> w \<noteq> [] \<and> TrimSpace w = w \<and> w \<notin> set seen"
  by (induction seen vs rule: allow_loop.induct) (auto simp: Let_def split: if_splits)

lemma allow_loop_distinct: "distinct (allow_loop seen vs)"
  by (induction seen vs rule: allow_loop.induct) (auto simp: Let_def dest: allow_loop_elems)

lemma allow_loop_set: "set (allow_loop seen vs) = {TrimSpace v |v. v \<in> set vs} - {[]} - set seen"
  by (induction seen vs rule: allow_loop.induct) (auto simp: Let_def)

lemma normalizeAllowlist_set: "set (normalizeAllowlist vs) = {TrimSpace v |v. v \<in> set vs} - {[]}"
  by (simp add: normalizeAllowlist_def allow_loop_set)

lemma allow_loop_id:
  "distinct vs \<Longrightarrow> \<forall>v\<in>set vs. v \<noteq> [] \<and> TrimSpace v = v \<and> v \<notin> set seen \<Longrightarrow> allow_loop seen vs = vs"
  by (induction seen vs rule: allow_loop.induct) (auto simp: Let_def)

lemma normalizeAllowlist_idem: "normalizeAllowlist (normalizeAllowlist vs) = normalizeAllowlist vs"
  unfolding normalizeAllowlist_def by (rule allow_loop_id [OF allow_loop_distinct]) (auto dest: allow_loop_elems)

text \<open>A printed list of names is read back: names without commas, trimmed and not empty.\<close>

definition list_name :: "string \<Rightarrow> bool" where
  "list_name w \<longleftrightarrow> w \<noteq> [] \<and> TrimSpace w = w \<and> CHR '','' \<notin> set w"

lemma split_at_Join_inv: "ws \<noteq> [] \<Longrightarrow> \<forall>w\<in>set ws. sep \<notin> set w \<Longrightarrow> split_at sep (Join ws [sep]) = ws"
  by (induction ws "[sep]" rule: Join.induct) (auto simp: split_at_plain split_at_append)

text \<open>Trimming removes bytes of white space only, so that a comma survives it.\<close>

definition blank_bytes :: "char set" where
  "blank_bytes = \<Union> (set ` set space_runes)"

lemma strip_one_bytes: "strip_one rs s = Some t \<Longrightarrow> set s \<subseteq> \<Union> (set ` set rs) \<union> set t"
  by (induction rs) (auto simp: has_prefix_iff split: if_splits)

lemma trim_left_bytes: "set s \<subseteq> blank_bytes \<union> set (trim_left s)"
proof (induction s rule: trim_left.induct)
  case (1 s)
  then show ?case
    using strip_one_bytes [of space_runes s] by (cases "strip_one space_runes s") (auto simp: trim_left.simps [of s] blank_bytes_def)
qed

lemma trim_rev_bytes: "set s \<subseteq> blank_bytes \<union> set (trim_rev s)"
proof (induction s rule: trim_rev.induct)
  case (1 s)
  then show ?case
    using strip_one_bytes [of "map rev space_runes" s]
    by (cases "strip_one (map rev space_runes) s") (auto simp: trim_rev.simps [of s] blank_bytes_def)
qed

lemma TrimSpace_bytes: "set s \<subseteq> blank_bytes \<union> set (TrimSpace s)"
  using trim_left_bytes [of s] trim_rev_bytes [of "rev (trim_left s)"] by (auto simp: TrimSpace_def)

lemma blank_no_comma: "TrimSpace s = [] \<Longrightarrow> CHR '','' \<notin> set s"
  using TrimSpace_bytes [of s] by (auto simp: blank_bytes_def space_runes_def)

lemma splitCommaList_eq: "splitCommaList s = filter (\<lambda>w. w \<noteq> []) (map TrimSpace (split_at (CHR '','') s))"
  by (auto simp: splitCommaList_def split_at_plain blank_no_comma)

lemma run_starts:
  assumes "run env cfg = Inr (Some st)"
  shows "ValidateControllerURLWithOptions env (cfg_ControllerURL cfg) (cfg_AllowInsecureHTTP cfg) = None"
    "TrimSpace (cfg_NodeID cfg) \<noteq> []" "TrimSpace (cfg_Token cfg) \<noteq> []" "\<not> cfg_InstallCheck cfg"
    "validateInstallReceiptConfig (cfg_InstallReceiptFile cfg) (cfg_InstallReceiptNonce cfg)"
    "start_cfg st = normalizeConfigIntervals cfg"
    "start_client st = NewClientWithOptions (cfg_ControllerURL cfg) (cfg_NodeID cfg) (cfg_Token cfg) (cfg_AllowInsecureHTTP cfg)"
  using assms by (auto simp: run_def Let_def normalizeConfigIntervals_def split: option.splits if_splits)

subsection \<open>Properties\<close>

text \<open>C33: An agent that starts has positive report intervals, a non-empty trimmed node ID and token, a Controller URL that
  passes the transport rules, and either no install receipt or an absolute path with a nonce of 64 lower-case
  hexadecimal digits. With the install check nothing is started.\<close>

theorem run_starts_configured:
  assumes "run env cfg = Inr (Some st)"
  shows "0 < cfg_StateInterval (start_cfg st) \<and> 0 < cfg_HeartbeatInterval (start_cfg st) \<and> 0 < cfg_HostInterval (start_cfg st) \<and>
    0 < cfg_IdentityRefreshInterval (start_cfg st) \<and> nodeID (start_client st) \<noteq> [] \<and> token (start_client st) \<noteq> [] \<and>
    ValidateControllerURLWithOptions env (cfg_ControllerURL cfg) (allowInsecureHTTP (start_client st)) = None \<and>
    (cfg_InstallReceiptFile cfg = [] \<and> cfg_InstallReceiptNonce cfg = [] \<or>
     IsAbs (cfg_InstallReceiptFile cfg) \<and> length (cfg_InstallReceiptNonce cfg) = 64 \<and> list_all is_nonce_char (cfg_InstallReceiptNonce cfg)) \<and>
    \<not> cfg_InstallCheck cfg"
  using run_starts [OF assms]
  by (auto simp: normalizeConfigIntervals_def NewClientWithOptions_def validateInstallReceiptConfig_def time_defs split: if_splits)

definition example_cfg :: config where
  "example_cfg = \<lparr>cfg_ControllerURL = ''https://c'', cfg_NodeID = ''n'', cfg_Token = ''t'', cfg_TokenFile = [], cfg_StateInterval = 0,
     cfg_HeartbeatInterval = -1, cfg_HostInterval = Hour, cfg_Once = False, cfg_Version = ''v1'', cfg_IdentityRefreshInterval = 0,
     cfg_NetworkInterfaces = ''eth0'', cfg_DiskMounts = [], cfg_DataDir = [], cfg_AllowInsecureHTTP = False, cfg_InstallCheck = False,
     cfg_InstallReceiptFile = [], cfg_InstallReceiptNonce = [], cfg_LogFile = []\<rparr>"

lemma example_cfg_runs: "\<exists>st. run (url_env.truncate plain_env) example_cfg = Inr (Some st)"
proof -
  have "TrimSpace ''n'' = ''n''" "TrimSpace ''t'' = ''t''" "TrimSpace [] = []"
    by (simp_all add: TrimSpace_graphic graphic_def)
  then show ?thesis
    by (simp add: run_def example_cfg_def plain_env_def url_env.truncate_def ValidateControllerURLWithOptions_def Let_def
        ascii_lower_def normalizeConfigIntervals_def validateInstallReceiptConfig_def)
qed

theorem run_starts_configured_witness:
  "\<exists>st. run (url_env.truncate plain_env) example_cfg = Inr (Some st) \<and> 0 < cfg_HeartbeatInterval (start_cfg st)"
proof -
  obtain st where st: "run (url_env.truncate plain_env) example_cfg = Inr (Some st)" using example_cfg_runs by blast
  then show ?thesis using run_starts_configured [OF st] by auto
qed

text \<open>A list of names printed with commas is read back by \<open>splitCommaList\<close>, provided the names are trimmed, not empty
  and without commas; the allowlist made of it has the same members.\<close>

theorem comma_list_roundtrip:
  assumes "list_all list_name names"
  shows "splitCommaList (Join names '','') = names \<and> set (allowlistSet (splitCommaList (Join names '',''))) = set names"
proof -
  have "splitCommaList (Join names '','') = names"
  proof (cases "names = []")
    case True
    then show ?thesis by (simp add: splitCommaList_def)
  next
    case False
    then have "split_at (CHR '','') (Join names '','') = names"
      using assms by (intro split_at_Join_inv) (auto simp: list_all_iff list_name_def)
    moreover have "map TrimSpace names = names" using assms by (auto simp: list_all_iff list_name_def intro: map_idI)
    ultimately show ?thesis using assms by (auto simp: splitCommaList_eq list_all_iff list_name_def intro: filter_True)
  qed
  moreover have "TrimSpace ` set names = set names"
    using assms by (simp add: list_all_iff list_name_def)
  then have "{TrimSpace v |v. v \<in> set names} = set names" unfolding Setcompr_eq_image .
  then have "{TrimSpace v |v. v \<in> set names} - {[]} = set names" using assms by (auto simp: list_all_iff list_name_def)
  ultimately show ?thesis by (simp add: allowlistSet_def normalizeAllowlist_set)
qed

theorem comma_list_roundtrip_witness: "splitCommaList (Join [''eth0'', ''wg0''] '','') = [''eth0'', ''wg0'']"
proof -
  have "list_all list_name [''eth0'', ''wg0'']" by (simp add: list_name_def TrimSpace_graphic graphic_def)
  then show ?thesis by (rule conjunct1 [OF comma_list_roundtrip])
qed

end
