(* ===== verification/Ip_Table.thy ===== *)
theory Ip_Table
  imports Metrics_Parse
begin

text \<open>
  The resize protocol of the Windows connection tables (\<open>windowsIPTableCountWithQuery\<close> of
  \<open>internal/agent/windows_metrics_common.go\<close>). A query gets the buffer and the size variable and returns the
  error code, the size and the buffer it wrote; tables may grow between calls, so that the query also
  depends on the attempt.
\<close>

definition windowsErrorInsufficientBuffer :: "32 word" where "windowsErrorInsufficientBuffer = 122"
definition windowsErrorNotSupported :: "32 word" where "windowsErrorNotSupported = 50"
definition windowsErrorInvalidParameter :: "32 word" where "windowsErrorInvalidParameter = 87"
definition windowsIPTableMaxAttempts :: nat where "windowsIPTableMaxAttempts = 5"
definition windowsIPTableMaxBufferBytes :: "32 word" where "windowsIPTableMaxBufferBytes = 67108864"

datatype ip_table_error =
    UndersizedSuccess
  | windowsIPTableAPIError "32 word"
  | InvalidBufferSize "32 word"
  | BufferTooLarge "32 word"
  | KeptGrowing

type_synonym ip_query = "nat \<Rightarrow> string \<Rightarrow> 32 word \<Rightarrow> 32 word \<times> 32 word \<times> string"

definition windowsIPFamilyUnavailable :: "ip_table_error \<Rightarrow> bool" where
  "windowsIPFamilyUnavailable err =
     (case err of
        windowsIPTableAPIError code \<Rightarrow> code = windowsErrorNotSupported \<or> code = windowsErrorInvalidParameter
      | _ \<Rightarrow> False)"

definition LittleEndian_Uint32 :: "string \<Rightarrow> int" where
  "LittleEndian_Uint32 b = of_char (b ! 0) + 256 * of_char (b ! 1) + 65536 * of_char (b ! 2) + 16777216 * of_char (b ! 3)"

text \<open>What follows from one answer: the end of the loop, or the next buffer size.\<close>

definition ip_table_step :: "32 word \<Rightarrow> 32 word \<Rightarrow> string \<Rightarrow> (ip_table_error + int) + 32 word" where
  "ip_table_step result size1 written =
     (if result = 0 then
        Inl (if length written < 4 \<or> size1 < 4 then Inl UndersizedSuccess else Inr (LittleEndian_Uint32 written))
      else if result \<noteq> windowsErrorInsufficientBuffer then Inl (Inl (windowsIPTableAPIError result))
      else if size1 < 4 then Inl (Inl (InvalidBufferSize size1))
      else if size1 > windowsIPTableMaxBufferBytes then Inl (Inl (BufferTooLarge size1))
      else Inr size1)"

text \<open>
  The loop from \<open>attempt\<close> on, with \<open>left\<close> attempts to go: the result and the lengths of the buffers
  handed to the queries.
\<close>

fun ip_table_loop :: "ip_query \<Rightarrow> nat \<Rightarrow> nat \<Rightarrow> string \<Rightarrow> 32 word \<Rightarrow> (ip_table_error + int) \<times> nat list" where
  "ip_table_loop query attempt 0 buffer bufsize = (Inl KeptGrowing, [])"
| "ip_table_loop query attempt (Suc left) buffer bufsize =
     (case query attempt buffer bufsize of (result, size1, written) \<Rightarrow>
        (case ip_table_step result size1 written of
           Inl r \<Rightarrow> (r, [length buffer])
         | Inr n \<Rightarrow>
             let (r, asked) = ip_table_loop query (Suc attempt) left (replicate (unat n) (CHR 0x00)) n
             in (r, length buffer # asked)))"

definition windowsIPTableCountWithQuery :: "ip_query \<Rightarrow> (ip_table_error + int) \<times> nat list" where
  "windowsIPTableCountWithQuery query = ip_table_loop query 1 windowsIPTableMaxAttempts [] 0"

subsection \<open>Bounds\<close>

lemma of_char_byte: "0 \<le> (of_char c :: int) \<and> (of_char c :: int) < 256"
  using of_char_mod_256 [of c, where 'a = int] by (metis pos_mod_bound pos_mod_sign zero_less_numeral)

lemma LittleEndian_range: "0 \<le> LittleEndian_Uint32 b \<and> LittleEndian_Uint32 b < 2 ^ 32"
  using of_char_byte [of "b ! 0"] of_char_byte [of "b ! 1"] of_char_byte [of "b ! 2"] of_char_byte [of "b ! 3"]
  by (simp add: LittleEndian_Uint32_def)

lemma ip_table_step_Inl: "ip_table_step result size1 written = Inl (Inr n) \<Longrightarrow> 0 \<le> n \<and> n < 2 ^ 32"
  using LittleEndian_range [of written] by (auto simp: ip_table_step_def split: if_splits)

lemma ip_table_step_Inr: "ip_table_step result size1 written = Inr n \<Longrightarrow> 4 \<le> unat n \<and> unat n \<le> 67108864"
  by (auto simp: ip_table_step_def windowsIPTableMaxBufferBytes_def word_le_nat_alt not_less split: if_splits)

lemma ip_table_loop_bounds:
  assumes "ip_table_loop query attempt left buffer bufsize = (r, asked)"
  shows "length asked \<le> left \<and> list_all (\<lambda>n. n = length buffer \<or> 4 \<le> n \<and> n \<le> 67108864) asked \<and> (\<forall>n. r = Inr n \<longrightarrow> 0 \<le> n \<and> n < 2 ^ 32)"
  using assms
proof (induction left arbitrary: attempt buffer bufsize r asked)
  case (Suc left)
  obtain result size1 written where q: "query attempt buffer bufsize = (result, size1, written)" by (metis prod.exhaust)
  show ?case
  proof (cases "ip_table_step result size1 written")
    case (Inl r1)
    then have "asked = [length buffer]" "r = r1" using Suc.prems by (auto simp: q)
    then show ?thesis using ip_table_step_Inl [of result size1 written] Inl by simp
  next
    case (Inr n)
    obtain r2 asked2 where l: "ip_table_loop query (Suc attempt) left (replicate (unat n) (CHR 0x00)) n = (r2, asked2)" by fastforce
    have e: "r = r2" "asked = length buffer # asked2" using Suc.prems by (auto simp: q Inr l)
    show ?thesis using Suc.IH [OF l] ip_table_step_Inr [OF Inr] by (auto simp: e list_all_iff)
  qed
qed simp

subsection \<open>Properties\<close>

text \<open>C30: Whatever the operating system answers, the query loop ends after at most five calls, allocates no buffer smaller
  than four bytes or larger than 64 MiB, and the count it returns is the 32-bit number of the table.\<close>

theorem ip_table_bounded:
  assumes "windowsIPTableCountWithQuery query = (r, asked)"
  shows "length asked \<le> 5 \<and> list_all (\<lambda>n. n = 0 \<or> 4 \<le> n \<and> n \<le> 67108864) asked \<and> (\<forall>n. r = Inr n \<longrightarrow> 0 \<le> n \<and> n < 2 ^ 32)"
proof -
  show ?thesis
    using ip_table_loop_bounds [OF assms [unfolded windowsIPTableCountWithQuery_def]] by (simp add: windowsIPTableMaxAttempts_def)
qed

text \<open>A table of eight bytes: the first call asks for room, the second one answers.\<close>

definition example_query :: ip_query where
  "example_query attempt buffer bufsize =
     (if length buffer < 8 then (122, 8, buffer) else (0, 8, [CHR 0x02, CHR 0x01] @ replicate 6 (CHR 0x00)))"

theorem ip_table_bounded_witness:
  "windowsIPTableCountWithQuery example_query = (Inr 258, [0, 8]) \<and> length [0, 8 :: nat] \<le> 5"
proof -
  have five: "(5 :: nat) = Suc (Suc (Suc (Suc (Suc 0))))" by simp
  have a: "windowsIPTableCountWithQuery example_query = (Inr 258, [0, 8])"
    unfolding windowsIPTableCountWithQuery_def windowsIPTableMaxAttempts_def five
    by (simp add: example_query_def ip_table_step_def windowsErrorInsufficientBuffer_def windowsIPTableMaxBufferBytes_def LittleEndian_Uint32_def)
  then show ?thesis using ip_table_bounded [OF a] by simp
qed

end
