(* ===== verification/Darwin_Parse.thy ===== *)
theory Darwin_Parse
  imports Metrics_System
begin

text \<open>
  The parsers of command output on macOS (\<open>internal/agent/darwin_metrics_parse.go\<close>) and the bounds on that
  output (\<open>internal/agent/darwin_command.go\<close>): CPU time vectors, the connection and the interface table of
  \<open>netstat\<close>, the bounded buffer and the line limits.
\<close>

subsection \<open>CPU times\<close>

fun darwin_cpu_loop :: "bool \<Rightarrow> nat \<Rightarrow> string list \<Rightarrow> cpuTimes \<Rightarrow> cpuTimes option" where
  "darwin_cpu_loop perCPU index [] t = Some t"
| "darwin_cpu_loop perCPU index (field # rest) t =
     (case ParseUint field of
        None \<Rightarrow> None
      | Some v \<Rightarrow>
          darwin_cpu_loop perCPU (Suc index) rest
            \<lparr>Total = Total t + word_of_int v,
             Idle = (if perCPU \<and> index mod 5 = 3 then Idle t + word_of_int v
                     else if \<not> perCPU \<and> index = 3 then word_of_int v else Idle t)\<rparr>)"

definition parseDarwinCPUTimes :: "string \<Rightarrow> cpuTimes option" where
  "parseDarwinCPUTimes output =
     (let fs = filter (\<lambda>f. f \<noteq> []) (map (\<lambda>f. Trim f ''{},'') (Fields output)) in
      if length fs < 4 then None
      else case darwin_cpu_loop (length fs > 5 \<and> length fs mod 5 = 0) 0 fs \<lparr>Total = 0, Idle = 0\<rparr> of
        None \<Rightarrow> None
      | Some t \<Rightarrow> if Total t > 0 then Some t else None)"

subsection \<open>Connections\<close>

record darwinConnectionParser =
  dc_tcp :: int
  dc_udp :: int
  dc_foundHeader :: bool

definition dc_consume :: "string \<Rightarrow> darwinConnectionParser \<Rightarrow> darwinConnectionParser" where
  "dc_consume line p =
     (case Fields line of
        [] \<Rightarrow> p
      | f # fs \<Rightarrow>
          if f = ''Proto'' then p\<lparr>dc_foundHeader := True\<rparr>
          else let protocol = ToLower f in
            if HasPrefix protocol ''tcp'' then p\<lparr>dc_tcp := dc_tcp p + 1\<rparr>
            else if HasPrefix protocol ''udp'' then p\<lparr>dc_udp := dc_udp p + 1\<rparr>
            else p)"

definition dc_result :: "darwinConnectionParser \<Rightarrow> metrics_error + int \<times> int" where
  "dc_result p = (if \<not> dc_foundHeader p then Inl NoHeader else Inr (dc_tcp p, dc_udp p))"

definition parseDarwinConnectionCountsResult :: "string \<Rightarrow> metrics_error + int \<times> int" where
  "parseDarwinConnectionCountsResult output =
     (let (ls, tooLong) = ScanLines MaxScanTokenSize output;
          p = fold dc_consume ls \<lparr>dc_tcp = 0, dc_udp = 0, dc_foundHeader = False\<rparr>
      in if tooLong then Inl LineTooLong else dc_result p)"

definition parseDarwinConnectionCounts :: "string \<Rightarrow> int \<times> int" where
  "parseDarwinConnectionCounts output = (case parseDarwinConnectionCountsResult output of Inl _ \<Rightarrow> (0, 0) | Inr counts \<Rightarrow> counts)"

subsection \<open>Interfaces\<close>

text \<open>The column indexes of the header line; a repeated name keeps its last index.\<close>

record darwinNetworkParser =
  dn_allowlist :: "string list"
  dn_indexes :: "string \<rightharpoonup> nat"
  dn_seen :: "string list"
  dn_totals :: networkTotals
  dn_foundHeader :: bool

definition newDarwinNetworkParser :: "string list \<Rightarrow> darwinNetworkParser" where
  "newDarwinNetworkParser allowlist =
     \<lparr>dn_allowlist = allowlist, dn_indexes = Map.empty, dn_seen = [], dn_totals = no_totals, dn_foundHeader = False\<rparr>"

text \<open>The interface of a row that counts: a link-layer row of an included interface not seen before.\<close>

definition dn_row :: "darwinNetworkParser \<Rightarrow> string list \<Rightarrow> string option" where
  "dn_row p fs =
     (case (dn_indexes p ''Name'', dn_indexes p ''Network'', dn_indexes p ''Ibytes'', dn_indexes p ''Obytes'') of
        (Some nameIndex, Some networkIndex, Some _, Some _) \<Rightarrow>
          if nameIndex \<ge> length fs \<or> networkIndex \<ge> length fs \<or> length fs < 7 then None
          else let name = fs ! nameIndex in
            if \<not> HasPrefix (fs ! networkIndex) ''<Link#'' \<or> \<not> includeNetworkInterface name (dn_allowlist p) then None
            else if name \<in> set (dn_seen p) then None
            else Some name
      | _ \<Rightarrow> None)"

definition dn_add :: "string \<Rightarrow> string list \<Rightarrow> darwinNetworkParser \<Rightarrow> (metrics_error + unit) \<times> darwinNetworkParser" where
  "dn_add name fs p =
     (let p1 = p\<lparr>dn_seen := name # dn_seen p\<rparr> in
      case (parseNetworkCounter (fs ! (length fs - 5)), parseNetworkCounter (fs ! (length fs - 2))) of
        (Some inBytes, Some outBytes) \<Rightarrow>
          (case add_counters name inBytes outBytes (dn_totals p1) of
             Inl e \<Rightarrow> (Inl e, p1)
           | Inr t \<Rightarrow> (Inr (), p1\<lparr>dn_totals := t\<rparr>))
      | _ \<Rightarrow> (Inl (BadCounter name), p1))"

definition dn_consume :: "string \<Rightarrow> darwinNetworkParser \<Rightarrow> (metrics_error + unit) \<times> darwinNetworkParser" where
  "dn_consume line p =
     (let fs = Fields line in
      if fs = [] then (Inr (), p)
      else if hd fs = ''Name'' then
        (Inr (), p\<lparr>dn_indexes := map_of (rev (zip fs [0..<length fs])), dn_foundHeader := True\<rparr>)
      else case dn_row p fs of None \<Rightarrow> (Inr (), p) | Some name \<Rightarrow> dn_add name fs p)"

definition dn_result :: "darwinNetworkParser \<Rightarrow> metrics_error + networkTotals" where
  "dn_result p = (if \<not> dn_foundHeader p then Inl NoHeader else Inr (dn_totals p))"

fun dn_loop :: "string list \<Rightarrow> darwinNetworkParser \<Rightarrow> metrics_error + darwinNetworkParser" where
  "dn_loop [] p = Inr p"
| "dn_loop (line # ls) p = (case dn_consume line p of (Inl e, p') \<Rightarrow> Inl e | (Inr _, p') \<Rightarrow> dn_loop ls p')"

definition parseDarwinNetworkTotalsResult :: "string \<Rightarrow> string list \<Rightarrow> metrics_error + networkTotals" where
  "parseDarwinNetworkTotalsResult output allowlist =
     (let (ls, tooLong) = ScanLines MaxScanTokenSize output in
      case dn_loop ls (newDarwinNetworkParser allowlist) of
        Inl e \<Rightarrow> Inl e
      | Inr p \<Rightarrow> if tooLong then Inl LineTooLong else dn_result p)"

definition parseDarwinNetworkTotals :: "string \<Rightarrow> string list \<Rightarrow> networkTotals" where
  "parseDarwinNetworkTotals output allowlist =
     (case parseDarwinNetworkTotalsResult output allowlist of Inl _ \<Rightarrow> no_totals | Inr totals \<Rightarrow> totals)"

subsection \<open>Bounded command output\<close>

record boundedCommandOutput =
  bo_buffer :: string
  bo_maxBytes :: int
  bo_exceeded :: bool
  bo_cancelled :: bool

text \<open>\<open>Write\<close>: the number of bytes taken, whether an error is returned, and the buffer.\<close>

definition bo_Write :: "string \<Rightarrow> boundedCommandOutput \<Rightarrow> (nat \<times> bool) \<times> boundedCommandOutput" where
  "bo_Write payload w =
     (if bo_exceeded w then ((0, True), w)
      else let remaining = bo_maxBytes w - int (length (bo_buffer w)) in
        if remaining < int (length payload) then
          (let part = (if remaining > 0 then take (nat remaining) payload else [])
           in ((length part, True), w\<lparr>bo_buffer := bo_buffer w @ part, bo_exceeded := True, bo_cancelled := True\<rparr>))
        else ((length payload, False), w\<lparr>bo_buffer := bo_buffer w @ payload\<rparr>))"

fun bo_writes :: "string list \<Rightarrow> boundedCommandOutput \<Rightarrow> boundedCommandOutput" where
  "bo_writes [] w = w"
| "bo_writes (payload # ps) w = bo_writes ps (snd (bo_Write payload w))"

datatype command_error = InvalidTimeout | InvalidOutputLimit | OutputLimit | DeadlinePassed | CommandFailed | LineLimit | ScanFailed | ParserError metrics_error

text \<open>
  A finished command: the chunks it wrote to its standard output, whether the deadline passed, and
  whether it failed otherwise.
\<close>

definition darwinCommandOutputWithLimits ::
  "duration \<Rightarrow> int \<Rightarrow> string list \<Rightarrow> bool \<Rightarrow> bool \<Rightarrow> command_error + string" where
  "darwinCommandOutputWithLimits timeout maxOutputBytes chunks deadline fails =
     (if timeout \<le> 0 then Inl InvalidTimeout
      else if maxOutputBytes < 0 then Inl InvalidOutputLimit
      else let w = bo_writes chunks \<lparr>bo_buffer = [], bo_maxBytes = maxOutputBytes, bo_exceeded = False, bo_cancelled = False\<rparr> in
        if bo_exceeded w then Inl OutputLimit
        else if deadline then Inl DeadlinePassed
        else if fails then Inl CommandFailed
        else Inr (bo_buffer w))"

text \<open>
  The streaming variant: lines go to a visitor one by one. The buffer of the scanner starts with 64 KiB, so
  that a smaller line limit has no effect. \<open>piped\<close> and \<open>started\<close> tell whether the command could be set up.
\<close>

fun visit_lines :: "(string \<Rightarrow> 's \<Rightarrow> (metrics_error + unit) \<times> 's) \<Rightarrow> int \<Rightarrow> int \<Rightarrow> string list \<Rightarrow> 's \<Rightarrow> command_error option \<times> 's" where
  "visit_lines visit maxLines lineCount [] st = (None, st)"
| "visit_lines visit maxLines lineCount (line # ls) st =
     (if lineCount + 1 > maxLines then (Some LineLimit, st)
      else case visit line st of
        (Inl e, st') \<Rightarrow> (Some (ParserError e), st')
      | (Inr _, st') \<Rightarrow> visit_lines visit maxLines (lineCount + 1) ls st')"

record command_run =
  cr_piped :: bool
  cr_started :: bool
  cr_output :: string
  cr_deadline :: bool
  cr_fails :: bool

definition darwinCommandScanLinesWithLimits ::
  "duration \<Rightarrow> int \<Rightarrow> int \<Rightarrow> (string \<Rightarrow> 's \<Rightarrow> (metrics_error + unit) \<times> 's) \<Rightarrow> command_run \<Rightarrow> 's \<Rightarrow> command_error option \<times> 's" where
  "darwinCommandScanLinesWithLimits timeout maxLines maxLineBytes visit cmd st =
     (if timeout \<le> 0 \<or> maxLines \<le> 0 \<or> maxLineBytes \<le> 0 then (Some InvalidOutputLimit, st)
      else if \<not> cr_piped cmd \<or> \<not> cr_started cmd then (Some CommandFailed, st)
      else
        let (ls, tooLong) = ScanLines (nat (max maxLineBytes 65536)) (cr_output cmd);
            (parseErr, st') = visit_lines visit maxLines 0 ls st
        in (if parseErr \<noteq> None then parseErr
            else if tooLong then Some ScanFailed
            else if cr_deadline cmd then Some DeadlinePassed
            else if cr_fails cmd then Some CommandFailed
            else None, st'))"

subsection \<open>The interface table\<close>

definition dn_ok :: "darwinNetworkParser \<Rightarrow> bool" where
  "dn_ok p \<longleftrightarrow> totals_ok (dn_totals p) \<and> distinct (SourceNames (dn_totals p)) \<and> set (SourceNames (dn_totals p)) \<subseteq> set (dn_seen p) \<and>
     list_all (\<lambda>n. includeNetworkInterface n (dn_allowlist p)) (SourceNames (dn_totals p))"

text \<open>A row that is counted: a new, included interface with counters in range and totals without overflow.\<close>

lemma dn_row_included: "dn_row p fs = Some name \<Longrightarrow> includeNetworkInterface name (dn_allowlist p) \<and> name \<notin> set (dn_seen p)"
  by (auto simp: dn_row_def Let_def split: option.splits if_splits)

lemma dn_add_totals:
  assumes "dn_add name fs p = (Inr u, p')"
  obtains i k where "0 \<le> i" "i \<le> maxInt64" "0 \<le> k" "k \<le> maxInt64" "add_counters name i k (dn_totals p) = Inr (dn_totals p')"
    "dn_seen p' = name # dn_seen p" "dn_allowlist p' = dn_allowlist p"
proof -
  obtain i k where c: "parseNetworkCounter (fs ! (length fs - 5)) = Some i" "parseNetworkCounter (fs ! (length fs - 2)) = Some k"
    using assms by (auto simp: dn_add_def Let_def split: option.splits)
  obtain t where t: "add_counters name i k (dn_totals p) = Inr t" "p' = p\<lparr>dn_seen := name # dn_seen p, dn_totals := t\<rparr>"
    using assms by (auto simp: dn_add_def Let_def c split: sum.splits)
  show ?thesis using that [of i k] parseNetworkCounter_range [OF c(1)] parseNetworkCounter_range [OF c(2)] t by simp
qed

lemma dn_consume_cases:
  assumes "dn_consume line p = (Inr u, p')"
  obtains (same) "dn_totals p' = dn_totals p" "dn_seen p' = dn_seen p" "dn_allowlist p' = dn_allowlist p"
  | (row) name where "dn_row p (Fields line) = Some name" "dn_add name (Fields line) p = (Inr u, p')"
  using assms by (auto simp: dn_consume_def Let_def split: if_splits option.splits)

lemma dn_consume_ok:
  assumes "dn_ok p" "dn_consume line p = (Inr u, p')"
  shows "dn_ok p' \<and> dn_allowlist p' = dn_allowlist p"
  using assms(2)
proof (cases rule: dn_consume_cases)
  case same
  then show ?thesis using assms(1) by (simp add: dn_ok_def)
next
  case (row name)
  obtain i k where ik: "0 \<le> i" "i \<le> maxInt64" "0 \<le> k" "k \<le> maxInt64" "add_counters name i k (dn_totals p) = Inr (dn_totals p')"
    "dn_seen p' = name # dn_seen p" "dn_allowlist p' = dn_allowlist p"
    by (rule dn_add_totals [OF row(2)])
  then have "dn_totals p' = \<lparr>InBytes = InBytes (dn_totals p) + i, OutBytes = OutBytes (dn_totals p) + k,
      SourceNames = SourceNames (dn_totals p) @ [name]\<rparr>" "InBytes (dn_totals p) + i \<le> maxInt64" "OutBytes (dn_totals p) + k \<le> maxInt64"
    using assms(1) by (auto simp: dn_ok_def add_counters_eq split: if_splits)
  then show ?thesis using assms(1) ik dn_row_included [OF row(1)] by (auto simp: dn_ok_def totals_ok_def)
qed

lemma dn_loop_ok: "dn_ok p \<Longrightarrow> dn_loop ls p = Inr p' \<Longrightarrow> dn_ok p' \<and> dn_allowlist p' = dn_allowlist p"
proof (induction ls arbitrary: p)
  case (Cons line ls)
  obtain u p1 where c: "dn_consume line p = (Inr u, p1)" "dn_loop ls p1 = Inr p'"
    using Cons.prems(2) by (auto split: prod.splits sum.splits)
  show ?case using dn_consume_ok [OF Cons.prems(1) c(1)] Cons.IH [OF _ c(2)] by simp
qed simp

subsection \<open>Bounded output\<close>

definition bo_ok :: "boundedCommandOutput \<Rightarrow> bool" where
  "bo_ok w \<longleftrightarrow> int (length (bo_buffer w)) \<le> bo_maxBytes w"

lemma bo_Write_ok: "bo_ok w \<Longrightarrow> bo_ok (snd (bo_Write payload w)) \<and> bo_maxBytes (snd (bo_Write payload w)) = bo_maxBytes w"
  by (auto simp: bo_Write_def bo_ok_def Let_def)

lemma bo_writes_exceeded: "bo_exceeded w \<Longrightarrow> bo_writes chunks w = w"
  by (induction chunks) (simp_all add: bo_Write_def)

lemma bo_writes_eq:
  assumes "bo_ok w" "\<not> bo_exceeded w"
  shows "bo_ok (bo_writes chunks w) \<and>
    (bo_exceeded (bo_writes chunks w) \<longleftrightarrow> int (length (bo_buffer w @ concat chunks)) > bo_maxBytes w) \<and>
    (\<not> bo_exceeded (bo_writes chunks w) \<longrightarrow> bo_buffer (bo_writes chunks w) = bo_buffer w @ concat chunks)"
  using assms
proof (induction chunks arbitrary: w)
  case (Cons payload chunks)
  let ?w = "snd (bo_Write payload w)"
  have ok: "bo_ok ?w" "bo_maxBytes ?w = bo_maxBytes w" using bo_Write_ok [OF Cons.prems(1)] by simp_all
  show ?case
  proof (cases "bo_maxBytes w - int (length (bo_buffer w)) < int (length payload)")
    case True
    then have "bo_exceeded ?w" using Cons.prems(2) by (simp add: bo_Write_def Let_def)
    then show ?thesis using True ok bo_writes_exceeded [of ?w chunks] by simp
  next
    case False
    then have "?w = w\<lparr>bo_buffer := bo_buffer w @ payload\<rparr>" using Cons.prems(2) by (simp add: bo_Write_def Let_def)
    then show ?thesis using Cons.IH [OF ok(1)] Cons.prems(2) by simp
  qed
qed (simp add: bo_ok_def)

subsection \<open>Properties\<close>

text \<open>The interface totals of macOS never wrap, count every interface at most once, and count only interfaces that the
  allowlist or the default rules include.\<close>

theorem darwin_totals_sound:
  assumes "parseDarwinNetworkTotalsResult output allowlist = Inr t"
  shows "0 \<le> InBytes t \<and> InBytes t \<le> maxInt64 \<and> 0 \<le> OutBytes t \<and> OutBytes t \<le> maxInt64 \<and> distinct (SourceNames t) \<and>
    list_all (\<lambda>n. includeNetworkInterface n allowlist) (SourceNames t)"
proof -
  obtain ls tooLong where s: "ScanLines MaxScanTokenSize output = (ls, tooLong)" by fastforce
  obtain p where p: "dn_loop ls (newDarwinNetworkParser allowlist) = Inr p" "t = dn_totals p"
    using assms by (auto simp: parseDarwinNetworkTotalsResult_def s dn_result_def split: sum.splits if_splits)
  have "dn_ok (newDarwinNetworkParser allowlist)"
    by (simp add: dn_ok_def newDarwinNetworkParser_def totals_ok_def no_totals_def maxInt64_def)
  from dn_loop_ok [OF this p(1)] show ?thesis
    by (auto simp: dn_ok_def totals_ok_def p(2) newDarwinNetworkParser_def)
qed

text \<open>C31: A metrics command succeeds exactly when its limits make sense, its whole output fits the limit, it met its deadline
  and did not fail; the result is then its whole output. Output beyond the limit is never kept.\<close>

theorem command_output_bounded:
  "(darwinCommandOutputWithLimits timeout maxOutputBytes chunks deadline fails = Inr output \<longleftrightarrow>
     0 < timeout \<and> 0 \<le> maxOutputBytes \<and> int (length (concat chunks)) \<le> maxOutputBytes \<and> \<not> deadline \<and> \<not> fails \<and>
     output = concat chunks)"
proof (cases "0 \<le> maxOutputBytes")
  case True
  let ?w = "\<lparr>bo_buffer = [], bo_maxBytes = maxOutputBytes, bo_exceeded = False, bo_cancelled = False\<rparr>"
  have "bo_ok ?w" using True by (simp add: bo_ok_def)
  from bo_writes_eq [OF this, of chunks] show ?thesis
    using True by (auto simp: darwinCommandOutputWithLimits_def Let_def)
qed (simp add: darwinCommandOutputWithLimits_def)

end
