(* ===== verification/Disk_Usage.thy ===== *)
theory Disk_Usage
  imports Metrics_Parse
begin

text \<open>
  Disk usage on Linux (\<open>internal/agent/disk_usage_unix.go\<close>): the lines of \<open>/proc/self/mountinfo\<close>, the rules
  for counted mounts, and the sums over distinct devices. \<open>statfs\<close> and \<open>stat\<close> are parameters.
\<close>

definition defaultExcludedDiskFSTypes :: "string list" where
  "defaultExcludedDiskFSTypes =
     [''autofs'', ''binfmt_misc'', ''bpf'', ''cgroup'', ''cgroup2'', ''configfs'', ''debugfs'', ''devpts'', ''devtmpfs'', ''fusectl'',
      ''hugetlbfs'', ''mqueue'', ''nsfs'', ''overlay'', ''proc'', ''pstore'', ''ramfs'', ''rpc_pipefs'', ''securityfs'', ''squashfs'',
      ''sysfs'', ''tmpfs'', ''tracefs'']"

definition defaultExcludedDiskMountPrefixes :: "string list" where
  "defaultExcludedDiskMountPrefixes =
     [''/dev'', ''/proc'', ''/run'', ''/sys'', ''/var/lib/docker'', ''/var/lib/containerd'', ''/var/lib/kubelet'',
      ''/var/lib/containers/storage'', ''/snap'']"

record mountInfoEntry =
  mi_device :: string
  mi_mountPoint :: string
  mi_fsType :: string
  mi_source :: string

text \<open>\<open>strings.NewReplacer\<close>: the text is scanned from the left, the first matching pattern is replaced.\<close>

definition mount_escapes :: "(string \<times> char) list" where
  "mount_escapes =
     [([CHR 0x5C] @ ''040'', CHR 0x20), ([CHR 0x5C] @ ''011'', CHR 0x09), ([CHR 0x5C] @ ''012'', CHR 0x0A), ([CHR 0x5C] @ ''134'', CHR 0x5C)]"

fun escape_at :: "(string \<times> char) list \<Rightarrow> string \<Rightarrow> char option" where
  "escape_at [] s = None"
| "escape_at ((p, c) # es) s = (if has_prefix s p then Some c else escape_at es s)"

fun decodeMountInfoField :: "string \<Rightarrow> string" where
  "decodeMountInfoField [] = []"
| "decodeMountInfoField (c # s) =
     (case escape_at mount_escapes (c # s) of
        Some d \<Rightarrow> d # decodeMountInfoField (drop 3 s)
      | None \<Rightarrow> c # decodeMountInfoField s)"

definition parseMountInfoLine :: "string \<Rightarrow> mountInfoEntry option" where
  "parseMountInfoLine line =
     (case Cut line '' - '' of
        None \<Rightarrow> None
      | Some (left, right) \<Rightarrow>
          let leftFields = Fields left; rightFields = Fields right in
          if length leftFields < 5 \<or> length rightFields < 2 then None
          else Some \<lparr>mi_device = leftFields ! 2, mi_mountPoint = decodeMountInfoField (leftFields ! 4),
                     mi_fsType = ToLower (rightFields ! 0), mi_source = decodeMountInfoField (rightFields ! 1)\<rparr>)"

definition includeDiskMount :: "string \<Rightarrow> string \<Rightarrow> string \<Rightarrow> bool" where
  "includeDiskMount mountPoint fsType source =
     (let mp = TrimSpace mountPoint in
      if mp = [] then False
      else if ToLower fsType \<in> set defaultExcludedDiskFSTypes then False
      else let lowerMount = ToLower mp in
        if list_ex (\<lambda>p. lowerMount = p \<or> HasPrefix lowerMount (p @ ''/'')) defaultExcludedDiskMountPrefixes then False
        else let lowerSource = ToLower (TrimSpace source) in
          \<not> (lowerSource = [] \<or> lowerSource = ''none'' \<or> HasPrefix lowerSource ''overlay''))"

subsection \<open>Usage\<close>

text \<open>The fields of \<open>Statfs_t\<close> that are read: blocks, free blocks, block size.\<close>

record disk_env =
  de_Statfs :: "string \<Rightarrow> (64 word \<times> 64 word \<times> int) option"
  de_Device :: "string \<Rightarrow> 64 word option"

text \<open>\<open>int64\<close> of a \<open>uint64\<close> keeps the bits; products and differences wrap.\<close>

definition diskUsageForPath :: "disk_env \<Rightarrow> string \<Rightarrow> int \<times> int" where
  "diskUsageForPath env path =
     (case de_Statfs env path of
        None \<Rightarrow> (0, 0)
      | Some (blocks, bfree, bsize) \<Rightarrow>
          let tot = wrap64 (sint blocks * bsize); free = wrap64 (sint bfree * bsize)
          in (nonNegativeInt64 (wrap64 (tot - free)), tot))"

definition add_usage :: "int \<times> int \<Rightarrow> int \<times> int \<Rightarrow> int \<times> int" where
  "add_usage a b = (wrap64 (fst a + fst b), wrap64 (snd a + snd b))"

fun allowlist_usage :: "disk_env \<Rightarrow> 64 word list \<Rightarrow> string list \<Rightarrow> int \<times> int \<Rightarrow> int \<times> int" where
  "allowlist_usage env seen [] acc = acc"
| "allowlist_usage env seen (path # paths) acc =
     (case de_Device env path of
        Some key \<Rightarrow>
          if key \<in> set seen then allowlist_usage env seen paths acc
          else allowlist_usage env (key # seen) paths (add_usage acc (diskUsageForPath env path))
      | None \<Rightarrow> allowlist_usage env seen paths (add_usage acc (diskUsageForPath env path)))"

definition diskUsageForAllowlist :: "disk_env \<Rightarrow> string list \<Rightarrow> int \<times> int" where
  "diskUsageForAllowlist env paths = allowlist_usage env [] (normalizeAllowlist paths) (0, 0)"

text \<open>The mounts counted by \<open>diskUsageFromMountInfo\<close>: included, the first of its device, of positive size.\<close>

fun mount_usage :: "disk_env \<Rightarrow> string list \<Rightarrow> string list \<Rightarrow> int \<times> int \<Rightarrow> int \<times> int" where
  "mount_usage env seen [] acc = acc"
| "mount_usage env seen (line # ls) acc =
     (case parseMountInfoLine line of
        None \<Rightarrow> mount_usage env seen ls acc
      | Some mount \<Rightarrow>
          if \<not> includeDiskMount (mi_mountPoint mount) (mi_fsType mount) (mi_source mount) then mount_usage env seen ls acc
          else if mi_device mount \<in> set seen then mount_usage env seen ls acc
          else let usage = diskUsageForPath env (mi_mountPoint mount) in
            if snd usage \<le> 0 then mount_usage env (mi_device mount # seen) ls acc
            else mount_usage env (mi_device mount # seen) ls (add_usage acc usage))"

definition diskUsageFromMountInfo :: "disk_env \<Rightarrow> string option \<Rightarrow> int \<times> int" where
  "diskUsageFromMountInfo env file =
     (case file of
        None \<Rightarrow> diskUsageForPath env ''/''
      | Some content \<Rightarrow>
          let usage = mount_usage env [] (fst (ScanLines MaxScanTokenSize content)) (0, 0)
          in if snd usage = 0 then diskUsageForPath env ''/'' else usage)"

definition diskUsage :: "disk_env \<Rightarrow> string option \<Rightarrow> string list \<Rightarrow> int \<times> int" where
  "diskUsage env file allowlist =
     (if allowlist \<noteq> [] then diskUsageForAllowlist env allowlist else diskUsageFromMountInfo env file)"

subsection \<open>Decoding\<close>

text \<open>The encoder of the kernel, as the reference for the decoder.\<close>

fun encodeMountInfoField :: "string \<Rightarrow> string" where
  "encodeMountInfoField [] = []"
| "encodeMountInfoField (c # s) =
     (if c = CHR 0x20 then [CHR 0x5C] @ ''040'' else if c = CHR 0x09 then [CHR 0x5C] @ ''011''
      else if c = CHR 0x0A then [CHR 0x5C] @ ''012'' else if c = CHR 0x5C then [CHR 0x5C] @ ''134'' else [c])
     @ encodeMountInfoField s"

lemma decode_encode: "decodeMountInfoField (encodeMountInfoField s) = s"
  by (induction s) (auto simp: mount_escapes_def)

lemma encode_no_blank: "CHR 0x20 \<notin> set (encodeMountInfoField s)"
  by (induction s) auto

subsection \<open>Sums over distinct devices\<close>

text \<open>The first included mount of every device, in order.\<close>

fun first_mounts :: "string list \<Rightarrow> string list \<Rightarrow> mountInfoEntry list" where
  "first_mounts seen [] = []"
| "first_mounts seen (line # ls) =
     (case parseMountInfoLine line of
        None \<Rightarrow> first_mounts seen ls
      | Some mount \<Rightarrow>
          if includeDiskMount (mi_mountPoint mount) (mi_fsType mount) (mi_source mount) \<and> mi_device mount \<notin> set seen
          then mount # first_mounts (mi_device mount # seen) ls else first_mounts seen ls)"

lemma first_mounts_devices:
  "distinct (map mi_device (first_mounts seen ls)) \<and> set (map mi_device (first_mounts seen ls)) \<inter> set seen = {}"
proof (induction ls arbitrary: seen)
  case (Cons line ls)
  show ?case
  proof (cases "parseMountInfoLine line")
    case None
    then show ?thesis using Cons.IH [of seen] by simp
  next
    case (Some m)
    then show ?thesis using Cons.IH [of seen] Cons.IH [of "mi_device m # seen"] by auto
  qed
qed simp

definition counted_usages :: "disk_env \<Rightarrow> string list \<Rightarrow> string list \<Rightarrow> (int \<times> int) list" where
  "counted_usages env seen ls =
     filter (\<lambda>u. 0 < snd u) (map (\<lambda>m. diskUsageForPath env (mi_mountPoint m)) (first_mounts seen ls))"

lemma mount_usage_eq: "mount_usage env seen ls acc = foldl add_usage acc (counted_usages env seen ls)"
proof (induction ls arbitrary: seen acc)
  case (Cons line ls)
  show ?case
  proof (cases "parseMountInfoLine line")
    case None
    then show ?thesis using Cons by (simp add: counted_usages_def)
  next
    case (Some mount)
    then show ?thesis by (auto simp: Cons counted_usages_def Let_def)
  qed
qed (simp add: counted_usages_def)

text \<open>What is known of \<open>statfs\<close>: sizes that fit, and no more free blocks than blocks.\<close>

definition statfs_ok :: "disk_env \<Rightarrow> bool" where
  "statfs_ok env \<longleftrightarrow> (\<forall>path blocks bfree bsize. de_Statfs env path = Some (blocks, bfree, bsize) \<longrightarrow>
     0 \<le> bsize \<and> 0 \<le> sint bfree \<and> sint bfree \<le> sint blocks \<and> sint blocks * bsize \<le> maxInt64)"

lemma diskUsageForPath_range:
  assumes "statfs_ok env"
  shows "0 \<le> fst (diskUsageForPath env path) \<and> fst (diskUsageForPath env path) \<le> snd (diskUsageForPath env path) \<and>
    snd (diskUsageForPath env path) \<le> maxInt64"
proof (cases "de_Statfs env path")
  case None
  then show ?thesis by (simp add: diskUsageForPath_def maxInt64_def)
next
  case (Some t)
  obtain b f s where t: "t = (b, f, s)" by (cases t) auto
  have k: "0 \<le> s" "0 \<le> sint f" "sint f \<le> sint b" "sint b * s \<le> maxInt64" using assms Some t by (auto simp: statfs_ok_def)
  have m: "0 \<le> sint f * s" "sint f * s \<le> sint b * s" using k by (auto intro: mult_right_mono)
  have fits: "fits64 x" if "0 \<le> x" "x \<le> sint b * s" for x
    using that k(4) by (simp add: fits64_def minInt64_def)
  have "wrap64 (sint b * s) = sint b * s" "wrap64 (sint f * s) = sint f * s" "wrap64 (sint b * s - sint f * s) = sint b * s - sint f * s"
    using m by (auto intro!: wrap64_id fits)
  then show ?thesis using Some t m k(4) by (simp add: diskUsageForPath_def nonNegativeInt64_def Let_def)
qed

lemma add_usage_sum:
  assumes "\<forall>u\<in>set us. 0 \<le> fst u \<and> fst u \<le> snd u" "0 \<le> fst acc" "fst acc \<le> snd acc"
    "snd acc + sum_list (map snd us) \<le> maxInt64"
  shows "foldl add_usage acc us = (fst acc + sum_list (map fst us), snd acc + sum_list (map snd us)) \<and>
    sum_list (map fst us) \<le> sum_list (map snd us) \<and> 0 \<le> sum_list (map fst us)"
  using assms
proof (induction us arbitrary: acc)
  case (Cons u us)
  have u: "0 \<le> fst u" "fst u \<le> snd u" using Cons.prems(1) by auto
  have n: "0 \<le> sum_list (map snd us)" using Cons.prems(1) by (intro sum_list_nonneg) force
  have a: "add_usage acc u = (fst acc + fst u, snd acc + snd u)"
    using Cons.prems(2-4) u n by (auto simp: add_usage_def fits64_def minInt64_def maxInt64_def intro!: wrap64_id)
  show ?case using Cons.IH [of "add_usage acc u"] Cons.prems u by (simp add: a add.assoc)
qed simp

subsection \<open>Properties\<close>


definition example_disk :: disk_env where
  "example_disk = \<lparr>de_Statfs = (\<lambda>_. Some (100, 40, 4096)), de_Device = (\<lambda>_. None)\<rparr>"


end
