(* ===== verification/Spool_Refinement.thy ===== *)
theory Spool_Refinement
  imports Spool_Properties
begin

text \<open>
  The spool as an abstract queue. The abstract state maps the names of items to their envelopes; a call
  reads or changes one item, an expired item may vanish at any call that looks at the clock, and a call
  that fails changes nothing else. The locale \<open>simulation\<close> states what it takes to refine such a
  specification, and that runs then refine runs; the spool on its directories interprets it, for states in
  which no file-system call fails.
\<close>

subsection \<open>Simulation\<close>

fun run_all :: "('call \<Rightarrow> 'c \<Rightarrow> 'r \<times> 'c) \<Rightarrow> 'call list \<Rightarrow> 'c \<Rightarrow> 'r list \<times> 'c" where
  "run_all cstep [] s = ([], s)"
| "run_all cstep (call # calls) s = (let (r, s1) = cstep call s; (rs, s2) = run_all cstep calls s1 in (r # rs, s2))"

inductive allowed :: "('call \<Rightarrow> 'a \<Rightarrow> 'r \<Rightarrow> 'a \<Rightarrow> bool) \<Rightarrow> 'call list \<Rightarrow> 'a \<Rightarrow> 'r list \<Rightarrow> 'a \<Rightarrow> bool"
  for astep :: "'call \<Rightarrow> 'a \<Rightarrow> 'r \<Rightarrow> 'a \<Rightarrow> bool" where
  allowed_nil: "allowed astep [] q [] q"
| allowed_step: "astep call q r q1 \<Longrightarrow> allowed astep calls q1 rs q2 \<Longrightarrow> allowed astep (call # calls) q (r # rs) q2"

locale simulation =
  fixes cstep :: "'call \<Rightarrow> 'c \<Rightarrow> 'r \<times> 'c"
    and astep :: "'call \<Rightarrow> 'a \<Rightarrow> 'r \<Rightarrow> 'a \<Rightarrow> bool"
    and abs :: "'c \<Rightarrow> 'a"
    and inv :: "'c \<Rightarrow> bool"
    and fair :: "'call \<Rightarrow> bool"
  assumes refines: "inv s \<Longrightarrow> fair call \<Longrightarrow> cstep call s = (r, s') \<Longrightarrow> astep call (abs s) r (abs s') \<and> inv s'"
begin

lemma runs_refine:
  "inv s \<Longrightarrow> list_all fair calls \<Longrightarrow> run_all cstep calls s = (rs, s') \<Longrightarrow> allowed astep calls (abs s) rs (abs s') \<and> inv s'"
proof (induction calls arbitrary: s rs)
  case Nil
  then show ?case by (auto intro: allowed_nil)
next
  case (Cons call calls)
  obtain r s1 where r: "cstep call s = (r, s1)" by fastforce
  obtain rest where rest: "run_all cstep calls s1 = (rest, s')" "rs = r # rest" using Cons.prems(3) r by (auto split: prod.splits)
  have step: "astep call (abs s) r (abs s1)" "inv s1" using refines [OF Cons.prems(1) _ r] Cons.prems(2) by simp_all
  then show ?case using Cons.IH [OF step(2) _ rest(1)] Cons.prems(2) rest(2) by (auto intro: allowed_step)
qed

end

subsection \<open>The abstract queue\<close>

type_synonym queue = "string \<rightharpoonup> probeSpoolEnvelope"

datatype spool_reply = R_ID string | R_Item ProbeSpoolItem | R_Next "ProbeSpoolItem option" | R_Done

text \<open>
  A call that looks at the clock drops the expired items. If it fails on the way it may have dropped only
  some of them, and nothing else.
\<close>

definition decays :: "ProbeSpoolLimits \<Rightarrow> instant \<Rightarrow> queue \<Rightarrow> queue \<Rightarrow> bool" where
  "decays limits now q q' \<longleftrightarrow> q' \<subseteq>\<^sub>m q \<and> (\<forall>n e. q n = Some e \<and> \<not> expired limits now e \<longrightarrow> q' n = Some e)"

definition purged :: "ProbeSpoolLimits \<Rightarrow> instant \<Rightarrow> queue \<Rightarrow> queue" where
  "purged limits now q n = (case q n of None \<Rightarrow> None | Some e \<Rightarrow> if expired limits now e then None else Some e)"

text \<open>The answer of \<open>Next\<close>: the due item with the least name, or nothing if every item waits.\<close>

definition next_answer :: "instant \<Rightarrow> queue \<Rightarrow> ProbeSpoolItem option \<Rightarrow> bool" where
  "next_answer now q r \<longleftrightarrow>
     (case r of
        None \<Rightarrow> \<forall>n e. q n = Some e \<longrightarrow> now < NextAt e
      | Some item \<Rightarrow> \<exists>n e. q n = Some e \<and> NextAt e \<le> now \<and> item = probeSpoolItemFromEnvelope (TrimSuffix_json n) e \<and>
          (\<forall>m e'. q m = Some e' \<and> m < n \<longrightarrow> now < NextAt e'))"

fun queue_step ::
  "codec \<Rightarrow> ProbeSpoolLimits \<Rightarrow> spool_call \<Rightarrow> queue \<Rightarrow> spool_error + spool_reply \<Rightarrow> queue \<Rightarrow> bool" where
  "queue_step c limits (C_Enqueue env rounds) q r q' \<longleftrightarrow>
     (case r of
        Inl _ \<Rightarrow> decays limits (env_now env) q q'
      | Inr reply \<Rightarrow>
          \<exists>body. marshalProbeResults c rounds = Inr body \<and> reply = R_ID (new_id env) \<and>
            q' = (purged limits (env_now env) q)(new_id env @ ''.json'' \<mapsto> new_envelope c (env_now env) body))"
| "queue_step c limits (C_Next now) q r q' \<longleftrightarrow>
     (case r of
        Inl _ \<Rightarrow> decays limits now q q'
      | Inr reply \<Rightarrow> q' = purged limits now q \<and> (\<exists>item. reply = R_Next item \<and> next_answer now q' item))"
| "queue_step c limits (C_Load ident) q r q' \<longleftrightarrow>
     q' = q \<and> (case r of Inl _ \<Rightarrow> True | Inr reply \<Rightarrow> \<exists>e. q (ident @ ''.json'') = Some e \<and> reply = R_Item (probeSpoolItemFromEnvelope ident e))"
| "queue_step c limits (C_ScheduleRetry env ident attempt nextAt) q r q' \<longleftrightarrow>
     (case r of
        Inl _ \<Rightarrow> q' = q
      | Inr reply \<Rightarrow> reply = R_Done \<and>
          (\<exists>e. q (ident @ ''.json'') = Some e \<and> q' = q(ident @ ''.json'' \<mapsto> e\<lparr>Attempt := attempt, NextAt := UnixNano nextAt\<rparr>)))"
| "queue_step c limits (C_Ack ident) q r q' \<longleftrightarrow>
     (case r of Inl _ \<Rightarrow> q' = q | Inr reply \<Rightarrow> reply = R_Done \<and> q' = q(ident @ ''.json'' := None))"
| "queue_step c limits (C_Quarantine ident reason) q r q' \<longleftrightarrow>
     (case r of Inl _ \<Rightarrow> q' = q | Inr reply \<Rightarrow> reply = R_Done \<and> q' = q(ident @ ''.json'' := None))"

subsection \<open>The concrete calls and the abstraction\<close>

definition with_reply :: "('a \<Rightarrow> spool_reply) \<Rightarrow> (spool_error + 'a) \<times> spool_fs \<Rightarrow> (spool_error + spool_reply) \<times> spool_fs" where
  "with_reply f rs = (map_sum id f (fst rs), snd rs)"

fun spool_step :: "codec \<Rightarrow> ProbeSpoolLimits \<Rightarrow> spool_call \<Rightarrow> spool_fs \<Rightarrow> (spool_error + spool_reply) \<times> spool_fs" where
  "spool_step c limits (C_Enqueue env rounds) s = with_reply R_ID (Enqueue c limits env rounds s)"
| "spool_step c limits (C_Next now) s = with_reply R_Next (Next c limits now s)"
| "spool_step c limits (C_Load ident) s = with_reply R_Item (Load c limits ident s)"
| "spool_step c limits (C_ScheduleRetry env ident attempt nextAt) s =
     with_reply (\<lambda>_. R_Done) (ScheduleRetry c limits env ident attempt nextAt s)"
| "spool_step c limits (C_Ack ident) s = with_reply (\<lambda>_. R_Done) (Ack ident s)"
| "spool_step c limits (C_Quarantine ident reason) s = with_reply (\<lambda>_. R_Done) (Quarantine limits ident reason s)"

text \<open>The items of a directory: the regular files with the suffix whose content is valid.\<close>

definition dir_items :: "codec \<Rightarrow> ProbeSpoolLimits \<Rightarrow> dir \<Rightarrow> queue" where
  "dir_items c limits d n =
     (if HasSuffix n ''.json'' then
        (case dir_get d n of
           Some (Regular y) \<Rightarrow> (case check_content c limits y of Inr e \<Rightarrow> Some e | Inl _ \<Rightarrow> None)
         | _ \<Rightarrow> None)
      else None)"

definition items :: "codec \<Rightarrow> ProbeSpoolLimits \<Rightarrow> spool_fs \<Rightarrow> queue" where
  "items c limits s = dir_items c limits (pending s)"

text \<open>No fault is to come, the directories are in order, and the valid items are envelopes the spool wrote.\<close>

definition quiet :: "codec \<Rightarrow> ProbeSpoolLimits \<Rightarrow> spool_fs \<Rightarrow> bool" where
  "quiet c limits s \<longleftrightarrow> faults s = [] \<and> quarantine_bounded limits s \<and> (\<forall>n e. items c limits s n = Some e \<longrightarrow> canonical c e)"

text \<open>Clock readings after the epoch.\<close>

fun after_epoch :: "spool_call \<Rightarrow> bool" where
  "after_epoch (C_Enqueue env rounds) \<longleftrightarrow> 0 < UnixNano (env_now env)"
| "after_epoch (C_ScheduleRetry env ident attempt nextAt) \<longleftrightarrow> 0 < UnixNano nextAt"
| "after_epoch _ \<longleftrightarrow> True"

subsection \<open>Directories and items\<close>

lemma items_Some:
  "items c limits s n = Some e \<longleftrightarrow>
   HasSuffix n ''.json'' \<and> (\<exists>y. dir_get (pending s) n = Some (Regular y) \<and> check_content c limits y = Inr e)"
  by (auto simp: items_def dir_items_def split: option.splits node.splits sum.splits)

lemma items_put:
  "dir_ok (pending s) \<Longrightarrow> HasSuffix n ''.json'' \<Longrightarrow> check_content c limits y = Inr e \<Longrightarrow>
   items c limits (s\<lparr>pending := dir_put n (Regular y) (pending s)\<rparr>) = (items c limits s)(n \<mapsto> e)"
  by (auto simp: items_def dir_items_def fun_eq_iff)

lemma items_del: "dir_items c limits (dir_del n d) = (dir_items c limits d)(n := None)"
  by (auto simp: dir_items_def fun_eq_iff)

lemma items_cong: "pending s = pending t \<Longrightarrow> items c limits s = items c limits t"
  by (simp add: items_def)

text \<open>The pending directory only loses entries.\<close>

definition shrunk_to :: "ProbeSpoolLimits \<Rightarrow> dir \<Rightarrow> spool_fs \<Rightarrow> bool" where
  "shrunk_to limits d s \<longleftrightarrow> quarantine_bounded limits s \<and> (\<forall>n. dir_get (pending s) n = dir_get d n \<or> dir_get (pending s) n = None)"

lemma shrunk_to_less:
  "shrunk_to limits d s \<Longrightarrow> quarantine_bounded limits t \<Longrightarrow>
   (\<And>n. dir_get (pending t) n = dir_get (pending s) n \<or> dir_get (pending t) n = None) \<Longrightarrow> shrunk_to limits d t"
  unfolding shrunk_to_def by metis

interpretation wi: spool_invariant limits "shrunk_to limits d" for limits d
proof unfold_locales
  show "preserves (shrunk_to limits d) (quarantinePathLocked limits n reason)" for n reason
  proof (rule preservesI)
    fix s assume s: "shrunk_to limits d s"
    then have "quarantine_step limits (pending s) n (snd (quarantinePathLocked limits n reason s))"
      by (simp add: shrunk_to_def quarantinePath_step)
    then show "shrunk_to limits d (snd (quarantinePathLocked limits n reason s))"
      by (intro shrunk_to_less [OF s]) (auto simp: quarantine_step_def split: if_splits)
  qed
qed (auto simp: shrunk_to_def qb.I_faults qb.I_notify qb.I_del)

lemma map_leD: "q' \<subseteq>\<^sub>m q \<Longrightarrow> q' n = Some e \<Longrightarrow> q n = Some e"
  by (metis domI map_le_def)

lemma shrunk_to_refl: "quarantine_bounded limits s \<Longrightarrow> shrunk_to limits (pending s) s"
  by (simp add: shrunk_to_def)

lemma shrunk_to_items: "shrunk_to limits (pending s) s' \<Longrightarrow> items c limits s' \<subseteq>\<^sub>m items c limits s"
  unfolding map_le_def
proof
  fix n assume w: "shrunk_to limits (pending s) s'" and e: "n \<in> dom (items c limits s')"
  then have "dir_get (pending s') n = dir_get (pending s) n" by (auto simp: shrunk_to_def items_Some dom_def)
  then show "items c limits s' n = items c limits s n" by (simp add: items_def dir_items_def)
qed

subsection \<open>Calls that look at the clock\<close>

lemma calm_cleanup: "preserves (\<lambda>s. faults s = []) (cleanupPendingLocked c limits now)"
  unfolding cleanupPendingLocked_def by (intro preserves_bind calm.K_ReadDir preserves_forS calm.K_entry) simp

lemma calm_next_loop: "preserves (\<lambda>s. faults s = []) (next_loop c limits now es)"
  by (induction es)
    (auto intro!: preserves_return preserves_catch calm.K_readEnvelope preserves_bind calm.K_quarantine calm.K_remove)

lemma calm_Next: "preserves (\<lambda>s. faults s = []) (Next c limits now)"
  unfolding Next_def by (intro preserves_bind calm_cleanup calm.K_ReadDir calm_next_loop)

lemma decay_step:
  assumes q: "quiet c limits s"
    and calm: "preserves (\<lambda>s. faults s = []) m" and less: "preserves (shrunk_to limits (pending s)) m"
    and live: "\<And>n y. live_item c limits now n y \<Longrightarrow> preserves (kept n y) m"
  shows "quiet c limits (snd (m s)) \<and> decays limits now (items c limits s) (items c limits (snd (m s)))"
proof -
  have s: "faults s = []" "quarantine_bounded limits s" using q by (simp_all add: quiet_def)
  have f: "faults (snd (m s)) = []" by (rule preserves_result [OF calm s(1)])
  have w: "shrunk_to limits (pending s) (snd (m s))" by (rule preserves_result [OF less shrunk_to_refl [OF s(2)]])
  have sub: "items c limits (snd (m s)) \<subseteq>\<^sub>m items c limits s" by (rule shrunk_to_items [OF w])
  have "items c limits (snd (m s)) n = Some e" if e: "items c limits s n = Some e" "\<not> expired limits now e" for n e
  proof -
    obtain y where y: "HasSuffix n ''.json''" "dir_get (pending s) n = Some (Regular y)" "check_content c limits y = Inr e"
      using e(1) by (auto simp: items_Some)
    have "live_item c limits now n y" using y e(2) by (simp add: live_item_def)
    moreover have "kept n y s" using s y(2) qb_wf by (simp add: kept_def holds_def)
    ultimately have "kept n y (snd (m s))" using live preserves_result by blast
    then show ?thesis using y by (auto simp: items_Some kept_def holds_def)
  qed
  moreover have "canonical c e" if "items c limits (snd (m s)) n = Some e" for n e
    using that sub q by (auto simp: quiet_def dest: map_leD)
  ultimately show ?thesis using f w sub by (auto simp: quiet_def decays_def shrunk_to_def)
qed

lemma decay_cleanup:
  "quiet c limits s \<Longrightarrow> cleanupPendingLocked c limits now s = (r, t) \<Longrightarrow>
   quiet c limits t \<and> decays limits now (items c limits s) (items c limits t)"
  using decay_step [OF _ calm_cleanup wi.I_cleanup kept_cleanup, of c limits s now c now] by simp

lemma decay_Next:
  "quiet c limits s \<Longrightarrow> Next c limits now s = (r, t) \<Longrightarrow>
   quiet c limits t \<and> decays limits now (items c limits s) (items c limits t)"
  using decay_step [OF _ calm_Next wi.I_Next kept_Next, of c limits s now c now] by simp

text \<open>No expired item is left.\<close>

definition fresh_only :: "ProbeSpoolLimits \<Rightarrow> instant \<Rightarrow> queue \<Rightarrow> bool" where
  "fresh_only limits now q \<longleftrightarrow> (\<forall>n e. q n = Some e \<longrightarrow> \<not> expired limits now e)"

lemma decays_purged: "decays limits now q q' \<Longrightarrow> fresh_only limits now q' \<Longrightarrow> q' = purged limits now q"
proof (rule ext)
  fix n assume d: "decays limits now q q'" "fresh_only limits now q'"
  show "q' n = purged limits now q n"
  proof (cases "q' n")
    case None
    then show ?thesis using d by (auto simp: purged_def decays_def split: option.splits)
  next
    case (Some e)
    then have "q n = Some e" using d(1) by (auto simp: decays_def dest: map_leD)
    then show ?thesis using d(2) Some by (auto simp: purged_def fresh_only_def)
  qed
qed

lemma entry_fresh:
  "triple (\<lambda>_. True) (cleanup_entry c limits now p)
     (\<lambda>_ s. \<forall>e. items c limits s (fst p) = Some e \<longrightarrow> \<not> expired limits now e) (\<lambda>_ _. True)"
  (is "triple _ _ (\<lambda>_. ?Q) _")
proof -
  have gone: "gone (fst p) s \<Longrightarrow> ?Q s" for s by (simp add: gone_def items_Some)
  have quar: "triple P (quarantinePathLocked limits (fst p) reason) (\<lambda>_. ?Q) (\<lambda>_ _. True)" for P reason
    by (rule triple_conseq [OF gone_quarantine [of P]]) (use gone in auto)
  have rem: "triple P (removeFileAndSync (fst p)) (\<lambda>_. ?Q) (\<lambda>_ _. True)" for P
    by (rule triple_conseq [OF gone_remove [of P]]) (use gone in auto)
  have read: "triple (\<lambda>_. True) (readEnvelopeLocked c limits (fst p)) (\<lambda>r s. True \<and> reads_as c limits (fst p) r s) (\<lambda>_ _. True)"
    by (rule readEnvelope_triple) (simp add: visible_def)
  have keep: "triple (\<lambda>s. True \<and> reads_as c limits (fst p) r s)
      (case r of (envelope, _) \<Rightarrow> if expired limits now envelope then removeFileAndSync (fst p) else returnS ())
      (\<lambda>_. ?Q) (\<lambda>_ _. True)" for r
  proof (cases r)
    case (Pair envelope k)
    have "triple (\<lambda>s. True \<and> reads_as c limits (fst p) r s) (returnS ()) (\<lambda>_. ?Q) (\<lambda>_ _. True)" if "\<not> expired limits now envelope"
      by (rule triple_return) (use that Pair in \<open>auto simp: items_Some reads_as_def\<close>)
    then show ?thesis using rem Pair by simp
  qed
  show ?thesis unfolding cleanup_entry_def by (intro triple_if quar triple_catch [OF read quar keep])
qed

lemma cleanup_loop_fresh:
  "quarantine_bounded limits s \<Longrightarrow> forS (cleanup_entry c limits now) es s = (Inr (), t) \<Longrightarrow>
   shrunk_to limits (pending s) t \<and> (\<forall>p\<in>set es. \<forall>e. items c limits t (fst p) = Some e \<longrightarrow> \<not> expired limits now e)"
proof (induction es arbitrary: s)
  case Nil
  then show ?case by (auto simp: returnS_def shrunk_to_refl)
next
  case (Cons p es)
  obtain s1 where s1: "cleanup_entry c limits now p s = (Inr (), s1)" "forS (cleanup_entry c limits now) es s1 = (Inr (), t)"
    using Cons.prems(2) by (auto simp: bindS_def split: prod.splits sum.splits)
  have w: "shrunk_to limits (pending s) s1"
    using preserves_result [OF wi.I_cleanup_entry shrunk_to_refl [OF Cons.prems(1)], of c now p] s1(1) by simp
  have IH: "shrunk_to limits (pending s1) t" "\<forall>q\<in>set es. \<forall>e. items c limits t (fst q) = Some e \<longrightarrow> \<not> expired limits now e"
    using Cons.IH [OF _ s1(2)] w by (auto simp: shrunk_to_def)
  have "\<not> expired limits now e" if "items c limits t (fst p) = Some e" for e
    using triple_value [OF entry_fresh _ s1(1)] map_leD [OF shrunk_to_items [OF IH(1)] that] by simp
  moreover have "shrunk_to limits (pending s) t"
    using IH(1) by (intro shrunk_to_less [OF w]) (auto simp: shrunk_to_def)
  ultimately show ?case using IH(2) by simp
qed

lemma cleanup_fresh:
  assumes q: "quiet c limits s" and r: "cleanupPendingLocked c limits now s = (Inr (), t)"
  shows "fresh_only limits now (items c limits t)"
proof -
  have qb: "quarantine_bounded limits s" "faults s = []" using q by (simp_all add: quiet_def)
  have loop: "forS (cleanup_entry c limits now) (pending s) s = (Inr (), t)"
    using r qb(2) by (simp add: cleanupPendingLocked_def ReadDir_pending_def bindS_def syscall_def getS_def)
  note fresh = cleanup_loop_fresh [OF qb(1) loop]
  have "\<not> expired limits now e" if e: "items c limits t n = Some e" for n e
  proof -
    have "items c limits s n = Some e" using map_leD [OF shrunk_to_items e] fresh by blast
    then obtain x where "dir_get (pending s) n = Some x" by (auto simp: items_Some)
    then have "(n, x) \<in> set (pending s)" using sd.entries_get [OF qb_wf [OF qb(1)]] by blast
    then show ?thesis using fresh e by force
  qed
  then show ?thesis by (auto simp: fresh_only_def)
qed

lemma fresh_only_le: "q' \<subseteq>\<^sub>m q \<Longrightarrow> fresh_only limits now q \<Longrightarrow> fresh_only limits now q'"
  by (auto simp: fresh_only_def dest: map_leD)

lemma items_entry:
  assumes "quarantine_bounded limits s" "items c limits s n = Some e"
  obtains y where "(n, Regular y) \<in> set (pending s)" "is_item (n, Regular y)" "check_content c limits y = Inr e"
    "dir_get (pending s) n = Some (Regular y)"
  using assms sd.entries_get [OF qb_wf [OF assms(1)]] by (auto simp: items_Some is_item_def)

lemma next_result_answer:
  assumes qb: "quarantine_bounded limits s" and r: "next_result c limits now r s"
  shows "next_answer now (items c limits s) r"
proof -
  have late: "now < NextAt e"
    if e: "items c limits s n = Some e"
      and w: "\<And>y. (n, Regular y) \<in> set (pending s) \<Longrightarrow> is_item (n, Regular y) \<Longrightarrow> waiting c limits now (pending s) n" for n e
    by (rule items_entry [OF qb e]) (use w in \<open>auto simp: waiting_def\<close>)
  show ?thesis
  proof (cases r)
    case None
    then show ?thesis using late r by (fastforce simp: next_result_def next_answer_def)
  next
    case (Some item)
    then obtain n e where n: "item_at c limits (pending s) n e" "HasSuffix n ''.json''" "NextAt e \<le> now"
        "item = probeSpoolItemFromEnvelope (TrimSuffix_json n) e"
        "\<forall>p\<in>set (pending s). is_item p \<and> fst p < n \<longrightarrow> waiting c limits now (pending s) (fst p)"
      using r by (auto simp: next_result_def)
    then have "items c limits s n = Some e" by (auto simp: items_Some item_at_def)
    moreover have "now < NextAt e'" if "items c limits s m = Some e'" "m < n" for m e'
      using late [OF that(1)] n(5) that(2) by fastforce
    ultimately show ?thesis using n(3,4) Some unfolding next_answer_def by auto
  qed
qed

lemma Next_refines:
  assumes q: "quiet c limits s" and r: "Next c limits now s = (Inr r, t)"
  shows "items c limits t = purged limits now (items c limits s) \<and> next_answer now (items c limits t) r"
proof -
  obtain s1 where s1: "cleanupPendingLocked c limits now s = (Inr (), s1)"
      "bindS ReadDir_pending (next_loop c limits now) s1 = (Inr r, t)"
    using r by (auto simp: Next_def bindS_def [of "cleanupPendingLocked c limits now"] split: prod.splits sum.splits)
  have q1: "quarantine_bounded limits s1" "quarantine_bounded limits t"
    using decay_cleanup [OF q s1(1)] decay_Next [OF q r] by (simp_all add: quiet_def)
  have "preserves (shrunk_to limits (pending s1)) (bindS ReadDir_pending (next_loop c limits now))"
    by (intro preserves_bind wi.I_ReadDir wi.I_next_loop)
  from preserves_result [OF this shrunk_to_refl [OF q1(1)]] have "shrunk_to limits (pending s1) t"
    by (simp add: s1(2))
  then have "fresh_only limits now (items c limits t)"
    using fresh_only_le [OF shrunk_to_items cleanup_fresh [OF q s1(1)]] by blast
  moreover have "next_answer now (items c limits t) r"
    using next_result_answer [OF q1(2)] triple_value [OF Next_triple _ r] q by (simp add: quiet_def)
  ultimately show ?thesis using decays_purged [of limits now "items c limits s"] decay_Next [OF q r] by simp
qed

subsection \<open>Calls on one item\<close>

lemma read_quiet:
  assumes "faults s = []" "readEnvelopeLocked c limits n s = (r, t)"
  shows "t = s \<and> (\<forall>e k. r = Inr (e, k) \<longrightarrow> item_at c limits (pending s) n e)"
proof (cases "dir_get (pending s) n")
  case None
  then show ?thesis using assms by (auto simp: readEnvelopeLocked_def Lstat_def bindS_def syscall_def getS_def failS_def)
next
  case (Some x)
  then show ?thesis
    using assms Lstat_clean [OF Some assms(1)]
    by (cases x) (auto simp: readEnvelopeLocked_def bindS_def syscall_def failS_def returnS_def item_at_def
        split: if_splits sum.splits)
qed

lemma item_at_items: "HasSuffix n ''.json'' \<Longrightarrow> item_at c limits (pending s) n e \<longleftrightarrow> items c limits s n = Some e"
  by (simp add: items_Some item_at_def)

lemma json_suffix [simp]: "HasSuffix (n @ ''.json'') ''.json''"
  by (simp add: HasSuffix_def)

lemma write_quiet:
  assumes "faults s = []" "dir_ok (pending s)" "HasSuffix n ''.json''"
  shows "atomicWritePrivateFile random n content s = (Inr (), s\<lparr>pending := dir_put n (Regular content) (pending s)\<rparr>) \<or>
    (\<exists>e. atomicWritePrivateFile random n content s = (Inl e, s))"
proof -
  consider "dir_get (pending s) (temp_name random) \<noteq> None"
    | b where "dir_get (pending s) (temp_name random) = None" "dir_get (pending s) n = Some (Directory b)"
    | "dir_get (pending s) (temp_name random) = None" "\<And>b. dir_get (pending s) n \<noteq> Some (Directory b)"
    by blast
  then show ?thesis
  proof cases
    case 1
    then show ?thesis using assms(1) by (simp add: atomicWritePrivateFile_def Let_def bindS_def syscall_def getS_def failS_def)
  next
    case 2
    let ?t = "temp_name random"
    have t: "?t \<noteq> n" using temp_not_json [OF assms(3)] .
    show ?thesis using assms 2 t
      by (simp add: atomicWritePrivateFile_def Let_def bindS_def catchS_def syscall_def getS_def failS_def put_pending_def
          modifyS_def write_temp_def rename_temp_def cleanup_and_fail_def discard_temp_def del_pending_def returnS_def)
  next
    case 3
    then show ?thesis using write_clean [OF assms(1,2) 3(1) temp_not_json [OF assms(3)] 3(2)] by blast
  qed
qed

lemma quiet_dir_ok: "quiet c limits s \<Longrightarrow> dir_ok (pending s)"
  using qb_wf by (auto simp: quiet_def)

text \<open>A state after a write: the new item in the queue, everything else in order.\<close>

lemma quiet_put:
  assumes q: "quiet c limits s" and n: "HasSuffix n ''.json''" and e: "canonical c e" "check_content c limits (enc c e) = Inr e"
  shows "quiet c limits (s\<lparr>pending := dir_put n (Regular (enc c e)) (pending s), notify := b\<rparr>) \<and>
    items c limits (s\<lparr>pending := dir_put n (Regular (enc c e)) (pending s), notify := b\<rparr>) = (items c limits s)(n \<mapsto> e)"
proof -
  let ?t = "s\<lparr>pending := dir_put n (Regular (enc c e)) (pending s), notify := b\<rparr>"
  have ok: "dir_ok (pending s)" using quiet_dir_ok [OF q] .
  have it: "items c limits ?t = (items c limits s)(n \<mapsto> e)"
    using items_put [OF ok n e(2)] items_cong [of ?t "s\<lparr>pending := dir_put n (Regular (enc c e)) (pending s)\<rparr>"] by simp
  have "quarantine_bounded limits ?t" using q by (simp add: quiet_def quarantine_bounded_def wf_spool_def)
  then show ?thesis using q it e(1) by (simp add: quiet_def)
qed

lemma usage_quiet: "faults s = [] \<Longrightarrow> \<exists>u. pendingUsageLocked s = (Inr u, s)"
proof -
  assume f: "faults s = []"
  have "\<exists>u. usage_loop es count used s = (Inr u, s)" for es count used
    using f by (induction es arbitrary: count used) (auto simp: returnS_def bindS_def syscall_def)
  then show ?thesis using f by (simp add: pendingUsageLocked_def ReadDir_pending_def bindS_def syscall_def getS_def)
qed

definition enqueue_tail :: "ProbeSpoolLimits \<Rightarrow> spool_env \<Rightarrow> string \<Rightarrow> string spool_op" where
  "enqueue_tail limits env encoded =
     bindS pendingUsageLocked (\<lambda>(count, totalBytes).
       if count \<ge> MaxPendingItems limits \<or> totalBytes + int (length encoded) > MaxPendingBytes limits
       then failS (CapacityExceeded count totalBytes)
       else bindS syscall (\<lambda>_.
         if env_free env < MinFreeBytes limits + of_nat (length encoded) then failS NoFreeSpace
         else bindS (newIDLocked env) (\<lambda>ident.
           bindS (atomicWritePrivateFile (env_tmp env) (ident @ ''.json'') encoded) (\<lambda>_.
           bindS signal (\<lambda>_. returnS ident)))))"

lemma enqueue_tail_quiet:
  assumes f: "faults s = []" "dir_ok (pending s)" and r: "enqueue_tail limits env encoded s = (r, t)"
  shows "(\<exists>e. r = Inl e \<and> t = s) \<or>
    (r = Inr (new_id env) \<and> t = s\<lparr>pending := dir_put (new_id env @ ''.json'') (Regular encoded) (pending s), notify := True\<rparr>)"
proof -
  obtain count used where u: "pendingUsageLocked s = (Inr (count, used), s)" using usage_quiet [OF f(1)] by auto
  have i: "newIDLocked env s = (Inr (new_id env), s)" "syscall s = (Inr (), s)"
    using f(1) by (simp_all add: newIDLocked_def bindS_def syscall_def returnS_def new_id_def)
  show ?thesis
    using write_quiet [OF f json_suffix, of "env_tmp env" "new_id env" encoded] r
    by (auto simp: enqueue_tail_def bindS_def u i failS_def signal_def modifyS_def returnS_def split: if_splits)
qed

lemma Enqueue_refines:
  assumes c: "codec_ok c" and q: "quiet c limits s" and pos: "0 < UnixNano (env_now env)"
    and r: "Enqueue c limits env rounds s = (r, t)"
  shows "queue_step c limits (C_Enqueue env rounds) (items c limits s) (map_sum id R_ID r) (items c limits t) \<and> quiet c limits t"
proof (cases "marshalProbeResults c rounds")
  case (Inl e)
  then have "r = Inl e" "t = s" using r by (simp_all add: Enqueue_def failS_def)
  then show ?thesis using q by (simp add: decays_def)
next
  case (Inr body)
  let ?e = "new_envelope c (env_now env) body" and ?n = "new_id env @ ''.json''"
  obtain r1 s1 where s1: "cleanupPendingLocked c limits (env_now env) s = (r1, s1)" by fastforce
  note d = decay_cleanup [OF q s1]
  have "batch_rounds c body \<noteq> Some 0"
    by (rule marshal_request_of [OF Inr]) (use c in \<open>simp add: codec_ok_def\<close>)
  then have e: "canonical c ?e" "batch_rounds c (Batch ?e) \<noteq> Some 0" "0 < Created ?e" "0 < NextAt ?e"
    using new_envelope_canonical [OF Inr, of "env_now env"] pos by (simp_all add: new_envelope_def)
  show ?thesis
  proof (cases r1)
    case (Inl err)
    then have "r = Inl err" "t = s1" using r s1 Inr by (simp_all add: Enqueue_def bindS_def)
    then show ?thesis using d by simp
  next
    case (Inr u)
    have fresh: "items c limits s1 = purged limits (env_now env) (items c limits s)"
      using decays_purged cleanup_fresh [OF q] s1 Inr d by simp
    have f: "faults s1 = []" "dir_ok (pending s1)" using d quiet_dir_ok by (auto simp: quiet_def)
    show ?thesis
    proof (cases "int (length (enc c ?e)) > MaxItemBytes limits")
      case True
      then show ?thesis using r d s1 Inr \<open>marshalProbeResults c rounds = Inr body\<close>
        by (auto simp: Enqueue_def bindS_def failS_def Let_def)
    next
      case False
      then have tail: "enqueue_tail limits env (enc c ?e) s1 = (r, t)"
        using r s1 Inr \<open>marshalProbeResults c rounds = Inr body\<close>
        by (simp add: Enqueue_def bindS_def [of "cleanupPendingLocked c limits (env_now env)"] Let_def enqueue_tail_def)
      have "check_content c limits (enc c ?e) = Inr ?e" using check_canonical [OF c e(1,3,4,2)] False by simp
      from quiet_put [OF conjunct1 [OF d] json_suffix e(1) this] show ?thesis
        using enqueue_tail_quiet [OF f tail] d fresh \<open>marshalProbeResults c rounds = Inr body\<close> by auto
    qed
  qed
qed

lemma path_cases:
  assumes "bindS (liftS (pendingPathLocked ident)) k s = (r, t)"
  obtains e where "r = Inl e" "t = s" | "k (ident @ ''.json'') s = (r, t)"
proof (cases "pendingPathLocked ident")
  case (Inl e)
  then show ?thesis using assms that(1) [of e] by (auto simp: liftS_def bindS_def failS_def)
next
  case (Inr name)
  then show ?thesis using assms that(2) pendingPath_name [OF Inr] by (simp add: liftS_def bindS_def returnS_def)
qed

lemma Load_refines:
  assumes q: "quiet c limits s" and r: "Load c limits ident s = (r, t)"
  shows "queue_step c limits (C_Load ident) (items c limits s) (map_sum id R_Item r) (items c limits t) \<and> quiet c limits t"
  using r unfolding Load_def
proof (cases rule: path_cases)
  case (1 e)
  then show ?thesis using q by simp
next
  case 2
  obtain r1 s1 where s1: "readEnvelopeLocked c limits (ident @ ''.json'') s = (r1, s1)" by fastforce
  show ?thesis
    using read_quiet [OF _ s1] q 2 item_at_items [OF json_suffix [of ident], of c limits s]
    by (cases r1) (auto simp: quiet_def bindS_def s1 returnS_def)
qed

lemma item_content:
  assumes "items c limits s n = Some e"
  shows "0 < Created e" "batch_rounds c (Batch e) \<noteq> Some 0"
  using assms by (auto simp: items_Some check_content_def split: if_splits option.splits)

lemma retry_envelope:
  assumes c: "codec_ok c" and q: "quiet c limits s" and e: "items c limits s n = Some e" and pos: "0 < UnixNano nextAt"
    and fit: "int (length (enc c (e\<lparr>Attempt := attempt, NextAt := UnixNano nextAt\<rparr>))) \<le> MaxItemBytes limits"
  shows "canonical c (e\<lparr>Attempt := attempt, NextAt := UnixNano nextAt\<rparr>)"
    "check_content c limits (enc c (e\<lparr>Attempt := attempt, NextAt := UnixNano nextAt\<rparr>)) =
      Inr (e\<lparr>Attempt := attempt, NextAt := UnixNano nextAt\<rparr>)"
proof -
  show can: "canonical c (e\<lparr>Attempt := attempt, NextAt := UnixNano nextAt\<rparr>)"
    using q e by (auto simp: quiet_def canonical_def UnixNano_def)
  show "check_content c limits (enc c (e\<lparr>Attempt := attempt, NextAt := UnixNano nextAt\<rparr>)) =
      Inr (e\<lparr>Attempt := attempt, NextAt := UnixNano nextAt\<rparr>)"
    using check_canonical [OF c can _ _ _ fit] item_content [OF e] pos by simp
qed

lemma Retry_refines:
  assumes c: "codec_ok c" and q: "quiet c limits s" and pos: "0 < UnixNano nextAt"
    and r: "ScheduleRetry c limits env ident attempt nextAt s = (r, t)"
  shows "queue_step c limits (C_ScheduleRetry env ident attempt nextAt) (items c limits s) (map_sum id (\<lambda>_. R_Done) r)
      (items c limits t) \<and> quiet c limits t"
  using r unfolding ScheduleRetry_def
proof (cases rule: path_cases)
  case (1 e)
  then show ?thesis using q by simp
next
  case 2
  let ?n = "ident @ ''.json''" and ?e = "\<lambda>e. e\<lparr>Attempt := attempt, NextAt := UnixNano nextAt\<rparr>"
  obtain r1 s1 where s1: "readEnvelopeLocked c limits ?n s = (r1, s1)" by fastforce
  have f: "faults s = []" "s1 = s" using q read_quiet [OF _ s1] by (auto simp: quiet_def)
  have same: ?thesis if "r = Inl err" "t = s" for err using that q by simp
  show ?thesis
  proof (cases "\<exists>e k. r1 = Inr (e, k) \<and> nextAt \<noteq> zero_time \<and> int (length (enc c (?e e))) \<le> MaxItemBytes limits")
    case False
    then have "\<exists>err. r = Inl err \<and> t = s"
      using 2 f by (cases r1) (auto simp: bindS_def s1 failS_def Let_def split: if_splits)
    then show ?thesis using same by blast
  next
    case True
    then obtain e k where e: "r1 = Inr (e, k)" "nextAt \<noteq> zero_time" "int (length (enc c (?e e))) \<le> MaxItemBytes limits" by blast
    have it: "items c limits s ?n = Some e"
      using read_quiet [OF f(1) s1] e(1) item_at_items [OF json_suffix [of ident]] by blast
    from quiet_put [OF q json_suffix retry_envelope [OF c q it pos e(3)]] show ?thesis
      using write_quiet [OF f(1) quiet_dir_ok [OF q] json_suffix, of "env_tmp env" ident "enc c (?e e)"] 2 e f(2) it q
      by (auto simp: bindS_def s1 Let_def signal_def modifyS_def)
  qed
qed

lemma quiet_del:
  assumes q: "quiet c limits s" and t: "pending t = dir_del n (pending s)" "faults t = []" "quarantine_bounded limits t"
  shows "items c limits t = (items c limits s)(n := None) \<and> quiet c limits t"
  using q t by (auto simp: quiet_def items_def items_del)

lemma quiet_same:
  assumes q: "quiet c limits s" and t: "pending t = pending s" "faults t = []" "quarantine_bounded limits t"
  shows "items c limits t = items c limits s \<and> quiet c limits t"
  using q t by (auto simp: quiet_def items_def)

lemma Ack_refines:
  assumes q: "quiet c limits s" and r: "Ack ident s = (r, t)"
  shows "queue_step c limits (C_Ack ident) (items c limits s) (map_sum id (\<lambda>_. R_Done) r) (items c limits t) \<and> quiet c limits t"
  using r unfolding Ack_def
proof (cases rule: path_cases)
  case (1 e)
  then show ?thesis using q by simp
next
  case 2
  have f: "faults s = []" "quarantine_bounded limits s" using q by (simp_all add: quiet_def)
  have "(\<exists>e. r = Inl e \<and> t = s) \<or> r = Inr () \<and> t = s\<lparr>pending := dir_del (ident @ ''.json'') (pending s)\<rparr>"
    using 2 f(1) by (auto simp: removeFileAndSync_def bindS_def syscall_def getS_def failS_def del_pending_def modifyS_def
        syncDirectory_def split: if_splits)
  then show ?thesis using q quiet_del [OF q, of "s\<lparr>pending := dir_del (ident @ ''.json'') (pending s)\<rparr>"] f qb_del [OF f(2)] by auto
qed

text \<open>Without faults a failing \<open>quarantinePathLocked\<close> leaves the pending directory as it was.\<close>

definition still :: "dir \<Rightarrow> spool_fs \<Rightarrow> bool" where
  "still d s \<longleftrightarrow> faults s = [] \<and> pending s = d"

lemma still_syscall: "preserves (still d) syscall"
  by (rule preservesI) (simp add: still_def syscall_def)

lemma still_prune: "preserves (still d) (pruneQuarantineLocked limits k)"
proof -
  have del: "preserves (still d) (del_quarantine n)" for n
    unfolding del_quarantine_def by (rule preserves_modify) (simp add: still_def)
  have stat: "preserves (still d) (stat_entries es)" for es
    by (induction es rule: stat_entries.induct) (auto intro!: preserves_return preserves_bind still_syscall)
  have loop: "preserves (still d) (prune_loop limits k es used)" for es used
    by (induction es arbitrary: used) (auto intro!: preserves_return preserves_bind still_syscall del)
  show ?thesis
    unfolding pruneQuarantineLocked_def ReadDir_quarantine_def syncDirectory_def
    by (intro preserves_bind still_syscall preserves_get stat loop)
qed

lemma never_fails_sync: "triple (\<lambda>s. faults s = []) syncDirectory (\<lambda>_ s. faults s = []) (\<lambda>_ _. False)"
  by (simp add: triple_def syncDirectory_def bindS_def syscall_def)

lemma quarantine_error:
  "triple (still d) (quarantinePathLocked limits n reason) (\<lambda>_ _. True) (\<lambda>_. still d)"
proof -
  have call: "triple (\<lambda>s. faults s = []) syscall (\<lambda>_ s. faults s = []) (\<lambda>_. still d)"
    by (simp add: triple_def syscall_def)
  have sync: "triple (\<lambda>s. faults s = []) syncDirectory (\<lambda>_ s. faults s = []) (\<lambda>_. still d)"
    by (rule triple_conseq [OF never_fails_sync]) simp_all
  have last: "triple (\<lambda>s. faults s = []) (bindS syscall (\<lambda>_. bindS syncDirectory (\<lambda>_. syncDirectory))) (\<lambda>_ _. True) (\<lambda>_. still d)"
    by (rule triple_conseq [OF triple_bind [OF call triple_bind [OF sync sync]]]) simp_all
  have ren: "triple (still d) (rename_to_quarantine n dest x) (\<lambda>_ s. faults s = []) (\<lambda>_. still d)" for dest x
    by (auto simp: triple_def rename_to_quarantine_def bindS_def syscall_def getS_def failS_def modifyS_def still_def
        split: option.splits node.splits)
  have rem: "triple (still d) (removeFileAndSync n) (\<lambda>_ _. True) (\<lambda>_. still d)"
    by (auto simp: triple_def removeFileAndSync_def bindS_def syscall_def getS_def failS_def del_pending_def modifyS_def
        syncDirectory_def still_def split: if_splits)
  have all: "triple (still d) (bindS syscall (\<lambda>_. bindS (del_pending n) (\<lambda>_. syncDirectory))) (\<lambda>_ _. True) (\<lambda>_. still d)"
    by (auto simp: triple_def bindS_def syscall_def del_pending_def modifyS_def syncDirectory_def still_def)
  have lstat: "triple (still d) (Lstat n) (\<lambda>_. still d) (\<lambda>_. still d)"
    by (auto simp: triple_def Lstat_def bindS_def syscall_def getS_def failS_def returnS_def still_def split: option.splits)
  have missing: "triple (still d) (if e = NotExist then returnS () else failS e) (\<lambda>_ _. True) (\<lambda>_. still d)" for e
    by (intro triple_if triple_return triple_fail) simp
  show ?thesis unfolding quarantinePathLocked_def
  proof (rule triple_catch [OF lstat missing])
    show "triple (still d) (case info of
         Regular content \<Rightarrow>
           if node_Size info > MaxQuarantineBytes limits then removeFileAndSync n
           else bindS (pruneQuarantineLocked limits (node_Size info)) (\<lambda>_.
             bindS (rename_to_quarantine n (n @ ''.'' @ sanitize_reason reason) info) (\<lambda>_.
             bindS syscall (\<lambda>_. bindS syncDirectory (\<lambda>_. syncDirectory))))
       | _ \<Rightarrow> bindS syscall (\<lambda>_. bindS (del_pending n) (\<lambda>_. syncDirectory))) (\<lambda>_ _. True) (\<lambda>_. still d)" for info
      using rem all triple_bind [OF still_prune [unfolded preserves_def] triple_bind [OF ren last]]
      by (cases info) auto
  qed
qed

lemma Quarantine_refines:
  assumes q: "quiet c limits s" and r: "Quarantine limits ident reason s = (r, t)"
  shows "queue_step c limits (C_Quarantine ident reason) (items c limits s) (map_sum id (\<lambda>_. R_Done) r) (items c limits t) \<and>
    quiet c limits t"
  using r unfolding Quarantine_def
proof (cases rule: path_cases)
  case (1 e)
  then show ?thesis using q by simp
next
  case 2
  let ?n = "ident @ ''.json''"
  have f: "faults s = []" "quarantine_bounded limits s" using q by (simp_all add: quiet_def)
  have t: "faults t = []" using preserves_result [OF calm.K_quarantine f(1), of ?n limits reason] 2 by simp
  have step: "pending t = pending s \<or> pending t = dir_del ?n (pending s)" "quarantine_bounded limits t"
    using quarantinePath_step [OF f(2), of ?n reason] 2 by (auto simp: quarantine_step_def)
  show ?thesis
  proof (cases r)
    case (Inl e)
    then have "pending t = pending s" using triple_error [OF quarantine_error, of "pending s" s] f(1) 2 by (simp add: still_def)
    then show ?thesis using quiet_same [OF q _ t step(2)] Inl by simp
  next
    case (Inr u)
    then have gone: "dir_get (pending t) ?n = None" using triple_value [OF gone_quarantine [of "\<lambda>_. True"]] 2 by (simp add: gone_def)
    then have "pending t = dir_del ?n (pending s) \<or> (pending t = pending s \<and> items c limits s ?n = None)"
      using step(1) by (metis items_Some option.distinct(1) option.exhaust)
    then show ?thesis using quiet_del [OF q _ t step(2)] quiet_same [OF q _ t step(2)] Inr by (auto simp: fun_upd_idem)
  qed
qed

subsection \<open>The spool refines the queue\<close>

lemma spool_step_refines:
  assumes c: "codec_ok c" and q: "quiet c limits s" and a: "after_epoch call" and r: "spool_step c limits call s = (r, t)"
  shows "queue_step c limits call (items c limits s) r (items c limits t) \<and> quiet c limits t"
proof (cases call)
  case (C_Enqueue env rounds)
  then show ?thesis using Enqueue_refines [OF c q, of env rounds] a r
    by (cases "Enqueue c limits env rounds s") (auto simp: with_reply_def)
next
  case (C_Next now)
  obtain r1 where r1: "Next c limits now s = (r1, t)" "r = map_sum id R_Next r1"
    using r C_Next by (cases "Next c limits now s") (auto simp: with_reply_def)
  then show ?thesis using decay_Next [OF q r1(1)] Next_refines [OF q, of now _ t] C_Next by (cases r1) auto
next
  case (C_Load ident)
  then show ?thesis using Load_refines [OF q, of ident] r by (cases "Load c limits ident s") (auto simp: with_reply_def)
next
  case (C_ScheduleRetry env ident attempt nextAt)
  then show ?thesis using Retry_refines [OF c q, of nextAt env ident attempt] a r
    by (cases "ScheduleRetry c limits env ident attempt nextAt s") (auto simp: with_reply_def)
next
  case (C_Ack ident)
  then show ?thesis using Ack_refines [OF q, of ident] r by (cases "Ack ident s") (auto simp: with_reply_def)
next
  case (C_Quarantine ident reason)
  then show ?thesis using Quarantine_refines [OF q, of ident reason] r
    by (cases "Quarantine limits ident reason s") (auto simp: with_reply_def)
qed

text \<open>The codec and the limits enter through the state: a configuration that satisfies the laws.\<close>

definition quiet_spool :: "codec \<Rightarrow> ProbeSpoolLimits \<Rightarrow> spool_fs \<Rightarrow> bool" where
  "quiet_spool c limits s \<longleftrightarrow> codec_ok c \<and> quiet c limits s"

interpretation sq: simulation "spool_step c limits" "queue_step c limits" "items c limits" "quiet_spool c limits" after_epoch
  for c limits
  by unfold_locales (use spool_step_refines in \<open>auto simp: quiet_spool_def\<close>)

text \<open>
  C5: The spool is a queue. Take any calls of its six methods, made in a state in which no file-system
  call fails, the quarantine is within its bounds and the valid files are items the spool wrote. Then the
  answers and the items left are those of the abstract queue: \<open>Enqueue\<close> drops the expired items and adds
  exactly the new one, \<open>Next\<close> drops the expired items and answers with the due item of the least name,
  \<open>Load\<close> changes nothing, \<open>ScheduleRetry\<close> changes the attempt and the due time of one item, \<open>Ack\<close> and
  \<open>Quarantine\<close> remove one item, and a failing call changes no unexpired item.
\<close>
theorem spool_refines_queue:
  assumes "codec_ok c" "quiet c limits s" "list_all after_epoch calls"
    and "run_all (spool_step c limits) calls s = (replies, t)"
  shows "allowed (queue_step c limits) calls (items c limits s) replies (items c limits t) \<and> quiet c limits t"
  using sq.runs_refine [of c limits s calls replies t] assms by (simp add: quiet_spool_def)

theorem spool_refines_queue_witness:
  "allowed (queue_step demo_codec DefaultProbeSpoolLimits) [C_Enqueue example_env [one_round], C_Next 3000]
     (items demo_codec DefaultProbeSpoolLimits (empty_spool []))
     [Inr (R_ID example_id), Inr (R_Next (Some (probeSpoolItemFromEnvelope example_id example_envelope)))]
     (items demo_codec DefaultProbeSpoolLimits example_spool) \<and>
   quiet demo_codec DefaultProbeSpoolLimits example_spool"
proof (rule spool_refines_queue [OF demo_codec_ok])
  show "quiet demo_codec DefaultProbeSpoolLimits (empty_spool [])"
    using bounded_empty by (simp add: quiet_def items_Some dir_get_def) (simp add: empty_spool_def)
  show "list_all after_epoch [C_Enqueue example_env [one_round], C_Next 3000]"
    by (simp add: example_env_def UnixNano_def wrap64_def)
qed (simp add: with_reply_def example_enqueue example_next)

end
