(* ===== verification/Spool_Open.thy ===== *)
theory Spool_Open
  imports Spool_Properties Agent_Config
begin

text \<open>
  Opening the spool (\<open>NewProbeSpool\<close> of \<open>internal/agent/probe_spool.go\<close>, \<open>ensurePrivateDirectory\<close> of
  \<open>probe_spool_fs_unix.go\<close>): the checks on the data directory and the limits, and the four private
  directories. A path is the list of its components; the file system gives the kind and the mode of each
  path (names reached through a symbolic link are names of their own here). What a call draws from its surroundings is a record per directory: which of
  the system calls fail, the mode new directories get under the process's umask, and what other processes
  do before the last look at the path.
\<close>

datatype entry_kind = RealDir | Link bool | OtherFile     \<comment> \<open>\<open>Link b\<close>: \<open>b\<close> if it leads to a directory\<close>

record path_fs =
  kind_of :: "string list \<rightharpoonup> entry_kind"
  mode_of :: "string list \<Rightarrow> nat"

record ensure_env =
  ee_lstat_fails :: bool
  ee_mkdir_left :: "nat option"        \<comment> \<open>\<open>Some k\<close>: the call after \<open>k\<close> created directories fails\<close>
  ee_new_mode :: nat
  ee_chmod_fails :: bool
  ee_recheck_fails :: bool
  ee_meanwhile :: "path_fs \<Rightarrow> path_fs"

datatype open_error = DataDirRequired | DataDirNotAbsolute | BadLimits spool_error | UnsafeDirectory "string list" | PathIOError

subsection \<open>Paths\<close>

text \<open>\<open>filepath.Clean\<close> of an absolute path.\<close>

definition clean_step :: "string list \<Rightarrow> string \<Rightarrow> string list" where
  "clean_step done_parts part =
     (if part = [] \<or> part = ''.'' then done_parts else if part = ''..'' then butlast done_parts else done_parts @ [part])"

definition Clean_abs :: "string \<Rightarrow> string list" where
  "Clean_abs path = foldl clean_step [] (split_at (CHR ''/'') path)"

definition path_prefixes :: "string list \<Rightarrow> string list list" where
  "path_prefixes p = map (\<lambda>k. take k p) [1..<Suc (length p)]"

subsection \<open>Directories\<close>

text \<open>\<open>os.MkdirAll\<close>: every missing directory on the way is created; the flag says whether it succeeded.\<close>

fun MkdirAll :: "ensure_env \<Rightarrow> nat option \<Rightarrow> string list list \<Rightarrow> path_fs \<Rightarrow> bool \<times> path_fs" where
  "MkdirAll env left [] fs = (True, fs)"
| "MkdirAll env left (p # ps) fs =
     (case kind_of fs p of
        None \<Rightarrow>
          if left = Some 0 then (False, fs)
          else MkdirAll env (map_option (\<lambda>k. k - 1) left) ps
            (fs\<lparr>kind_of := (kind_of fs)(p \<mapsto> RealDir), mode_of := (mode_of fs)(p := ee_new_mode env)\<rparr>)
      | Some RealDir \<Rightarrow> MkdirAll env left ps fs
      | Some (Link b) \<Rightarrow> if b then MkdirAll env left ps fs else (False, fs)
      | Some OtherFile \<Rightarrow> (False, fs))"

definition ensurePrivateDirectory :: "ensure_env \<Rightarrow> string list \<Rightarrow> path_fs \<Rightarrow> open_error option \<times> path_fs" where
  "ensurePrivateDirectory env p fs =
     (if ee_lstat_fails env then (Some PathIOError, fs)
      else if kind_of fs p \<notin> {None, Some RealDir} then (Some (UnsafeDirectory p), fs)
      else
        let (made, fs1) = MkdirAll env (ee_mkdir_left env) (path_prefixes p) fs in
        if \<not> made then (Some PathIOError, fs1)
        else if ee_chmod_fails env then (Some PathIOError, fs1)
        else
          let fs2 = ee_meanwhile env (fs1\<lparr>mode_of := (mode_of fs1)(p := 448)\<rparr>) in
          if ee_recheck_fails env \<or> kind_of fs2 p = None then (Some PathIOError, fs2)
          else if kind_of fs2 p \<noteq> Some RealDir then (Some (UnsafeDirectory p), fs2)
          else (None, fs2))"

fun ensure_all :: "(string list \<Rightarrow> ensure_env) \<Rightarrow> string list list \<Rightarrow> path_fs \<Rightarrow> open_error option \<times> path_fs" where
  "ensure_all env [] fs = (None, fs)"
| "ensure_all env (p # ps) fs =
     (case ensurePrivateDirectory (env p) p fs of
        (Some e, fs1) \<Rightarrow> (Some e, fs1)
      | (None, fs1) \<Rightarrow> ensure_all env ps fs1)"

subsection \<open>NewProbeSpool\<close>

record probe_spool_handle =
  ps_root :: "string list"
  ps_pendingDir :: "string list"
  ps_quarantineDir :: "string list"
  ps_limits :: ProbeSpoolLimits

definition zero_limits :: ProbeSpoolLimits where
  "zero_limits = \<lparr>TTL = 0, MaxPendingItems = 0, MaxPendingBytes = 0, MaxItemBytes = 0, MinFreeBytes = 0,
     MaxQuarantineItems = 0, MaxQuarantineBytes = 0\<rparr>"

definition NewProbeSpool ::
  "(string list \<Rightarrow> ensure_env) \<Rightarrow> string \<Rightarrow> ProbeSpoolLimits \<Rightarrow> path_fs \<Rightarrow> (open_error + probe_spool_handle) \<times> path_fs" where
  "NewProbeSpool env dataDir optionLimits fs =
     (if TrimSpace dataDir = [] then (Inl DataDirRequired, fs)
      else if \<not> IsAbs dataDir then (Inl DataDirNotAbsolute, fs)
      else
        let limits = (if optionLimits = zero_limits then DefaultProbeSpoolLimits else optionLimits) in
        case validateProbeSpoolLimits limits of
          Some e \<Rightarrow> (Inl (BadLimits e), fs)
        | None \<Rightarrow>
            let dir = Clean_abs dataDir; root = dir @ [''probe-spool''];
                handle = \<lparr>ps_root = root, ps_pendingDir = root @ [''pending''], ps_quarantineDir = root @ [''quarantine''],
                  ps_limits = limits\<rparr>
            in (case ensure_all env [dir, root, ps_pendingDir handle, ps_quarantineDir handle] fs of
                  (Some e, fs1) \<Rightarrow> (Inl e, fs1)
                | (None, fs1) \<Rightarrow> (Inr handle, fs1)))"

subsection \<open>What opening leaves behind\<close>

text \<open>Every path keeps its kind, or is a new directory among \<open>ps\<close>; modes change only there.\<close>

definition only_made :: "string list set \<Rightarrow> path_fs \<Rightarrow> path_fs \<Rightarrow> bool" where
  "only_made ps fs fs' \<longleftrightarrow>
     (\<forall>q. kind_of fs' q = kind_of fs q \<or> (q \<in> ps \<and> kind_of fs q = None \<and> kind_of fs' q = Some RealDir)) \<and>
     (\<forall>q. q \<notin> ps \<longrightarrow> mode_of fs' q = mode_of fs q)"

lemma only_made_refl: "only_made ps fs fs"
  by (simp add: only_made_def)

lemma only_made_trans: "only_made ps fs fs1 \<Longrightarrow> only_made qs fs1 fs2 \<Longrightarrow> only_made (ps \<union> qs) fs fs2"
  unfolding only_made_def by (metis UnCI option.distinct(1))

lemma only_made_kept: "only_made ps fs fs' \<Longrightarrow> kind_of fs p = Some k \<Longrightarrow> kind_of fs' p = Some k"
  by (metis only_made_def option.distinct(1))

lemma MkdirAll_made:
  "MkdirAll env left ps fs = (ok, fs') \<Longrightarrow>
   only_made (set ps) fs fs' \<and> (\<forall>q. kind_of fs q \<noteq> None \<longrightarrow> mode_of fs' q = mode_of fs q) \<and>
   (ok \<longrightarrow> (\<forall>p\<in>set ps. kind_of fs' p \<in> {Some RealDir, Some (Link True)}))"
proof (induction env left ps fs rule: MkdirAll.induct)
  case (1 env left fs)
  then show ?case by (simp add: only_made_refl)
next
  case (2 env left p ps fs)
  have keep: "only_made (set (p # ps)) fs fs'" if "only_made (set ps) fs fs'" using that by (auto simp: only_made_def)
  show ?case
  proof (cases "kind_of fs p")
    case None
    let ?f = "fs\<lparr>kind_of := (kind_of fs)(p \<mapsto> RealDir), mode_of := (mode_of fs)(p := ee_new_mode env)\<rparr>"
    show ?thesis
    proof (cases "left = Some 0")
      case True
      then show ?thesis using "2.prems" None by (simp add: only_made_refl)
    next
      case False
      have IH: "only_made (set ps) ?f fs'" "\<forall>q. kind_of ?f q \<noteq> None \<longrightarrow> mode_of fs' q = mode_of ?f q"
          "ok \<longrightarrow> (\<forall>q\<in>set ps. kind_of fs' q \<in> {Some RealDir, Some (Link True)})"
        using "2.IH"(1) [OF None False] "2.prems" None False by simp_all
      have "only_made {p} fs ?f" using None by (simp add: only_made_def)
      then have "only_made (set (p # ps)) fs fs'" using only_made_trans [of "{p}" fs ?f "set ps" fs'] IH(1) by simp
      moreover have "kind_of fs' p = Some RealDir" using IH(1) by (auto simp: only_made_def split: if_splits)
      moreover have "mode_of fs' q = mode_of fs q" if "kind_of fs q \<noteq> None" for q
        using IH(2) that None by (auto split: if_splits)
      ultimately show ?thesis using IH(3) by auto
    qed
  next
    case (Some k)
    have "only_made (set ps) fs fs' \<and> (\<forall>q. kind_of fs q \<noteq> None \<longrightarrow> mode_of fs' q = mode_of fs q) \<and>
        (ok \<longrightarrow> (\<forall>q\<in>set ps. kind_of fs' q \<in> {Some RealDir, Some (Link True)})) \<and> k \<in> {RealDir, Link True}"
      if "k \<in> {RealDir, Link True}" using "2.IH" "2.prems" Some that by (auto split: entry_kind.splits if_splits)
    moreover have "\<not> ok \<and> fs' = fs" if "k \<notin> {RealDir, Link True}"
      using "2.prems" Some that by (cases k) (auto split: if_splits)
    ultimately show ?thesis using keep Some only_made_refl [of "set (p # ps)" fs] only_made_kept [of "set ps" fs fs' p]
      by (cases "k \<in> {RealDir, Link True}") auto
  qed
qed

lemma prefixes_self: "p \<noteq> [] \<Longrightarrow> p \<in> set (path_prefixes p)"
  by (cases p) (auto simp: path_prefixes_def image_iff intro!: bexI [of _ "length p"])

text \<open>One directory, when no other process interferes.\<close>

lemma ensure_made:
  assumes quiet: "ee_meanwhile env = (\<lambda>f. f)" and r: "ensurePrivateDirectory env p fs = (e, fs')"
  shows "only_made (insert p (set (path_prefixes p))) fs fs' \<and>
    (\<forall>q. kind_of fs q \<noteq> None \<and> q \<noteq> p \<longrightarrow> mode_of fs' q = mode_of fs q) \<and>
    (e = None \<longrightarrow> kind_of fs' p = Some RealDir \<and> mode_of fs' p = 448)"
proof -
  obtain ok fs1 where m: "MkdirAll env (ee_mkdir_left env) (path_prefixes p) fs = (ok, fs1)" by fastforce
  have made: "only_made (set (path_prefixes p)) fs fs1" "\<forall>q. kind_of fs q \<noteq> None \<longrightarrow> mode_of fs1 q = mode_of fs q"
    using MkdirAll_made [OF m] by simp_all
  let ?f = "fs1\<lparr>mode_of := (mode_of fs1)(p := 448)\<rparr>"
  have "fs' = fs \<and> e \<noteq> None \<or> fs' = fs1 \<and> e \<noteq> None \<or> fs' = ?f \<and> (e = None \<longrightarrow> kind_of ?f p = Some RealDir)"
    using r quiet by (auto simp: ensurePrivateDirectory_def m Let_def split: if_splits)
  moreover have "only_made (insert p (set (path_prefixes p))) fs f" if "f \<in> {fs, fs1, ?f}" for f
    using that made(1) by (auto simp: only_made_def)
  moreover have "mode_of f q = mode_of fs q" if "f \<in> {fs, fs1, ?f}" "kind_of fs q \<noteq> None" "q \<noteq> p" for f q
    using that made(2) by auto
  ultimately show ?thesis by fastforce
qed

lemma ensure_all_made:
  assumes quiet: "\<forall>p. ee_meanwhile (env p) = (\<lambda>f. f)"
  shows "ensure_all env ps fs = (e, fs') \<Longrightarrow>
    only_made (\<Union>p\<in>set ps. insert p (set (path_prefixes p))) fs fs' \<and>
    (\<forall>q. kind_of fs q \<noteq> None \<and> q \<notin> set ps \<longrightarrow> mode_of fs' q = mode_of fs q) \<and>
    (e = None \<and> distinct ps \<longrightarrow> (\<forall>p\<in>set ps. kind_of fs' p = Some RealDir \<and> mode_of fs' p = 448))"
proof (induction ps arbitrary: fs)
  case Nil
  then show ?case by (simp add: only_made_refl)
next
  case (Cons p ps)
  obtain e1 fs1 where s1: "ensurePrivateDirectory (env p) p fs = (e1, fs1)" by fastforce
  note one = ensure_made [OF quiet [rule_format] s1]
  show ?case
  proof (cases e1)
    case (Some x)
    then have "e = Some x" "fs' = fs1" using Cons.prems s1 by simp_all
    then show ?thesis using one by (auto simp: only_made_def)
  next
    case None
    then have "ensure_all env ps fs1 = (e, fs')" using Cons.prems s1 by simp
    note rest = Cons.IH [OF this]
    have "only_made (\<Union>q\<in>set (p # ps). insert q (set (path_prefixes q))) fs fs'"
      using only_made_trans [OF conjunct1 [OF one] conjunct1 [OF rest]] by simp
    moreover have "mode_of fs' q = mode_of fs q" if "kind_of fs q \<noteq> None" "q \<notin> set (p # ps)" for q
      using that one rest by (metis list.set_intros(1,2) only_made_def option.distinct(1))
    moreover have "kind_of fs' p = Some RealDir \<and> mode_of fs' p = 448" if "p \<notin> set ps"
      using that one rest None by (metis only_made_def option.distinct(1))
    ultimately show ?thesis using rest by auto
  qed
qed

subsection \<open>Properties\<close>


definition calm_env :: ensure_env where
  "calm_env = \<lparr>ee_lstat_fails = False, ee_mkdir_left = None, ee_new_mode = 448, ee_chmod_fails = False,
     ee_recheck_fails = False, ee_meanwhile = (\<lambda>f. f)\<rparr>"

definition example_paths :: path_fs where
  "example_paths = \<lparr>kind_of = [[''var''] \<mapsto> RealDir], mode_of = (\<lambda>_. 493)\<rparr>"

lemma example_open:
  "\<exists>h fs'. NewProbeSpool (\<lambda>_. calm_env) ''/var/zeno'' zero_limits example_paths = (Inr h, fs') \<and>
     ps_pendingDir h = [''var'', ''zeno'', ''probe-spool'', ''pending'']"
proof -
  have c: "Clean_abs ''/var/zeno'' = [''var'', ''zeno'']" by (simp add: Clean_abs_def clean_step_def)
  have t: "TrimSpace ''/var/zeno'' = ''/var/zeno''" by (rule TrimSpace_graphic) (simp add: graphic_def)
  have v: "validateProbeSpoolLimits DefaultProbeSpoolLimits = None"
    by (simp add: validateProbeSpoolLimits_def DefaultProbeSpoolLimits_def time_defs)
  show ?thesis
    by (simp add: NewProbeSpool_def c t v IsAbs_def HasPrefix_def Let_def ensurePrivateDirectory_def calm_env_def example_paths_def
        path_prefixes_def upt_rec)
qed


end
