(* ===== verification/Agent_Once.thy ===== *)
theory Agent_Once
  imports Agent_Reports Spool_Open Spool_Refinement Probe_Cycle Upload_Settle
begin

text \<open>
  A one-shot run of the agent (\<open>runAgent\<close> of \<open>cmd/zeno-agent/main.go\<close> with \<open>cfg.Once\<close>): open the spool,
  send the three reports, fetch the probe configuration, probe and persist, upload one batch. It joins the
  components in the order the code calls them. No worker is started, so nothing runs beside it.
\<close>

definition defaultAgentDataDir :: string where
  "defaultAgentDataDir = ''/var/lib/zeno-agent''"

record once_env =
  oe_report_codec :: report_codec
  oe_codec :: codec
  oe_ensure :: "string list \<Rightarrow> ensure_env"
  oe_heartbeat :: "instant \<times> client_env \<times> receipt_io"
  oe_host :: "instant \<times> client_env \<times> host_env \<times> NetworkIdentity"
  oe_state :: "instant \<times> client_env \<times> receipt_io \<times> metrics_env"
  oe_refresh_done :: bool                        \<comment> \<open>the context is done before the refresh gate is taken\<close>
  oe_answer :: "ProbeTargetsResponse option"
  oe_cycle :: cycle_env
  oe_enqueue :: spool_env
  oe_upload :: upload_env

text \<open>The cycle and the upload share the spool of the run, with its codec and limits, and its client.\<close>

definition once_cycle :: "once_env \<Rightarrow> ProbeSpoolLimits \<Rightarrow> cycle_env" where
  "once_cycle env limits = (oe_cycle env)\<lparr>cy_codec := oe_codec env, cy_limits := limits, cy_spool := Some (oe_enqueue env),
     cy_during := (\<lambda>m. m), cy_after := (\<lambda>m. m)\<rparr>"

definition once_upload :: "once_env \<Rightarrow> ProbeSpoolLimits \<Rightarrow> Client \<Rightarrow> upload_env" where
  "once_upload env limits c = (oe_upload env)\<lparr>ux_codec := oe_codec env, ux_limits := limits, ux_client := c, ux_ready := True\<rparr>"

definition once_ticks :: "once_env \<Rightarrow> tick list" where
  "once_ticks env =
     [case oe_heartbeat env of (now, net, io) \<Rightarrow> HeartbeatTick now net io,
      case oe_host env of (now, net, host, inner) \<Rightarrow> HostTick now net host inner,
      case oe_state env of (now, net, io, metrics) \<Rightarrow> StateTick now net io metrics]"

definition data_dir :: "config \<Rightarrow> string" where
  "data_dir cfg = (if TrimSpace (cfg_DataDir cfg) = [] then defaultAgentDataDir else cfg_DataDir cfg)"

definition new_reporter :: "agent_start \<Rightarrow> 64 word \<Rightarrow> dir \<Rightarrow> reporter" where
  "new_reporter st sequence d =
     \<lparr>rep_collector = (start_collector st, sequence), rep_identity = start_identity st,
      rep_receipt = (newInstallReceiptTracker (cfg_InstallReceiptFile (start_cfg st)) (cfg_InstallReceiptNonce (start_cfg st)), d)\<rparr>"

text \<open>
  \<open>None\<close>: the run never returns. \<open>Inl e\<close>: it returns the error of opening the spool. \<open>Inr\<close>: it returns
  nil; the errors of the steps are logged only.
\<close>

definition runAgent_once ::
  "once_env \<Rightarrow> agent_start \<Rightarrow> 64 word \<Rightarrow> dir \<Rightarrow> path_fs \<Rightarrow> spool_fs \<Rightarrow>
   ((open_error + reporter \<times> probeTargetManager \<times> spool_fs) \<times> path_fs) option" where
  "runAgent_once env st sequence d fs s =
     (let cfg = normalizeConfigIntervals (start_cfg st) in
      case NewProbeSpool (oe_ensure env) (data_dir cfg) zero_limits fs of
        (Inl e, fs1) \<Rightarrow> Some (Inl e, fs1)
      | (Inr spool, fs1) \<Rightarrow>
          let rep = report_ticks (oe_report_codec env) (start_client st) (cfg_Version cfg) (once_ticks env) (new_reporter st sequence d)
          in (case refreshProbeConfig (oe_refresh_done env) (oe_answer env) 0 newProbeTargetManager of
                None \<Rightarrow> None
              | Some (_, m1) \<Rightarrow>
                  (case runDueProbes (once_cycle env (ps_limits spool)) m1 s of
                     None \<Rightarrow> None
                   | Some (_, m2, s1) \<Rightarrow>
                       let (_, s2) = UploadOne (once_upload env (ps_limits spool) (start_client st)) s1
                       in Some (Inr (rep, m2, s2), fs1))))"

subsection \<open>The steps return\<close>

lemma refresh_fresh:
  "\<exists>r m. refreshProbeConfig b answer 0 newProbeTargetManager = Some (r, m) \<and> runGate m \<and> scheduler m = NewProbeScheduler"
proof -
  have "runGate m \<and> scheduler m = NewProbeScheduler"
    if "refresh_held answer 0 (newProbeTargetManager\<lparr>refreshGate := False\<rparr>) = (r, m)" for r m
    using that
    by (auto simp: refresh_held_def newProbeTargetManager_def update_def Let_def split: sum.splits if_splits)
  then show ?thesis
    by (auto simp: refreshProbeConfig_def refreshProbeTargets_def beginRefresh_def endRefresh_def Let_def
        newProbeTargetManager_def split: prod.splits)
qed

lemma cycle_returns: "runGate m \<Longrightarrow> runDueProbes env m s \<noteq> None"
  by (auto simp: runDueProbes_def beginRun_def Let_def split: prod.splits sum.splits option.splits)

lemma default_limits: "NewProbeSpool env dataDir zero_limits fs = (Inr h, fs') \<Longrightarrow> ps_limits h = DefaultProbeSpoolLimits"
  by (auto simp: NewProbeSpool_def Let_def split: if_splits option.splits prod.splits)

subsection \<open>From the probe to the Controller\<close>

lemma enqueue_kept:
  assumes c: "codec_ok c" and q: "quiet c limits s" and pos: "0 < UnixNano (env_now env)"
    and r: "Enqueue c limits env rounds s = (Inr ident, t)"
  obtains body where "marshalProbeResults c rounds = Inr body" "quarantine_bounded limits t"
    "kept (new_id env @ ''.json'') (enc c (new_envelope c (env_now env) body)) t"
    "check_content c limits (enc c (new_envelope c (env_now env) body)) = Inr (new_envelope c (env_now env) body)"
proof -
  have t: "quiet c limits t" using Enqueue_refines [OF c q pos r] by simp
  have qb: "quarantine_bounded limits s" "quarantine_bounded limits t" "faults t = []" using q t by (simp_all add: quiet_def)
  obtain body where body: "marshalProbeResults c rounds = Inr body"
    using enqueue_load_roundtrip [OF c qb(1) pos r] by blast
  let ?n = "new_id env @ ''.json''" and ?e = "new_envelope c (env_now env) body"
  have h: "holds ?n (enc c ?e) t" using triple_value [OF enqueue_holds [OF body] qb(1) r] by simp
  have "items c limits t ?n = Some ?e" using Enqueue_refines [OF c q pos r] body by auto
  then have "check_content c limits (enc c ?e) = Inr ?e" using h by (auto simp: items_Some holds_def)
  then show ?thesis using that [OF body qb(2)] h qb(3) quiet_dir_ok [OF t] by (simp add: kept_def)
qed

text \<open>
  What became of the batch of a run: \<open>b\<close> is the batch that was due, \<open>rounds\<close> its results. The item written
  for it is pending as written, pending for a retry, gone after a 2xx answer to exactly these bytes, or in
  the quarantine after a terminal answer.
\<close>

definition batch_settled :: "once_env \<Rightarrow> upload_env \<Rightarrow> probeTargetBatch \<Rightarrow> spool_fs \<Rightarrow> bool" where
  "batch_settled env u b t \<longleftrightarrow>
     (\<exists>body e n. marshalProbeResults (oe_codec env) (stamp_rounds b
         (ProbeTargets (cy_rounds (oe_cycle env)) (batch_targets b) (cy_now (oe_cycle env)))) = Inr body \<and> Batch e = body \<and>
        (holds n (enc (oe_codec env) e) t \<or> rescheduled u n e t \<or> delivered u n e t \<or> rejected u n (enc (oe_codec env) e) e t))"

lemma stored_settled:
  assumes c: "codec_ok (oe_codec env)" and q: "quiet (oe_codec env) limits s" and pos: "0 < UnixNano (env_now (oe_enqueue env))"
    and live: "time_sub (ux_now (oe_upload env)) (UnixNano (env_now (oe_enqueue env))) < TTL limits"
    and r: "Enqueue (oe_codec env) limits (oe_enqueue env) (stamp_rounds b
         (ProbeTargets (cy_rounds (oe_cycle env)) (batch_targets b) (cy_now (oe_cycle env)))) s = (Inr ident, s1)"
    and u: "UploadOne (once_upload env limits cl) s1 = (err, t)"
  shows "batch_settled env (once_upload env limits cl) b t"
proof -
  let ?u = "once_upload env limits cl" and ?n = "new_id (oe_enqueue env) @ ''.json''"
  obtain body where body: "marshalProbeResults (oe_codec env) (stamp_rounds b
         (ProbeTargets (cy_rounds (oe_cycle env)) (batch_targets b) (cy_now (oe_cycle env)))) = Inr body"
      "quarantine_bounded limits s1"
      "kept ?n (enc (oe_codec env) (new_envelope (oe_codec env) (env_now (oe_enqueue env)) body)) s1"
      "check_content (oe_codec env) limits (enc (oe_codec env) (new_envelope (oe_codec env) (env_now (oe_enqueue env)) body)) =
        Inr (new_envelope (oe_codec env) (env_now (oe_enqueue env)) body)"
    by (rule enqueue_kept [OF c q pos r])
  let ?e = "new_envelope (oe_codec env) (env_now (oe_enqueue env)) body"
  obtain res where one: "uploadOne ?u s1 = (res, t)" using u by (auto simp: UploadOne_def Let_def split: prod.splits)
  have lv: "live_item (ux_codec ?u) (ux_limits ?u) (ux_now ?u) ?n (enc (oe_codec env) ?e)"
    using body(4) live by (simp add: live_item_def once_upload_def expired_def new_envelope_def)
  have "holds ?n (enc (oe_codec env) ?e) t \<or> rescheduled ?u ?n ?e t \<or> delivered ?u ?n ?e t \<or>
      rejected ?u ?n (enc (oe_codec env) ?e) ?e t"
    by (rule uploadOne_item [OF body(3) _ lv _ one]) (use body in \<open>simp_all add: once_upload_def\<close>)
  moreover have "Batch ?e = body" by (simp add: new_envelope_def)
  ultimately show ?thesis unfolding batch_settled_def using body(1) by blast
qed

lemma once_cycle_settled:
  assumes c: "codec_ok (oe_codec env)" and q: "quiet (oe_codec env) limits s" and pos: "0 < UnixNano (env_now (oe_enqueue env))"
    and live: "time_sub (ux_now (oe_upload env)) (UnixNano (env_now (oe_enqueue env))) < TTL limits"
    and r: "runDueProbes (once_cycle env limits) m s = Some (e, m', s1)"
    and u: "UploadOne (once_upload env limits cl) s1 = (err, t)"
  shows "scheduler m' = scheduler m \<or>
    batch_settled env (once_upload env limits cl) (due m (cy_now (oe_cycle env))) t"
  using r
proof (cases rule: runDueProbes_cases)
  case (stored se ident)
  have "se = oe_enqueue env" using stored(2) by (simp add: once_cycle_def)
  then show ?thesis
    using stored_settled [OF c q pos live _ u, of "due m (cy_now (oe_cycle env))" ident] stored(4) by (simp add: once_cycle_def)
qed (auto simp: endRun_def once_cycle_def)

subsection \<open>Properties\<close>


definition example_start :: agent_start where
  "example_start = \<lparr>start_cfg = example_cfg\<lparr>cfg_Once := True\<rparr>, start_client = reporting_client, start_collector = NewMetricsCollector [] [],
     start_identity = NewCachedNetworkIdentityDiscoverer 0\<rparr>"

definition example_host :: host_env where
  "example_host = \<lparr>he_meminfo = None, he_disk = (\<lambda>_. (0, 0)), he_hostname = ''h'', he_os_release = None, he_osrelease = None,
     he_goarch = ''amd64'', he_product_name = None, he_sys_vendor = None, he_cpuinfo = None, he_NumCPU = 1, he_stat = None\<rparr>"

definition example_once :: once_env where
  "example_once = \<lparr>oe_report_codec = example_codec, oe_codec = demo_codec, oe_ensure = (\<lambda>_. calm_env),
     oe_heartbeat = (0, plain_env, example_io), oe_host = (0, plain_env, example_host, no_identity),
     oe_state = (1, plain_env, example_io, example_reading (Some 5)), oe_refresh_done = False,
     oe_answer = Some \<lparr>resp_Targets = [example_target ''a''], resp_Version = 3\<rparr>, oe_cycle = example_cycle,
     oe_enqueue = example_env, oe_upload = example_upload 204\<rparr>"


end
