(* ===== verification/Log_File.thy ===== *)
theory Log_File
  imports Spool_Dir Agent_Config
begin

text \<open>
  The log file (\<open>cmd/zeno-agent/log_file.go\<close>): a writer that opens the file anew for every record, so that
  an external tool may move it away in between. The file system maps the log path to what is there; a
  record per call says which system calls fail and how many bytes a failing write got through.
\<close>

datatype log_error = LogNotRegular | LogPathNotAbsolute | LogIOError

record log_env =
  le_lstat_fails :: bool
  le_open_fails :: bool
  le_written :: "nat option"          \<comment> \<open>\<open>Some k\<close>: the write fails after \<open>k\<close> bytes\<close>
  le_close_fails :: bool

type_synonym log_fs = "string \<rightharpoonup> node"

text \<open>The file is opened for appending, and created if it is missing.\<close>

definition openRegularLogFile :: "log_env \<Rightarrow> string \<Rightarrow> log_fs \<Rightarrow> (log_error + string) \<times> log_fs" where
  "openRegularLogFile env path fs =
     (if le_lstat_fails env then (Inl LogIOError, fs)
      else case fs path of
        Some (Regular content) \<Rightarrow> if le_open_fails env then (Inl LogIOError, fs) else (Inr content, fs)
      | Some _ \<Rightarrow> (Inl LogNotRegular, fs)
      | None \<Rightarrow> if le_open_fails env then (Inl LogIOError, fs) else (Inr [], fs(path \<mapsto> Regular [])))"

text \<open>\<open>reopenLogWriter.Write\<close>: the number of bytes written and the error.\<close>

definition log_Write :: "log_env \<Rightarrow> string \<Rightarrow> string \<Rightarrow> log_fs \<Rightarrow> (nat \<times> log_error option) \<times> log_fs" where
  "log_Write env path p fs =
     (case openRegularLogFile env path fs of
        (Inl e, fs1) \<Rightarrow> ((0, Some e), fs1)
      | (Inr content, fs1) \<Rightarrow>
          let n = (case le_written env of None \<Rightarrow> length p | Some k \<Rightarrow> min k (length p));
              fs2 = fs1(path \<mapsto> Regular (content @ take n p))
          in ((n, if le_written env \<noteq> None then Some LogIOError else if le_close_fails env then Some LogIOError else None), fs2))"

text \<open>The result is the writer's path, or \<open>None\<close> if logging stays as it is.\<close>

definition configureLogFile :: "log_env \<Rightarrow> string \<Rightarrow> log_fs \<Rightarrow> (log_error + string option) \<times> log_fs" where
  "configureLogFile env path0 fs =
     (let path = TrimSpace path0 in
      if path = [] then (Inr None, fs)
      else if \<not> IsAbs path then (Inl LogPathNotAbsolute, fs)
      else case openRegularLogFile env path fs of
        (Inl e, fs1) \<Rightarrow> (Inl e, fs1)
      | (Inr _, fs1) \<Rightarrow> if le_close_fails env then (Inl LogIOError, fs1) else (Inr (Some path), fs1))"

subsection \<open>Rotation\<close>

text \<open>
  Records and rotations in the order they happen. A rotation moves the file away and keeps its content; the
  archives are collected oldest first. The run also returns the counts the writer reported.
\<close>

datatype log_event = Record log_env string | Rotate

fun log_content :: "node option \<Rightarrow> string" where
  "log_content (Some (Regular content)) = content"
| "log_content _ = []"

fun log_run :: "string \<Rightarrow> log_event list \<Rightarrow> string list \<Rightarrow> log_fs \<Rightarrow> nat list \<times> string list \<times> log_fs" where
  "log_run path [] archives fs = ([], archives, fs)"
| "log_run path (Record env p # evs) archives fs =
     (let ((n, err), fs1) = log_Write env path p fs;
          (ns, archives', fs') = log_run path evs archives fs1
      in (n # ns, archives', fs'))"
| "log_run path (Rotate # evs) archives fs =
     (case fs path of
        Some (Regular content) \<Rightarrow> log_run path evs (archives @ [content]) (fs(path := None))
      | _ \<Rightarrow> log_run path evs archives fs)"

fun records :: "log_event list \<Rightarrow> string list" where
  "records [] = []"
| "records (Record env p # evs) = p # records evs"
| "records (Rotate # evs) = records evs"

lemma log_Write_content:
  assumes "log_Write env path p fs = ((n, err), fs')"
  shows "log_content (fs' path) = log_content (fs path) @ take n p \<and> n \<le> length p \<and> (\<forall>q. q \<noteq> path \<longrightarrow> fs' q = fs q)"
proof (cases "fs path")
  case None
  then show ?thesis
    using assms by (auto simp: log_Write_def openRegularLogFile_def Let_def split: if_splits option.splits)
next
  case (Some x)
  then show ?thesis
    using assms by (cases x) (auto simp: log_Write_def openRegularLogFile_def Let_def split: if_splits option.splits)
qed

lemma log_run_content:
  "log_run path evs archives fs = (ns, archives', fs') \<Longrightarrow>
   concat archives' @ log_content (fs' path) =
     concat archives @ log_content (fs path) @ concat (map2 take ns (records evs)) \<and>
   (\<forall>q. q \<noteq> path \<longrightarrow> fs' q = fs q)"
proof (induction evs arbitrary: archives fs ns)
  case (Cons ev evs)
  show ?case
  proof (cases ev)
    case (Record env p)
    obtain n err fs1 where w: "log_Write env path p fs = ((n, err), fs1)" by (metis prod.exhaust)
    obtain ns1 where r: "log_run path evs archives fs1 = (ns1, archives', fs')" "ns = n # ns1"
      using Cons.prems w Record by (auto split: prod.splits)
    show ?thesis using Cons.IH [OF r(1)] log_Write_content [OF w] r(2) Record by simp
  next
    case Rotate
    show ?thesis
    proof (cases "\<exists>content. fs path = Some (Regular content)")
      case True
      then obtain content where c: "fs path = Some (Regular content)" by blast
      then have "log_run path evs (archives @ [content]) (fs(path := None)) = (ns, archives', fs')"
        using Cons.prems Rotate by simp
      from Cons.IH [OF this] show ?thesis using c Rotate by auto
    next
      case False
      then have "log_run path evs archives fs = (ns, archives', fs')"
        using Cons.prems Rotate by (auto split: option.splits node.splits)
      from Cons.IH [OF this] show ?thesis using Rotate by simp
    qed
  qed
qed simp

text \<open>Without failing calls, and with a regular file or nothing at the path, every record is written in full.\<close>

definition log_clean :: "log_env \<Rightarrow> bool" where
  "log_clean env \<longleftrightarrow> \<not> le_lstat_fails env \<and> \<not> le_open_fails env \<and> le_written env = None \<and> \<not> le_close_fails env"

fun clean_event :: "log_event \<Rightarrow> bool" where
  "clean_event (Record env p) \<longleftrightarrow> log_clean env"
| "clean_event Rotate \<longleftrightarrow> True"

definition log_ready :: "node option \<Rightarrow> bool" where
  "log_ready x \<longleftrightarrow> x = None \<or> (\<exists>content. x = Some (Regular content))"

lemma log_Write_clean:
  "log_clean env \<Longrightarrow> log_ready (fs path) \<Longrightarrow>
   log_Write env path p fs = ((length p, None), fs(path \<mapsto> Regular (log_content (fs path) @ p)))"
  by (auto simp: log_clean_def log_ready_def log_Write_def openRegularLogFile_def Let_def)

lemma log_run_clean:
  "list_all clean_event evs \<Longrightarrow> log_ready (fs path) \<Longrightarrow> log_run path evs archives fs = (ns, archives', fs') \<Longrightarrow>
   ns = map length (records evs)"
proof (induction evs arbitrary: archives fs ns)
  case (Cons ev evs)
  show ?case
  proof (cases ev)
    case (Record env p)
    then have w: "log_Write env path p fs = ((length p, None), fs(path \<mapsto> Regular (log_content (fs path) @ p)))"
      using Cons.prems by (intro log_Write_clean) simp_all
    obtain ns1 where r: "log_run path evs archives (fs(path \<mapsto> Regular (log_content (fs path) @ p))) = (ns1, archives', fs')"
        "ns = length p # ns1"
      using Cons.prems(3) w Record by (auto split: prod.splits)
    show ?thesis using Cons.IH [OF _ _ r(1)] Cons.prems(1) r(2) Record by (simp add: log_ready_def)
  next
    case Rotate
    obtain archives2 fs2 where r: "log_run path evs archives2 fs2 = (ns, archives', fs')" "log_ready (fs2 path)"
      using Cons.prems(2,3) Rotate by (auto simp: log_ready_def)
    show ?thesis using Cons.IH [OF _ r(2,1)] Cons.prems(1) Rotate by simp
  qed
qed simp

lemma map2_take_all: "concat (map2 take (map length ws) ws) = concat ws"
  by (induction ws) simp_all

subsection \<open>Properties\<close>

text \<open>Whatever system calls fail and whenever the file is rotated away, the archives and the current file together hold
  exactly the bytes the writer reported as written, in order, and no other file changes. If no call fails, they hold
  every record in full.\<close>

theorem log_records_kept:
  assumes "log_run path evs [] fs = (ns, archives, fs')"
  shows "concat archives @ log_content (fs' path) = log_content (fs path) @ concat (map2 take ns (records evs)) \<and>
    (\<forall>q. q \<noteq> path \<longrightarrow> fs' q = fs q) \<and>
    (list_all clean_event evs \<and> log_ready (fs path) \<longrightarrow>
       concat archives @ log_content (fs' path) = log_content (fs path) @ concat (records evs))"
  using log_run_content [OF assms] log_run_clean [OF _ _ assms] map2_take_all [of "records evs"] by auto

end
