(* ===== verification/Windows_Metrics.thy ===== *)
theory Windows_Metrics
  imports Ip_Table Metrics_System Network_Identity
begin

unbundle bit_operations_syntax

text \<open>
  The Windows readers (\<open>internal/agent/platform_windows.go\<close>, \<open>memory_windows.go\<close>, \<open>disk_usage_windows.go\<close>):
  interface counters, connection counts, CPU times, disks, memory and the registry texts. What the
  operating system answers is an argument: rows with their decoded texts, tables, registry values, drive
  sizes. The interface types of the \<open>windows\<close> package are the constructors the code distinguishes.
\<close>

subsection \<open>Interfaces\<close>

datatype if_type = SoftwareLoopback | EthernetCSMACD | IEEE80211 | PPP | OtherType nat

record MibIfRow2 =
  r2_Alias :: string
  r2_Description :: string
  r2_Type :: if_type
  r2_Up :: bool                      \<comment> \<open>\<open>OperStatus\<close> is up\<close>
  r2_Flags :: "8 word"
  r2_PhysicalAddressLength :: "32 word"
  r2_InOctets :: "64 word"
  r2_OutOctets :: "64 word"
  r2_InterfaceIndex :: "32 word"

record MibIfRow =
  r1_Name :: string
  r1_Type :: if_type
  r1_Up :: bool
  r1_InOctets :: "32 word"
  r1_OutOctets :: "32 word"
  r1_Index :: "32 word"

definition windowsIfHardwareInterface :: "8 word" where "windowsIfHardwareInterface = 1"
definition windowsIfFilterInterface :: "8 word" where "windowsIfFilterInterface = 2"
definition windowsIfEndPointInterface :: "8 word" where "windowsIfEndPointInterface = 128"

definition includeWindowsNetworkRow :: "MibIfRow2 \<Rightarrow> string list \<Rightarrow> bool" where
  "includeWindowsNetworkRow row allowlist =
     (let alias = TrimSpace (r2_Alias row); description = TrimSpace (r2_Description row) in
      if r2_Type row = SoftwareLoopback \<or> \<not> r2_Up row then False
      else if allowlist \<noteq> [] then alias \<in> set allowlist \<or> description \<in> set allowlist
      else if alias \<noteq> [] \<and> \<not> includeNetworkInterface alias [] then False
      else if description \<noteq> [] \<and> \<not> includeNetworkInterface description [] then False
      else if r2_Flags row AND windowsIfHardwareInterface = 0 then False
      else if r2_Flags row AND (windowsIfFilterInterface OR windowsIfEndPointInterface) \<noteq> 0 then False
      else r2_PhysicalAddressLength row > 0)"

definition includeWindowsLegacyNetworkRow :: "MibIfRow \<Rightarrow> string list \<Rightarrow> bool" where
  "includeWindowsLegacyNetworkRow row allowlist =
     (if allowlist \<noteq> [] then TrimSpace (r1_Name row) \<in> set allowlist
      else if r1_Type row = SoftwareLoopback \<or> \<not> r1_Up row then False
      else r1_Type row \<in> {EthernetCSMACD, IEEE80211, PPP})"

definition addNetworkCounter :: "int \<Rightarrow> 64 word \<Rightarrow> int option" where
  "addNetworkCounter so_far value =
     (if uint value > maxInt64 \<or> uint value > wrap64 (maxInt64 - so_far) then None
      else Some (wrap64 (so_far + uint value)))"

text \<open>One counted row, with its counters widened to 64 bits.\<close>

definition add_row :: "32 word \<Rightarrow> 64 word \<Rightarrow> 64 word \<Rightarrow> networkTotals \<Rightarrow> networkTotals option" where
  "add_row index inOctets outOctets t =
     (case addNetworkCounter (InBytes t) inOctets of
        None \<Rightarrow> None
      | Some i \<Rightarrow>
          (case addNetworkCounter (OutBytes t) outOctets of
             None \<Rightarrow> None
           | Some k \<Rightarrow> Some \<lparr>InBytes = i, OutBytes = k, SourceNames = SourceNames t @ [''if:'' @ Itoa (uint index)]\<rparr>))"

datatype windows_error = WindowsOverflow | BadAdapterBuffer "32 word" | AdapterError | RowError | ProcMissing | TableError ip_table_error

fun if_table_loop :: "string list \<Rightarrow> MibIfRow2 list \<Rightarrow> networkTotals \<Rightarrow> windows_error + networkTotals" where
  "if_table_loop allowlist [] t = Inr t"
| "if_table_loop allowlist (row # rows) t =
     (if \<not> includeWindowsNetworkRow row allowlist then if_table_loop allowlist rows t
      else case add_row (r2_InterfaceIndex row) (r2_InOctets row) (r2_OutOctets row) t of
        None \<Rightarrow> Inl WindowsOverflow
      | Some t1 \<Rightarrow> if_table_loop allowlist rows t1)"

text \<open>The legacy adapters: \<open>GetIfEntry\<close> may fail for each.\<close>

fun adapter_loop :: "string list \<Rightarrow> MibIfRow option list \<Rightarrow> networkTotals \<Rightarrow> windows_error + networkTotals" where
  "adapter_loop allowlist [] t = Inr t"
| "adapter_loop allowlist (None # rows) t = Inl RowError"
| "adapter_loop allowlist (Some row # rows) t =
     (if \<not> includeWindowsLegacyNetworkRow row allowlist then adapter_loop allowlist rows t
      else case add_row (r1_Index row) (ucast (r1_InOctets row)) (ucast (r1_OutOctets row)) t of
        None \<Rightarrow> Inl WindowsOverflow
      | Some t1 \<Rightarrow> adapter_loop allowlist rows t1)"

datatype adapters_answer = BufferOverflow "32 word" | AdaptersFailed | Adapters "MibIfRow option list"

text \<open>The answers to the first and to the second call of \<open>GetAdaptersInfo\<close>.\<close>

definition windowsNetworkTotalsLegacy ::
  "adapters_answer \<Rightarrow> adapters_answer \<Rightarrow> string list \<Rightarrow> windows_error + networkTotals" where
  "windowsNetworkTotalsLegacy first second allowlist =
     (case first of
        BufferOverflow n \<Rightarrow>
          if n = 0 \<or> n > windowsIPTableMaxBufferBytes then Inl (BadAdapterBuffer n)
          else (case second of Adapters rows \<Rightarrow> adapter_loop allowlist rows no_totals | _ \<Rightarrow> Inl AdapterError)
      | AdaptersFailed \<Rightarrow> Inl AdapterError
      | Adapters rows \<Rightarrow> adapter_loop allowlist rows no_totals)"

definition windowsNetworkTotals ::
  "MibIfRow2 list option \<Rightarrow> adapters_answer \<Rightarrow> adapters_answer \<Rightarrow> string list \<Rightarrow> windows_error + networkTotals" where
  "windowsNetworkTotals table first second allowlist =
     (case table of
        None \<Rightarrow> windowsNetworkTotalsLegacy first second allowlist
      | Some rows \<Rightarrow> if_table_loop allowlist rows no_totals)"

subsection \<open>Connections, CPU, memory, uptime\<close>

text \<open>\<open>None\<close>: the procedure is not in the library.\<close>

definition windowsIPTableCount :: "ip_query option \<Rightarrow> windows_error + int" where
  "windowsIPTableCount proc =
     (case proc of
        None \<Rightarrow> Inl ProcMissing
      | Some query \<Rightarrow> map_sum TableError id (fst (windowsIPTableCountWithQuery query)))"

definition ipv6_count :: "windows_error + int \<Rightarrow> windows_error + int" where
  "ipv6_count r =
     (case r of
        Inl (TableError e) \<Rightarrow> if windowsIPFamilyUnavailable e then Inr 0 else r
      | _ \<Rightarrow> r)"

definition windowsConnectionCounts ::
  "ip_query option \<Rightarrow> ip_query option \<Rightarrow> ip_query option \<Rightarrow> ip_query option \<Rightarrow> windows_error + int \<times> int" where
  "windowsConnectionCounts tcp4 tcp6 udp4 udp6 =
     (case windowsIPTableCount tcp4 of
        Inl e \<Rightarrow> Inl e
      | Inr a \<Rightarrow>
          (case ipv6_count (windowsIPTableCount tcp6) of
             Inl e \<Rightarrow> Inl e
           | Inr b \<Rightarrow>
               (case windowsIPTableCount udp4 of
                  Inl e \<Rightarrow> Inl e
                | Inr c \<Rightarrow>
                    (case ipv6_count (windowsIPTableCount udp6) of
                       Inl e \<Rightarrow> Inl e
                     | Inr d \<Rightarrow> Inr (wrap64 (a + b), wrap64 (c + d))))))"

record filetime =
  LowDateTime :: "32 word"
  HighDateTime :: "32 word"

definition filetimeUint64 :: "filetime \<Rightarrow> 64 word" where
  "filetimeUint64 v = push_bit 32 (ucast (HighDateTime v)) OR ucast (LowDateTime v)"

definition windowsReadCPUTimes :: "(filetime \<times> filetime \<times> filetime) option \<Rightarrow> cpuTimes option" where
  "windowsReadCPUTimes answer =
     (case answer of
        None \<Rightarrow> None
      | Some (idle, sys, usr) \<Rightarrow>
          Some \<lparr>Total = filetimeUint64 sys + filetimeUint64 usr, Idle = filetimeUint64 idle\<rparr>)"

record memoryStatusEx =
  TotalPhys :: "64 word"
  AvailPhys :: "64 word"
  TotalPageFile :: "64 word"
  AvailPageFile :: "64 word"

definition windows_platformMemoryTotals :: "memoryStatusEx option \<Rightarrow> int \<times> int" where
  "windows_platformMemoryTotals status =
     (case status of None \<Rightarrow> (0, 0) | Some s \<Rightarrow> (sint (TotalPhys s), sint (AvailPhys s)))"

definition windows_platformSwapTotals :: "memoryStatusEx option \<Rightarrow> int \<times> int" where
  "windows_platformSwapTotals status =
     (case status of
        None \<Rightarrow> (0, 0)
      | Some s \<Rightarrow> windowsPagefileSwapTotals (TotalPageFile s) (AvailPageFile s) (TotalPhys s) (AvailPhys s))"

definition windowsUptimeSeconds :: "64 word \<Rightarrow> int" where
  "windowsUptimeSeconds milliseconds = (if milliseconds = 0 then 0 else sint (milliseconds div 1000))"

definition windowsBootTime :: "64 word \<Rightarrow> instant \<Rightarrow> int" where
  "windowsBootTime milliseconds now =
     (let uptime = windowsUptimeSeconds milliseconds in if uptime \<le> 0 then 0 else wrap64 (Unix now - uptime))"

text \<open>
  \<open>windowsProcessCount\<close> walks a snapshot: \<open>Process32First\<close> gives the first entry or fails on an empty snapshot, and
  \<open>Process32Next\<close> fails after the last one. \<open>None\<close> is a snapshot that could not be taken.
\<close>

fun process_loop :: "int \<Rightarrow> 'p \<Rightarrow> 'p list \<Rightarrow> int" where
  "process_loop n entry [] = n + 1"
| "process_loop n entry (p # ps) = process_loop (n + 1) p ps"

definition windowsProcessCount :: "'p list option \<Rightarrow> int" where
  "windowsProcessCount snapshot =
     (case snapshot of
        None \<Rightarrow> 0
      | Some [] \<Rightarrow> 0
      | Some (entry # rest) \<Rightarrow> process_loop 0 entry rest)"

subsection \<open>Disks\<close>

record drive_env =
  wd_mask :: "32 word"                                  \<comment> \<open>\<open>GetLogicalDrives\<close>\<close>
  wd_fixed :: "string \<Rightarrow> bool"                          \<comment> \<open>\<open>GetDriveType\<close> is \<open>driveFixed\<close>\<close>
  wd_space :: "string \<Rightarrow> (64 word \<times> 64 word) option"    \<comment> \<open>total and total free bytes\<close>
  wd_SystemDrive :: string

text \<open>\<open>strings.ToUpper\<close> of one byte: a byte that is not ASCII is no valid text and becomes U+FFFD.\<close>

definition ToUpper_byte :: "char \<Rightarrow> string" where
  "ToUpper_byte c = (if (of_char c :: nat) < 128 then [ascii_upper c] else [CHR 0xEF, CHR 0xBF, CHR 0xBD])"

definition drive_root :: "string \<Rightarrow> string option" where
  "drive_root text = (case text of a # CHR '':'' # rest \<Rightarrow> Some (ToUpper_byte a @ '':'' @ [CHR 0x5C]) | _ \<Rightarrow> None)"

definition windowsVolumeRoot :: "drive_env \<Rightarrow> string \<Rightarrow> string" where
  "windowsVolumeRoot env path =
     (case drive_root (TrimSpace path) of
        Some vol \<Rightarrow> vol
      | None \<Rightarrow>
          (case drive_root (TrimSpace (wd_SystemDrive env)) of Some vol \<Rightarrow> vol | None \<Rightarrow> ''C:'' @ [CHR 0x5C]))"

text \<open>A vol_root with a NUL byte has no UTF-16 form.\<close>

definition diskUsageForRoot :: "drive_env \<Rightarrow> string \<Rightarrow> int \<times> int" where
  "diskUsageForRoot env vol_root =
     (if CHR 0x00 \<in> set vol_root then (0, 0)
      else case wd_space env vol_root of
        None \<Rightarrow> (0, 0)
      | Some (totalBytes, totalFree) \<Rightarrow> (nonNegativeInt64 (sint (totalBytes - totalFree)), sint totalBytes))"

definition add_drive :: "int \<times> int \<Rightarrow> int \<times> int \<Rightarrow> int \<times> int" where
  "add_drive acc x = (wrap64 (fst acc + fst x), wrap64 (snd acc + snd x))"

definition letter_root :: "nat \<Rightarrow> string" where
  "letter_root index = [char_of (65 + index), CHR '':'', CHR 0x5C]"

fun fixed_loop :: "drive_env \<Rightarrow> nat list \<Rightarrow> int \<times> int \<Rightarrow> int \<times> int" where
  "fixed_loop env [] acc = acc"
| "fixed_loop env (index # rest) acc =
     (if \<not> bit (wd_mask env) index \<or> \<not> wd_fixed env (letter_root index) then fixed_loop env rest acc
      else fixed_loop env rest (add_drive acc (diskUsageForRoot env (letter_root index))))"

definition fixedDiskUsage :: "drive_env \<Rightarrow> int \<times> int" where
  "fixedDiskUsage env =
     (let (used, all) = fixed_loop env [0..<26] (0, 0) in
      if all > 0 then (used, all) else diskUsageForRoot env (windowsVolumeRoot env (wd_SystemDrive env)))"

fun volume_loop :: "drive_env \<Rightarrow> string list \<Rightarrow> string list \<Rightarrow> int \<times> int \<Rightarrow> int \<times> int" where
  "volume_loop env seen [] acc = acc"
| "volume_loop env seen (path # rest) acc =
     (let vol_root = windowsVolumeRoot env path in
      if vol_root \<in> set seen then volume_loop env seen rest acc
      else volume_loop env (vol_root # seen) rest (add_drive acc (diskUsageForRoot env vol_root)))"

definition windows_diskUsage :: "drive_env \<Rightarrow> string list \<Rightarrow> int \<times> int" where
  "windows_diskUsage env allowlist =
     (if allowlist = [] then fixedDiskUsage env else volume_loop env [] (normalizeAllowlist allowlist) (0, 0))"

subsection \<open>Registry texts\<close>

text \<open>A key is what its values are, or \<open>None\<close> if it cannot be opened.\<close>

definition registryString :: "(string \<Rightarrow> string option) \<Rightarrow> string \<Rightarrow> string" where
  "registryString key name = (case key name of None \<Rightarrow> [] | Some v \<Rightarrow> TrimSpace v)"

definition nonEmptyStrings :: "string list \<Rightarrow> string list" where
  "nonEmptyStrings values = filter (\<lambda>v. v \<noteq> []) (map TrimSpace values)"

definition windowsOSRelease :: "(string \<Rightarrow> string option) option \<Rightarrow> string \<times> string" where
  "windowsOSRelease current =
     (case current of
        None \<Rightarrow> (''Windows'', [])
      | Some key \<Rightarrow>
          let product = registryString key ''ProductName''; display = registryString key ''DisplayVersion''
          in (if product = [] then ''Windows'' else product, if display = [] then registryString key ''ReleaseId'' else display))"

definition windowsKernelRelease :: "(string \<Rightarrow> string option) option \<Rightarrow> 64 word \<Rightarrow> string" where
  "windowsKernelRelease current ubr =
     (case current of
        None \<Rightarrow> []
      | Some key \<Rightarrow>
          let build = registryString key ''CurrentBuildNumber'' in
          if build = [] then [] else if ubr > 0 then ''build '' @ build @ ''.'' @ Itoa (uint ubr) else ''build '' @ build)"

definition windowsVirtualizationName :: "(string \<Rightarrow> string option) option \<Rightarrow> string" where
  "windowsVirtualizationName bios =
     (case bios of
        None \<Rightarrow> []
      | Some key \<Rightarrow> TrimSpace (Join (nonEmptyStrings [registryString key ''SystemManufacturer'', registryString key ''SystemProductName'']) '' ''))"

definition windowsCPUModel :: "(string \<Rightarrow> string option) option \<Rightarrow> string" where
  "windowsCPUModel processor = (case processor of None \<Rightarrow> [] | Some key \<Rightarrow> registryString key ''ProcessorNameString'')"

subsection \<open>Sums over rows\<close>

definition counted_rows :: "string list \<Rightarrow> MibIfRow2 list \<Rightarrow> MibIfRow2 list" where
  "counted_rows allowlist rows = filter (\<lambda>row. includeWindowsNetworkRow row allowlist) rows"

lemma addNetworkCounter_eq:
  assumes "0 \<le> n" "n \<le> maxInt64"
  shows "addNetworkCounter n v = (if n + uint v \<le> maxInt64 then Some (n + uint v) else None)"
proof -
  have nn: "0 \<le> n + uint v" by (rule add_nonneg_nonneg [OF assms(1) uint_nonnegative])
  have w: "wrap64 (maxInt64 - n) = maxInt64 - n" using assms by (intro wrap64_id) (simp add: fits64_def minInt64_def maxInt64_def)
  have "wrap64 (n + uint v) = n + uint v" if "n + uint v \<le> maxInt64"
    using that nn by (intro wrap64_id) (simp add: fits64_def minInt64_def)
  then show ?thesis using assms w by (auto simp: addNetworkCounter_def)
qed

lemma add_row_eq:
  assumes "totals_ok t"
  shows "add_row index i k t =
    (if InBytes t + uint i \<le> maxInt64 \<and> OutBytes t + uint k \<le> maxInt64
     then Some \<lparr>InBytes = InBytes t + uint i, OutBytes = OutBytes t + uint k, SourceNames = SourceNames t @ [''if:'' @ Itoa (uint index)]\<rparr>
     else None)"
  using assms by (auto simp: add_row_def totals_ok_def addNetworkCounter_eq)

definition octets :: "(MibIfRow2 \<Rightarrow> 64 word) \<Rightarrow> MibIfRow2 list \<Rightarrow> int" where
  "octets f rows = sum_list (map (\<lambda>row. uint (f row)) rows)"

lemma octets_nonneg [simp]: "0 \<le> octets f rows"
  unfolding octets_def by (intro sum_list_nonneg) auto

lemma octets_Cons [simp]: "octets f [] = 0" "octets f (row # rows) = uint (f row) + octets f rows"
  by (simp_all add: octets_def)

lemma if_table_loop_iff:
  assumes "totals_ok t"
  shows "if_table_loop allowlist rows t =
    (let counted = counted_rows allowlist rows in
     if InBytes t + octets r2_InOctets counted \<le> maxInt64 \<and> OutBytes t + octets r2_OutOctets counted \<le> maxInt64
     then Inr \<lparr>InBytes = InBytes t + octets r2_InOctets counted, OutBytes = OutBytes t + octets r2_OutOctets counted,
       SourceNames = SourceNames t @ map (\<lambda>row. ''if:'' @ Itoa (uint (r2_InterfaceIndex row))) counted\<rparr>
     else Inl WindowsOverflow)"
  using assms
proof (induction rows arbitrary: t)
  case Nil
  then show ?case by (simp add: counted_rows_def totals_ok_def)
next
  case (Cons row rows)
  show ?case
  proof (cases "includeWindowsNetworkRow row allowlist")
    case False
    then show ?thesis using Cons by (simp add: counted_rows_def)
  next
    case True
    have c: "counted_rows allowlist (row # rows) = row # counted_rows allowlist rows" using True by (simp add: counted_rows_def)
    let ?i = "InBytes t + uint (r2_InOctets row)" and ?o = "OutBytes t + uint (r2_OutOctets row)"
    let ?t = "\<lparr>InBytes = ?i, OutBytes = ?o, SourceNames = SourceNames t @ [''if:'' @ Itoa (uint (r2_InterfaceIndex row))]\<rparr>"
    show ?thesis
    proof (cases "?i \<le> maxInt64 \<and> ?o \<le> maxInt64")
      case fits: True
      then have "totals_ok ?t" using Cons.prems by (simp add: totals_ok_def add_nonneg_nonneg)
      from Cons.IH [OF this] show ?thesis using True fits add_row_eq [OF Cons.prems] by (simp add: c Let_def add.assoc)
    next
      case False
      then have "\<not> (InBytes t + octets r2_InOctets (row # counted_rows allowlist rows) \<le> maxInt64 \<and>
          OutBytes t + octets r2_OutOctets (row # counted_rows allowlist rows) \<le> maxInt64)"
        using octets_nonneg [of r2_InOctets "counted_rows allowlist rows"] octets_nonneg [of r2_OutOctets "counted_rows allowlist rows"]
        by (simp only: octets_Cons) linarith
      moreover have "add_row (r2_InterfaceIndex row) (r2_InOctets row) (r2_OutOctets row) t = None"
        using False unfolding add_row_eq [OF Cons.prems] by (rule if_not_P)
      ultimately show ?thesis using True by (simp only: c Let_def if_table_loop.simps) simp
    qed
  qed
qed

subsection \<open>Properties\<close>

text \<open>The Windows network totals are exact: they are the sums of the counters of the counted interfaces, each
  below \<open>2 ^ 63\<close>, with one source name per interface in table order, and the reader fails exactly when a sum does not
  fit in an int64.\<close>

theorem windows_totals_exact:
  "windowsNetworkTotals (Some rows) first second allowlist =
    (let counted = counted_rows allowlist rows in
     if octets r2_InOctets counted \<le> maxInt64 \<and> octets r2_OutOctets counted \<le> maxInt64
     then Inr \<lparr>InBytes = octets r2_InOctets counted, OutBytes = octets r2_OutOctets counted,
       SourceNames = map (\<lambda>row. ''if:'' @ Itoa (uint (r2_InterfaceIndex row))) counted\<rparr>
     else Inl WindowsOverflow)"
proof -
  have ok: "totals_ok no_totals" by (simp add: totals_ok_def no_totals_def maxInt64_def)
  have z: "InBytes no_totals = 0" "OutBytes no_totals = 0" "SourceNames no_totals = []" by (simp_all add: no_totals_def)
  show ?thesis by (simp add: windowsNetworkTotals_def if_table_loop_iff [OF ok] z Let_def)
qed

lemma process_loop_eq: "process_loop n p ps = n + 1 + int (length ps)"
  by (induction n p ps rule: process_loop.induct) simp_all

text \<open>The process count is the number of processes of the snapshot, zero when there is no snapshot.\<close>

theorem windows_process_count: "windowsProcessCount snapshot = (case snapshot of None \<Rightarrow> 0 | Some ps \<Rightarrow> int (length ps))"
  by (simp add: windowsProcessCount_def process_loop_eq split: option.split list.split)

text \<open>A file time is its two halves side by side.\<close>

theorem filetime_value: "uint (filetimeUint64 v) = uint (HighDateTime v) * 2 ^ 32 + uint (LowDateTime v)"
proof -
  have lo: "take_bit 32 (uint (LowDateTime v)) = uint (LowDateTime v)" "take_bit 64 (uint (LowDateTime v)) = uint (LowDateTime v)"
    using uint_lt2p [of "LowDateTime v"] by (simp_all add: take_bit_int_eq_self)
  have hi: "take_bit 64 (push_bit 32 (uint (HighDateTime v))) = push_bit 32 (uint (HighDateTime v))"
    using uint_lt2p [of "HighDateTime v"] by (simp add: push_bit_eq_mult take_bit_int_eq_self)
  have hi': "take_bit 64 (uint (HighDateTime v)) = uint (HighDateTime v)"
    using uint_lt2p [of "HighDateTime v"] by (simp add: take_bit_int_eq_self)
  have "uint (filetimeUint64 v) = push_bit 32 (uint (HighDateTime v)) OR take_bit 32 (uint (LowDateTime v))"
    by (simp add: filetimeUint64_def unsigned_or_eq unsigned_push_bit_eq unsigned_ucast_eq lo hi hi')
  also have "\<dots> = push_bit 32 (uint (HighDateTime v)) + take_bit 32 (uint (LowDateTime v))"
    using concat_bit_eq [of 32 "uint (LowDateTime v)" "uint (HighDateTime v)"] by (simp add: concat_bit_def or.commute add.commute)
  finally show ?thesis by (simp add: lo push_bit_eq_mult)
qed

end
