(* ===== verification/Darwin_Metrics.thy ===== *)
theory Darwin_Metrics
  imports Darwin_Parse Windows_Metrics
begin

text \<open>
  The macOS readers (\<open>internal/agent/platform_darwin_metrics.go\<close>, \<open>memory_darwin.go\<close>,
  \<open>disk_usage_darwin.go\<close>): what they make of command output, sysctl values and \<open>statfs\<close>, which are
  arguments. The tables of \<open>netstat\<close> are read line by line while the command runs; that agrees with the
  parsers of whole outputs.
\<close>

definition darwinMetricsCommandTimeout :: duration where "darwinMetricsCommandTimeout = 2 * Second"
definition darwinMetricsMaxOutputBytes :: int where "darwinMetricsMaxOutputBytes = 65536"
definition darwinMetricsMaxLines :: int where "darwinMetricsMaxLines = 1048576"
definition darwinMetricsMaxLineBytes :: int where "darwinMetricsMaxLineBytes = 1048576"

text \<open>A command without line limits: the chunks it wrote, whether it missed its deadline, whether it failed.\<close>

record command_answer =
  ca_chunks :: "string list"
  ca_deadline :: bool
  ca_fails :: bool

definition darwinCommandOutput :: "command_answer \<Rightarrow> string option" where
  "darwinCommandOutput a =
     (case darwinCommandOutputWithLimits darwinMetricsCommandTimeout darwinMetricsMaxOutputBytes (ca_chunks a) (ca_deadline a) (ca_fails a) of
        Inl _ \<Rightarrow> None | Inr output \<Rightarrow> Some output)"

subsection \<open>CPU, tables and texts\<close>

text \<open>\<open>kern.cp_time\<close> first, then \<open>kern.cp_times\<close>.\<close>

fun darwinReadCPUTimes :: "command_answer list \<Rightarrow> cpuTimes option" where
  "darwinReadCPUTimes [] = None"
| "darwinReadCPUTimes (a # rest) =
     (case darwinCommandOutput a of
        None \<Rightarrow> darwinReadCPUTimes rest
      | Some output \<Rightarrow> (case parseDarwinCPUTimes output of Some t \<Rightarrow> Some t | None \<Rightarrow> darwinReadCPUTimes rest))"

definition scan_lines :: "(string \<Rightarrow> 's \<Rightarrow> (metrics_error + unit) \<times> 's) \<Rightarrow> command_run \<Rightarrow> 's \<Rightarrow> command_error option \<times> 's" where
  "scan_lines = darwinCommandScanLinesWithLimits darwinMetricsCommandTimeout darwinMetricsMaxLines darwinMetricsMaxLineBytes"

definition darwinConnectionCounts :: "command_run \<Rightarrow> command_error + int \<times> int" where
  "darwinConnectionCounts cmd =
     (case scan_lines (\<lambda>line p. (Inr (), dc_consume line p)) cmd \<lparr>dc_tcp = 0, dc_udp = 0, dc_foundHeader = False\<rparr> of
        (Some e, p) \<Rightarrow> Inl e
      | (None, p) \<Rightarrow> map_sum ParserError id (dc_result p))"

definition darwinNetworkTotals :: "command_run \<Rightarrow> string list \<Rightarrow> command_error + networkTotals" where
  "darwinNetworkTotals cmd allowlist =
     (case scan_lines dn_consume cmd (newDarwinNetworkParser allowlist) of
        (Some e, p) \<Rightarrow> Inl e
      | (None, p) \<Rightarrow> map_sum ParserError id (dn_result p))"

definition darwinProcessCount :: "nat option \<Rightarrow> int" where
  "darwinProcessCount processes = (case processes of None \<Rightarrow> 0 | Some n \<Rightarrow> int n)"

definition darwinOSRelease :: "command_answer \<Rightarrow> string \<times> string" where
  "darwinOSRelease a = (case darwinCommandOutput a of None \<Rightarrow> (''macos'', []) | Some output \<Rightarrow> (''macos'', TrimSpace output))"

definition darwin_sysctl_text :: "string option \<Rightarrow> string" where
  "darwin_sysctl_text v = (case v of None \<Rightarrow> [] | Some text \<Rightarrow> TrimSpace text)"

definition darwinKernelRelease :: "string option \<Rightarrow> string" where
  "darwinKernelRelease osrelease = darwin_sysctl_text osrelease"

definition darwinVirtualizationName :: "string option \<Rightarrow> string" where
  "darwinVirtualizationName model = darwin_sysctl_text model"

text \<open>\<open>machdep.cpu.brand_string\<close> first, then \<open>hw.model\<close>.\<close>

fun darwinCPUModel :: "string option list \<Rightarrow> string" where
  "darwinCPUModel [] = []"
| "darwinCPUModel (v # rest) = (if darwin_sysctl_text v \<noteq> [] then darwin_sysctl_text v else darwinCPUModel rest)"

definition darwinBootTime :: "int option \<Rightarrow> int" where
  "darwinBootTime boottime = (case boottime of None \<Rightarrow> 0 | Some sec \<Rightarrow> sec)"

definition darwinUptimeSeconds :: "int option \<Rightarrow> instant \<Rightarrow> int" where
  "darwinUptimeSeconds boottime now =
     (let boot = darwinBootTime boottime in if boot \<le> 0 then 0 else nonNegativeInt64 (wrap64 (Unix now - boot)))"

subsection \<open>Memory\<close>

text \<open>The match of \<open>page size of (\d+) bytes\<close>: the digits of the leftmost one.\<close>

fun find_page_size :: "string \<Rightarrow> string option" where
  "find_page_size [] = None"
| "find_page_size (c # s) =
     (let text = c # s; rest = drop 13 text; ds = takeWhile is_digit rest in
      if HasPrefix text ''page size of '' \<and> ds \<noteq> [] \<and> HasPrefix (drop (length ds) rest) '' bytes'' then Some ds
      else find_page_size s)"

definition vm_page_size :: "string \<Rightarrow> int" where
  "vm_page_size output =
     (case find_page_size output of
        None \<Rightarrow> 4096
      | Some ds \<Rightarrow> (case ParseInt ds of None \<Rightarrow> 4096 | Some v \<Rightarrow> if v > 0 then v else 4096))"

fun vm_pages :: "string list \<Rightarrow> int \<Rightarrow> int" where
  "vm_pages [] pages = pages"
| "vm_pages (line # ls) pages =
     (case Cut line '':'' of
        None \<Rightarrow> vm_pages ls pages
      | Some (name, v) \<Rightarrow>
          if TrimSpace name \<notin> {''Pages free'', ''Pages inactive'', ''Pages speculative''} then vm_pages ls pages
          else (case ParseInt (filter (\<lambda>ch. ch \<noteq> CHR ''.'') (Trim (TrimSpace v) ''.'')) of
                  None \<Rightarrow> vm_pages ls pages
                | Some count \<Rightarrow> vm_pages ls (if count > 0 then wrap64 (pages + count) else pages)))"

definition darwinAvailableMemoryFromVMStat :: "command_answer \<Rightarrow> int" where
  "darwinAvailableMemoryFromVMStat a =
     (case darwinCommandOutput a of
        None \<Rightarrow> 0
      | Some output \<Rightarrow> wrap64 (vm_pages (split_at (CHR 0x0A) output) 0 * vm_page_size output))"

record darwin_memory =
  dm_memsize :: "64 word option"
  dm_pagesize :: "64 word option"
  dm_free :: "64 word option"
  dm_inactive :: "64 word option"
  dm_speculative :: "64 word option"
  dm_vm_stat :: command_answer

definition darwinPageCount :: "64 word option \<Rightarrow> 64 word \<times> bool" where
  "darwinPageCount v = (case v of None \<Rightarrow> (0, False) | Some n \<Rightarrow> (n, True))"

definition darwinAvailableMemory :: "darwin_memory \<Rightarrow> int" where
  "darwinAvailableMemory m =
     (let size0 = (case dm_pagesize m of None \<Rightarrow> 0 | Some n \<Rightarrow> n); pageSize = (if size0 = 0 then 4096 else size0);
          (free, freeOK) = darwinPageCount (dm_free m);
          (inactive, inactiveOK) = darwinPageCount (dm_inactive m);
          (speculative, speculativeOK) = darwinPageCount (dm_speculative m)
      in if freeOK \<or> inactiveOK \<or> speculativeOK then sint ((free + inactive + speculative) * pageSize)
         else darwinAvailableMemoryFromVMStat (dm_vm_stat m))"

definition darwin_platformMemoryTotals :: "darwin_memory \<Rightarrow> int \<times> int" where
  "darwin_platformMemoryTotals m =
     (case dm_memsize m of
        None \<Rightarrow> (0, 0)
      | Some totalBytes \<Rightarrow>
          if totalBytes = 0 then (0, 0)
          else
            let available0 = darwinAvailableMemory m; available1 = (if available0 < 0 then 0 else available0)
            in (sint totalBytes, if available1 > sint totalBytes then sint totalBytes else available1))"

definition unitMultiplier :: "string \<Rightarrow> int" where
  "unitMultiplier u =
     (let v = ToUpper u in
      if v = ''K'' then 1024 else if v = ''M'' then 1024 ^ 2 else if v = ''G'' then 1024 ^ 3
      else if v = ''T'' then 1024 ^ 4 else if v = ''P'' then 1024 ^ 5 else 1)"

subsection \<open>Disks\<close>

text \<open>\<open>statfs\<close>: blocks, block size, free blocks.\<close>

definition darwin_diskUsageForPath :: "(string \<Rightarrow> (64 word \<times> 32 word \<times> 64 word) option) \<Rightarrow> string \<Rightarrow> int \<times> int" where
  "darwin_diskUsageForPath statfs path =
     (case statfs path of
        None \<Rightarrow> (0, 0)
      | Some (blocks, bsize, bfree) \<Rightarrow>
          let all = wrap64 (sint blocks * uint bsize); free = wrap64 (sint bfree * uint bsize)
          in (nonNegativeInt64 (wrap64 (all - free)), all))"

fun first_used :: "(string \<Rightarrow> (64 word \<times> 32 word \<times> 64 word) option) \<Rightarrow> string list \<Rightarrow> int \<times> int" where
  "first_used statfs [] = (0, 0)"
| "first_used statfs (p # ps) =
     (if snd (darwin_diskUsageForPath statfs p) > 0 then darwin_diskUsageForPath statfs p else first_used statfs ps)"

definition darwin_diskUsage :: "(string \<Rightarrow> (64 word \<times> 32 word \<times> 64 word) option) \<Rightarrow> string list \<Rightarrow> int \<times> int" where
  "darwin_diskUsage statfs allowlist =
     (if allowlist \<noteq> [] then foldl add_drive (0, 0) (map (darwin_diskUsageForPath statfs) (normalizeAllowlist allowlist))
      else first_used statfs [''/System/Volumes/Data'', ''/''])"

subsection \<open>Streaming and whole outputs\<close>

lemma ScanLines_larger:
  assumes "ScanLines limit content = (ls, False)" "limit \<le> limit'"
  shows "ScanLines limit' content = (ls, False)"
proof -
  let ?ls = "raw_lines (split_at (CHR 0x0A) content)"
  have len: "length (takeWhile (\<lambda>l. length l < limit) ?ls) = length ?ls" "ls = map dropCR (takeWhile (\<lambda>l. length l < limit) ?ls)"
    using assms(1) length_takeWhile_le [of "\<lambda>l. length l < limit" ?ls] by (auto simp: ScanLines_def Let_def)
  then have all: "\<forall>l\<in>set ?ls. length l < limit" by (metis append_Nil2 length_takeWhile_le nth_equalityI takeWhile_eq_take take_all_iff set_takeWhileD order_refl)
  then have tw: "takeWhile (\<lambda>l. length l < limit) ?ls = ?ls" "takeWhile (\<lambda>l. length l < limit') ?ls = ?ls"
    using assms(2) by (auto intro!: takeWhile_eq_all_conv [THEN iffD2])
  show ?thesis using len(2) by (simp only: ScanLines_def Let_def tw) simp
qed

lemma visit_dn_loop:
  "n + int (length ls) \<le> maxLines \<Longrightarrow>
   (case visit_lines dn_consume maxLines n ls p of (r, p') \<Rightarrow>
      case dn_loop ls p of Inl e \<Rightarrow> r = Some (ParserError e) | Inr q \<Rightarrow> r = None \<and> p' = q)"
proof (induction ls arbitrary: n p)
  case (Cons line ls)
  obtain r p1 where c: "dn_consume line p = (r, p1)" by fastforce
  show ?case using Cons.IH [of "n + 1" p1] Cons.prems by (cases r) (auto simp: c split: prod.splits sum.splits)
qed simp

lemma visit_dc:
  "n + int (length ls) \<le> maxLines \<Longrightarrow>
   visit_lines (\<lambda>line p. (Inr (), dc_consume line p)) maxLines n ls p = (None, fold dc_consume ls p)"
  by (induction ls arbitrary: n p) simp_all

subsection \<open>Properties\<close>

text \<open>Reading \<open>netstat\<close> line by line while it runs gives the same connection counts and interface totals, and the
  same parse errors, as parsing its whole output, whenever the command succeeds, no line reaches 64 KiB and there are at
  most \<open>2 ^ 20\<close> lines.\<close>

theorem darwin_stream_agrees:
  assumes "cr_piped cmd" "cr_started cmd" "\<not> cr_deadline cmd" "\<not> cr_fails cmd"
    and "ScanLines MaxScanTokenSize (cr_output cmd) = (ls, False)" "int (length ls) \<le> darwinMetricsMaxLines"
  shows "darwinNetworkTotals cmd allowlist = map_sum ParserError id (parseDarwinNetworkTotalsResult (cr_output cmd) allowlist) \<and>
    darwinConnectionCounts cmd = map_sum ParserError id (parseDarwinConnectionCountsResult (cr_output cmd))"
proof -
  have big: "ScanLines (nat (max darwinMetricsMaxLineBytes 65536)) (cr_output cmd) = (ls, False)"
    by (rule ScanLines_larger [OF assms(5)]) (simp add: MaxScanTokenSize_def darwinMetricsMaxLineBytes_def)
  have lim: "darwinMetricsCommandTimeout > 0" "darwinMetricsMaxLines > 0" "darwinMetricsMaxLineBytes > 0"
    by (simp_all add: darwinMetricsCommandTimeout_def darwinMetricsMaxLines_def darwinMetricsMaxLineBytes_def time_defs)
  obtain r p' where v: "visit_lines dn_consume darwinMetricsMaxLines 0 ls (newDarwinNetworkParser allowlist) = (r, p')" by fastforce
  have net: "darwinNetworkTotals cmd allowlist = map_sum ParserError id (parseDarwinNetworkTotalsResult (cr_output cmd) allowlist)"
    using visit_dn_loop [of 0 ls darwinMetricsMaxLines "newDarwinNetworkParser allowlist"] assms lim
    by (auto simp: darwinNetworkTotals_def scan_lines_def darwinCommandScanLinesWithLimits_def big v parseDarwinNetworkTotalsResult_def
        split: sum.splits)
  have conn: "darwinConnectionCounts cmd = map_sum ParserError id (parseDarwinConnectionCountsResult (cr_output cmd))"
    using assms lim
    by (simp add: darwinConnectionCounts_def scan_lines_def darwinCommandScanLinesWithLimits_def big visit_dc parseDarwinConnectionCountsResult_def Let_def)
  show ?thesis using net conn by blast
qed

definition example_netstat :: command_run where
  "example_netstat = \<lparr>cr_piped = True, cr_started = True, cr_output = ''Proto'', cr_deadline = False, cr_fails = False\<rparr>"

theorem darwin_stream_agrees_witness:
  "darwinConnectionCounts example_netstat = map_sum ParserError id (parseDarwinConnectionCountsResult ''Proto'')"
proof -
  have "ScanLines MaxScanTokenSize (cr_output example_netstat) = ([''Proto''], False)"
    by (simp add: ScanLines_def example_netstat_def MaxScanTokenSize_def dropCR_def)
  from darwin_stream_agrees [OF _ _ _ _ this, of "[]"] show ?thesis
    by (simp add: example_netstat_def darwinMetricsMaxLines_def)
qed

end
