(* ===== verification/Float_Readers.thy ===== *)
theory Float_Readers
  imports Ping_Latency Darwin_Metrics Windows_Metrics
begin

text \<open>
  The metrics that are printed as decimal numbers: load averages (\<open>readLoadAverages\<close> of \<open>metrics.go\<close>,
  \<open>parseDarwinLoadAverages\<close> of \<open>darwin_metrics_parse.go\<close>), the uptime (\<open>uptimeSeconds\<close>) and the swap usage of
  macOS (\<open>platformSwapTotals\<close> and \<open>parseDarwinSwapUsage\<close> of \<open>memory_darwin.go\<close>).
\<close>

section \<open>Load averages\<close>

text \<open>A Windows agent reports no load averages.\<close>

definition windowsLoadAverages :: "gofloat \<Rightarrow> int \<Rightarrow> gofloat \<times> gofloat \<times> gofloat" where
  "windowsLoadAverages cpuPercent cpuCores = (FloatFin 0, FloatFin 0, FloatFin 0)"

text \<open>The first three fields that parse, braces stripped; an output with fewer gives zeros.\<close>

fun darwin_load_fields :: "gofloat list \<Rightarrow> string list \<Rightarrow> gofloat \<times> gofloat \<times> gofloat" where
  "darwin_load_fields vs [] = (FloatFin 0, FloatFin 0, FloatFin 0)"
| "darwin_load_fields vs (f # fs) =
     (let vs' = (case ParseFloat (Trim f ''{}'') of (v, None) \<Rightarrow> vs @ [v] | _ \<Rightarrow> vs)
      in if length vs' = 3 then (vs' ! 0, vs' ! 1, vs' ! 2) else darwin_load_fields vs' fs)"

definition parseDarwinLoadAverages :: "string \<Rightarrow> gofloat \<times> gofloat \<times> gofloat" where
  "parseDarwinLoadAverages output = darwin_load_fields [] (Fields output)"

definition darwinLoadAverages :: "command_answer \<Rightarrow> gofloat \<times> gofloat \<times> gofloat" where
  "darwinLoadAverages sysctl =
     (case darwinCommandOutput sysctl of
        None \<Rightarrow> (FloatFin 0, FloatFin 0, FloatFin 0)
      | Some output \<Rightarrow> parseDarwinLoadAverages output)"

text \<open>The errors of \<open>ParseFloat\<close> are dropped here: what does not parse counts as zero.\<close>

definition readLoadAverages ::
  "string \<Rightarrow> command_answer \<Rightarrow> string option \<Rightarrow> gofloat \<Rightarrow> int \<Rightarrow> gofloat \<times> gofloat \<times> gofloat" where
  "readLoadAverages goos sysctl proc_loadavg cpuPercent cpuCores =
     (if goos = ''windows'' then windowsLoadAverages cpuPercent cpuCores
      else if goos = ''darwin'' then darwinLoadAverages sysctl
      else case proc_loadavg of
        None \<Rightarrow> (FloatFin 0, FloatFin 0, FloatFin 0)
      | Some content \<Rightarrow>
          (case Fields content of
             a # b # c # rest \<Rightarrow> (fst (ParseFloat a), fst (ParseFloat b), fst (ParseFloat c))
           | _ \<Rightarrow> (FloatFin 0, FloatFin 0, FloatFin 0)))"

section \<open>Uptime\<close>

definition uptimeSeconds ::
  "(gofloat \<Rightarrow> int) \<Rightarrow> string \<Rightarrow> 64 word \<Rightarrow> int option \<Rightarrow> instant \<Rightarrow> string option \<Rightarrow> int" where
  "uptimeSeconds implementation goos ticks boottime now proc_uptime =
     (if goos = ''windows'' then windowsUptimeSeconds ticks
      else if goos = ''darwin'' then darwinUptimeSeconds boottime now
      else case proc_uptime of
        None \<Rightarrow> 0
      | Some content \<Rightarrow>
          (case Fields content of
             [] \<Rightarrow> 0
           | f # _ \<Rightarrow>
               (case ParseFloat f of
                  (v, None) \<Rightarrow> int64_of_float implementation v
                | (v, Some e) \<Rightarrow> 0)))"

section \<open>Swap usage of macOS\<close>

text \<open>
  The matches of \<open>(total|free)\s*=\s*([0-9.]+)([KMGTP])\<close>, without overlap from the left: the name, the number,
  the unit and what follows. Again each part can only match in one way.
\<close>

definition swap_name :: "string \<Rightarrow> string option" where
  "swap_name text =
     (if HasPrefix text ''total'' then Some ''total'' else if HasPrefix text ''free'' then Some ''free'' else None)"

definition swap_at :: "string \<Rightarrow> (string \<times> string \<times> string \<times> string) option" where
  "swap_at text =
     (case swap_name text of
        None \<Rightarrow> None
      | Some name \<Rightarrow>
          (case dropWhile re_space (drop (length name) text) of
             [] \<Rightarrow> None
           | eq # t \<Rightarrow>
               let after = dropWhile re_space t; ds = takeWhile numeric after in
               if eq \<noteq> CHR ''='' \<or> ds = [] then None
               else (case dropWhile numeric after of
                       [] \<Rightarrow> None
                     | u # rest \<Rightarrow> if u \<in> set ''KMGTP'' then Some (name, ds, [u], rest) else None)))"

lemma swap_at_shorter: "swap_at text = Some (name, ds, u, rest) \<Longrightarrow> length rest < length text"
proof -
  assume m: "swap_at text = Some (name, ds, u, rest)"
  then obtain eq t where name: "swap_name text = Some name"
    and t: "dropWhile re_space (drop (length name) text) = eq # t"
    and rest: "\<exists>u. dropWhile numeric (dropWhile re_space t) = u # rest"
    by (auto simp: swap_at_def Let_def split: option.splits list.splits if_splits)
  have "length (eq # t) \<le> length text"
    using length_dropWhile_le [of re_space "drop (length name) text"] by (simp add: t)
  moreover have "length rest < length (dropWhile re_space t)"
    using rest length_dropWhile_le [of numeric "dropWhile re_space t"] by (auto simp: Suc_le_eq)
  moreover have "length (dropWhile re_space t) \<le> length t" by (rule length_dropWhile_le)
  ultimately show ?thesis by simp
qed

function swap_matches :: "string \<Rightarrow> (string \<times> string \<times> string) list" where
  "swap_matches text =
     (case text of
        [] \<Rightarrow> []
      | c # s \<Rightarrow>
          (case swap_at text of
             None \<Rightarrow> swap_matches s
           | Some (name, ds, u, rest) \<Rightarrow> (name, ds, u) # swap_matches rest))"
  by pat_completeness auto
termination
  by (relation "measure length") (auto dest: swap_at_shorter)

declare swap_matches.simps [simp del]

definition mult_float :: "gofloat \<Rightarrow> int \<Rightarrow> gofloat" where
  "mult_float f n =
     (case f of
        FloatFin q \<Rightarrow> round64 (q * of_int n)
      | FloatInf neg \<Rightarrow> if n = 0 then FloatNaN else FloatInf (neg \<noteq> (n < 0))
      | FloatNaN \<Rightarrow> FloatNaN)"

fun swap_totals :: "(gofloat \<Rightarrow> int) \<Rightarrow> int \<times> int \<Rightarrow> (string \<times> string \<times> string) list \<Rightarrow> int \<times> int" where
  "swap_totals implementation acc [] = acc"
| "swap_totals implementation (tot, free) ((name, ds, u) # ms) =
     (case ParseFloat ds of
        (v, Some e) \<Rightarrow> swap_totals implementation (tot, free) ms
      | (v, None) \<Rightarrow>
          let bytes = int64_of_float implementation (mult_float v (unitMultiplier u)) in
          swap_totals implementation (if name = ''total'' then (bytes, free) else if name = ''free'' then (tot, bytes) else (tot, free)) ms)"

definition parseDarwinSwapUsage :: "(gofloat \<Rightarrow> int) \<Rightarrow> string \<Rightarrow> int \<times> int" where
  "parseDarwinSwapUsage implementation output = swap_totals implementation (0, 0) (swap_matches output)"

definition darwin_platformSwapTotals :: "(gofloat \<Rightarrow> int) \<Rightarrow> command_answer \<Rightarrow> int \<times> int" where
  "darwin_platformSwapTotals implementation sysctl =
     (case darwinCommandOutput sysctl of
        None \<Rightarrow> (0, 0)
      | Some output \<Rightarrow> parseDarwinSwapUsage implementation output)"

section \<open>Numbers as the kernel prints them\<close>

lemma numeric_blank_free: "list_all numeric w \<Longrightarrow> blank_free w"
  by (auto simp: blank_free_def list_all_iff numeric_def is_digit_iff space_runes_def)

lemma fixed_numeric: "list_all is_digit a \<Longrightarrow> list_all is_digit b \<Longrightarrow> list_all numeric (a @ CHR ''.'' # b)"
  by (auto simp: list_all_iff numeric_def)

lemma Fields_fixed:
  assumes "list_all is_digit a" "list_all is_digit b"
  shows "Fields (a @ CHR ''.'' # b @ CHR '' '' # rest) = (a @ CHR ''.'' # b) # Fields rest"
  using Fields_word [OF numeric_blank_free [OF fixed_numeric [OF assms]], of rest] by simp

lemma digits_val_split: "digits_val (a @ b) = digits_val a * 10 ^ length b + digits_val b"
  using digits_val_acc [of "digits_val a" b] by (simp add: digits_val_def)

text \<open>Two digits after the point, below \<open>2 ^ 45\<close>: the integer part is exact.\<close>

lemma floor_two_digits:
  assumes "n < 2 ^ 45" "c < 100"
  shows "\<lfloor>on_grid (of_nat (n * 100 + c) / 100)\<rfloor> = int n"
proof (rule floor_on_grid [where k = 45])
  have "(of_nat c :: rat) \<le> of_nat 99" unfolding of_nat_le_iff using assms(2) by simp
  then have c: "(of_nat c :: rat) \<le> 99" by simp
  have "(of_nat (Suc n) :: rat) \<le> of_nat (2 ^ 45)" unfolding of_nat_le_iff using assms(1) by simp
  then have n: "(of_nat n :: rat) + 1 \<le> 2 ^ 45" by simp
  have q: "(of_nat (n * 100 + c) :: rat) / 100 = of_nat n + of_nat c / 100" by (simp add: add_divide_distrib)
  show "(of_nat (n * 100 + c) :: rat) / 100 < 2 powi 45" unfolding q using n c by simp
  show "of_int (int n) \<le> (of_nat (n * 100 + c) :: rat) / 100" unfolding q by simp
  show "(of_nat (n * 100 + c) :: rat) / 100 + 2 powi (45 - 54) < of_int (int n) + 1"
    unfolding q using c by (simp add: power_int_minus)
qed simp_all

text \<open>
  C37: On Linux the uptime reported is exactly the number of whole seconds that the kernel prints in front of
  the point of \<open>/proc/uptime\<close> (two digits follow it): the detour over \<open>float64\<close> loses nothing below \<open>2 ^ 45\<close>
  seconds.
\<close>

theorem uptime_exact:
  assumes "goos \<noteq> ''windows''" "goos \<noteq> ''darwin''" "n < 2 ^ 45" "list_all is_digit b" "length b = 2"
  shows "uptimeSeconds implementation goos ticks boottime now (Some (dec_digits n @ ''.'' @ b @ '' '' @ rest)) = int n"
proof -
  let ?q = "of_nat (n * 100 + digits_val b) / 100 :: rat"
  have b: "digits_val b < 100" using digits_val_less [OF assms(4)] assms(5) by simp
  have val: "digits_val (dec_digits n @ b) = n * 100 + digits_val b" by (simp add: digits_val_split assms(5))
  have "n * 100 + digits_val b < 2 ^ 100" using assms(3) b by simp
  then have parse: "ParseFloat (dec_digits n @ CHR ''.'' # b) = (FloatFin (on_grid ?q), None)"
    using ParseFloat_decimal [of "dec_digits n" b] assms(4,5) by (simp add: val)
  have fl: "\<lfloor>on_grid ?q\<rfloor> = int n" using assms(3) b by (rule floor_two_digits)
  have "0 \<le> on_grid ?q" by (intro on_grid_sign) simp
  moreover have "fits64 (int n)" using assms(3) by (simp add: fits64_def minInt64_def maxInt64_def)
  ultimately have "int64_of_float implementation (FloatFin (on_grid ?q)) = int n"
    using fl by (simp add: int64_of_float_def)
  then show ?thesis
    using assms(1,2) Fields_fixed [OF is_digit_dec assms(4), of n rest] parse by (simp add: uptimeSeconds_def)
qed

theorem uptime_exact_witness:
  "uptimeSeconds (\<lambda>_. 0) ''linux'' 0 None 0 (Some (dec_digits 350735 @ ''.'' @ ''47'' @ '' '' @ ''234388.90'')) = 350735"
  using uptime_exact [of "''linux''" 350735 "''47''" "\<lambda>_. 0" 0 None 0 "''234388.90''"] by (simp add: is_digit_iff)

subsection \<open>Load averages\<close>

text \<open>A number with a point, and the \<open>float64\<close> it is read as.\<close>

definition fixed_text :: "string \<times> string \<Rightarrow> string" where
  "fixed_text = (\<lambda>(a, b). a @ CHR ''.'' # b)"

definition fixed_ok :: "string \<times> string \<Rightarrow> bool" where
  "fixed_ok = (\<lambda>(a, b). list_all is_digit a \<and> a \<noteq> [] \<and> list_all is_digit b \<and> digits_val (a @ b) < 2 ^ 100)"

definition fixed_value :: "string \<times> string \<Rightarrow> rat" where
  "fixed_value = (\<lambda>(a, b). of_nat (digits_val (a @ b)) / 10 ^ length b)"

lemma fixed_parse: "fixed_ok x \<Longrightarrow> ParseFloat (fixed_text x) = (FloatFin (on_grid (fixed_value x)), None)"
  using ParseFloat_decimal by (auto simp: fixed_ok_def fixed_text_def fixed_value_def)

lemma fixed_field: "fixed_ok x \<Longrightarrow> blank_free (fixed_text x) \<and> fixed_text x \<noteq> []"
  using numeric_blank_free [OF fixed_numeric] by (auto simp: fixed_ok_def fixed_text_def)

lemma fixed_Trim: "fixed_ok x \<Longrightarrow> Trim (fixed_text x) ''{}'' = fixed_text x"
proof -
  assume "fixed_ok x"
  then have "list_all numeric (fixed_text x)" by (auto simp: fixed_ok_def fixed_text_def list_all_iff numeric_def)
  then have none: "\<forall>c\<in>set (fixed_text x). c \<notin> set ''{}''" by (auto simp: list_all_iff numeric_def is_digit_iff)
  have keep: "dropWhile (\<lambda>c. c \<in> set ''{}'') w = w" if "\<forall>c\<in>set w. c \<notin> set ''{}''" for w :: string
    using that by (cases w) auto
  show ?thesis unfolding Trim_def using keep [OF none] keep [of "rev (fixed_text x)"] none by simp
qed

lemma brace_no_number: "snd (ParseFloat []) = Some ErrSyntax"
  by (simp add: ParseFloat_def special_def drop_sign_def readFloat_def hex_prefixed_def no_mantissa_def)

lemma loadavg_fields:
  assumes "fixed_ok x" "fixed_ok y" "fixed_ok z"
  shows "Fields (fixed_text x @ '' '' @ fixed_text y @ '' '' @ fixed_text z @ '' '' @ rest) =
    fixed_text x # fixed_text y # fixed_text z # Fields rest"
  using assms fixed_field by (simp add: Fields_word)

text \<open>
  The readers of Linux and macOS agree: three load averages printed with a point give the same values
  whether they stand in \<open>/proc/loadavg\<close> or between the braces of \<open>sysctl vm.loadavg\<close>, and each value is a
  \<open>float64\<close> that no other one beats in closeness to the printed number.
\<close>

theorem load_averages_agree:
  assumes "fixed_ok x" "fixed_ok y" "fixed_ok z" "goos \<noteq> ''windows''" "goos \<noteq> ''darwin''"
    and "darwinCommandOutput sysctl = Some (''{ '' @ fixed_text x @ '' '' @ fixed_text y @ '' '' @ fixed_text z @ '' }'')"
  shows "\<exists>l1 l5 l15.
    readLoadAverages goos answer (Some (fixed_text x @ '' '' @ fixed_text y @ '' '' @ fixed_text z @ '' '' @ rest)) cpu cores =
      (FloatFin l1, FloatFin l5, FloatFin l15) \<and>
    readLoadAverages ''darwin'' sysctl file cpu cores = (FloatFin l1, FloatFin l5, FloatFin l15) \<and>
    (float64_value v \<longrightarrow> \<bar>l1 - fixed_value x\<bar> \<le> \<bar>v - fixed_value x\<bar> \<and>
      \<bar>l5 - fixed_value y\<bar> \<le> \<bar>v - fixed_value y\<bar> \<and> \<bar>l15 - fixed_value z\<bar> \<le> \<bar>v - fixed_value z\<bar>)"
proof -
  let ?l = "\<lambda>x. on_grid (fixed_value x)"
  have linux: "readLoadAverages goos answer (Some (fixed_text x @ '' '' @ fixed_text y @ '' '' @ fixed_text z @ '' '' @ rest)) cpu cores =
      (FloatFin (?l x), FloatFin (?l y), FloatFin (?l z))"
    unfolding readLoadAverages_def using assms(4,5) fixed_parse [OF assms(1)] fixed_parse [OF assms(2)] fixed_parse [OF assms(3)]
    by (simp add: loadavg_fields [OF assms(1-3), simplified])
  have brace: "Fields (''{ '' @ s) = ''{'' # Fields s" for s
    using Fields_word [of "''{''" s] by (simp add: blank_free_def space_runes_def)
  have "Trim ''{'' ''{}'' = []" by (simp add: Trim_def)
  then have open_brace: "darwin_load_fields [] (''{'' # fs) = darwin_load_fields [] fs" for fs
    using brace_no_number by (auto split: prod.split option.split)
  have "parseDarwinLoadAverages (''{ '' @ fixed_text x @ '' '' @ fixed_text y @ '' '' @ fixed_text z @ '' }'') =
      darwin_load_fields [] (fixed_text x # fixed_text y # fixed_text z # Fields ''}'')"
    unfolding parseDarwinLoadAverages_def brace open_brace using loadavg_fields [OF assms(1-3), of "''}''"] by simp
  also have "\<dots> = (FloatFin (?l x), FloatFin (?l y), FloatFin (?l z))"
    using assms(1-3) by (simp add: fixed_Trim fixed_parse)
  finally have "readLoadAverages ''darwin'' sysctl file cpu cores = (FloatFin (?l x), FloatFin (?l y), FloatFin (?l z))"
    using assms(6) by (simp add: readLoadAverages_def darwinLoadAverages_def)
  with linux show ?thesis using on_grid_nearest by blast
qed

theorem load_averages_agree_witness:
  "\<exists>l1 l5 l15. readLoadAverages ''darwin'' \<lparr>ca_chunks = [''{ 0.52 1.30 2.25 }''], ca_deadline = False, ca_fails = False\<rparr> None (FloatFin 0) 4 =
    (FloatFin l1, FloatFin l5, FloatFin l15) \<and> l15 = 9 / 4"
proof -
  let ?a = "\<lparr>ca_chunks = [''{ 0.52 1.30 2.25 }''], ca_deadline = False, ca_fails = False\<rparr>"
  have out: "darwinCommandOutput ?a = Some ''{ 0.52 1.30 2.25 }''" by code_simp
  have v: "float64_value (9 / 4)" unfolding float64_value_def by (rule exI [of _ 9], rule exI [of _ "-2"]) simp
  have ok: "fixed_ok (''0'', ''52'')" "fixed_ok (''1'', ''30'')" "fixed_ok (''2'', ''25'')"
    by (simp_all add: fixed_ok_def is_digit_iff digits_val_def digit_val_def)
  have "fixed_value (''2'', ''25'') = 9 / 4" by (simp add: fixed_value_def digits_val_def digit_val_def)
  then show ?thesis
    using load_averages_agree [OF ok, of "''linux''" ?a ?a "[]" "FloatFin 0" 4 None "9 / 4"] out v
    by (auto simp: fixed_text_def)
qed

subsection \<open>Swap usage\<close>

lemma swap_matches_skip: "CHR ''t'' \<notin> set pre \<Longrightarrow> CHR ''f'' \<notin> set pre \<Longrightarrow> swap_matches (pre @ s) = swap_matches s"
proof (induction pre)
  case (Cons c pre)
  then have "swap_at (c # pre @ s) = None" by (auto simp: swap_at_def swap_name_def HasPrefix_def)
  then show ?case using Cons by (simp add: swap_matches.simps [of "c # pre @ s"])
qed simp

lemma numeric_run:
  "list_all numeric ds \<Longrightarrow> \<not> numeric u \<Longrightarrow> takeWhile numeric (ds @ u # t) = ds \<and> dropWhile numeric (ds @ u # t) = u # t"
  by (induction ds) auto

lemma swap_matches_entry:
  assumes "name = ''total'' \<or> name = ''free''" "list_all numeric ds" "ds \<noteq> []"
  shows "swap_matches (name @ '' = '' @ ds @ ''M'' @ rest) = (name, ds, ''M'') # swap_matches rest"
proof -
  have u: "\<not> numeric (CHR ''M'')" by (simp add: numeric_def is_digit_iff)
  have sp: "re_space (CHR '' '')" "\<not> re_space (CHR ''='')" by (simp_all add: re_space_def)
  obtain d t where d: "ds = d # t" using assms(3) by (cases ds) auto
  then have "\<not> re_space d" using assms(2) by (auto simp: re_space_def numeric_def is_digit_iff)
  then have run: "dropWhile re_space (CHR '' '' # ds @ CHR ''M'' # rest) = ds @ CHR ''M'' # rest" using sp d by simp
  have nm: "swap_name (name @ '' = '' @ ds @ ''M'' @ rest) = Some name"
    using assms(1) by (auto simp: swap_name_def HasPrefix_def)
  have "swap_at (name @ '' = '' @ ds @ ''M'' @ rest) = Some (name, ds, ''M'', rest)"
    unfolding swap_at_def nm using assms(3) sp run numeric_run [OF assms(2) u, of rest] by (simp add: Let_def)
  moreover obtain c s where "name @ '' = '' @ ds @ ''M'' @ rest = c # s" using assms(1) by auto
  ultimately show ?thesis by (subst swap_matches.simps) simp
qed

text \<open>Scaling by the unit is exact.\<close>

lemma mult_mebi:
  assumes "0 \<le> q" "q < 2 ^ 40"
  shows "mult_float (FloatFin (on_grid q)) (unitMultiplier ''M'') = FloatFin (on_grid q * 2 ^ 20)"
proof -
  have u: "unitMultiplier ''M'' = 1048576" by code_simp
  have "float64_value (on_grid q * 2 ^ 20)" by (intro float64_value_scale float64_value_on_grid)
  then have fixed: "on_grid (on_grid q * 1048576) = on_grid q * 1048576" using on_grid_fixed by simp
  have "on_grid q < 2 ^ 41" "0 \<le> on_grid q" using on_grid_double [of q] on_grid_sign [of q] assms by simp_all
  then have "2 * \<bar>on_grid q * 1048576\<bar> < float64_limit" by (intro below_limit) simp
  then show ?thesis by (simp add: mult_float_def u round64_finite fixed)
qed

lemma mebi_bytes:
  assumes "fixed_ok x" "fixed_value x < 2 ^ 40"
  shows "int64_of_float implementation (mult_float (FloatFin (on_grid (fixed_value x))) (unitMultiplier ''M'')) =
    \<lfloor>on_grid (fixed_value x) * 2 ^ 20\<rfloor>"
proof -
  have q: "0 \<le> fixed_value x" by (cases x) (simp add: fixed_value_def)
  have g: "0 \<le> on_grid (fixed_value x)" "on_grid (fixed_value x) < 2 ^ 41"
    using on_grid_double [of "fixed_value x"] on_grid_sign [OF q] assms(2) q by simp_all
  then have "0 \<le> \<lfloor>on_grid (fixed_value x) * 2 ^ 20\<rfloor>" "\<lfloor>on_grid (fixed_value x) * 2 ^ 20\<rfloor> < 2 ^ 61"
    by (simp_all add: floor_less_iff)
  then have "fits64 \<lfloor>on_grid (fixed_value x) * 2 ^ 20\<rfloor>" by (simp add: fits64_def minInt64_def maxInt64_def)
  then show ?thesis unfolding mult_mebi [OF q assms(2)] using g by (simp add: int64_of_float_def)
qed

text \<open>
  From the output of \<open>sysctl vm.swapusage\<close> with sizes in mebibytes, total and free are the parsed sizes
  scaled exactly, whatever stands under \<open>used\<close>: \<open>float64\<close> rounding happens only when the number is read.
\<close>

theorem swap_usage_scaled:
  assumes "fixed_ok x" "fixed_ok y" "fixed_ok z" "fixed_value x < 2 ^ 40" "fixed_value z < 2 ^ 40"
    and "darwinCommandOutput sysctl = Some (''total = '' @ fixed_text x @ ''M  used = '' @ fixed_text y @ ''M  free = '' @ fixed_text z @ ''M'')"
  shows "darwin_platformSwapTotals implementation sysctl =
    (\<lfloor>on_grid (fixed_value x) * 2 ^ 20\<rfloor>, \<lfloor>on_grid (fixed_value z) * 2 ^ 20\<rfloor>)"
proof -
  have num: "list_all numeric (fixed_text w) \<and> fixed_text w \<noteq> []" if "fixed_ok w" for w
    using that by (auto simp: fixed_ok_def fixed_text_def list_all_iff numeric_def)
  let ?used = "''  used = '' @ fixed_text y @ ''M  ''"
  have "CHR ''t'' \<notin> set ?used" "CHR ''f'' \<notin> set ?used"
    using num [OF assms(2)] by (auto simp: list_all_iff numeric_def is_digit_iff)
  note skip = swap_matches_skip [OF this, of "''free = '' @ fixed_text z @ ''M'' @ []"]
  note one = swap_matches_entry [of "''total''" "fixed_text x" "?used @ ''free = '' @ fixed_text z @ ''M''"]
  note two = swap_matches_entry [of "''free''" "fixed_text z" "[]"]
  have "swap_matches (''total = '' @ fixed_text x @ ''M  used = '' @ fixed_text y @ ''M  free = '' @ fixed_text z @ ''M'') =
      [(''total'', fixed_text x, ''M''), (''free'', fixed_text z, ''M'')]"
    using one two skip num [OF assms(1)] num [OF assms(3)] by (simp add: swap_matches.simps [of "[]"])
  then show ?thesis using assms
    by (simp add: darwin_platformSwapTotals_def parseDarwinSwapUsage_def fixed_parse mebi_bytes)
qed

theorem swap_usage_scaled_witness:
  "darwin_platformSwapTotals (\<lambda>_. 0)
     \<lparr>ca_chunks = [''total = 2048.00M  used = 512.25M  free = 1535.75M''], ca_deadline = False, ca_fails = False\<rparr> =
   (2147483648, 1610350592)"
proof -
  let ?a = "\<lparr>ca_chunks = [''total = 2048.00M  used = 512.25M  free = 1535.75M''], ca_deadline = False, ca_fails = False\<rparr>"
  have out: "darwinCommandOutput ?a = Some ''total = 2048.00M  used = 512.25M  free = 1535.75M''" by code_simp
  have ok: "fixed_ok (''2048'', ''00'')" "fixed_ok (''512'', ''25'')" "fixed_ok (''1535'', ''75'')"
    by (simp_all add: fixed_ok_def is_digit_iff digits_val_def digit_val_def)
  have v: "fixed_value (''2048'', ''00'') = 2048" "fixed_value (''1535'', ''75'') = 6143 / 4"
    by (simp_all add: fixed_value_def digits_val_def digit_val_def)
  have "float64_value 2048" unfolding float64_value_def by (rule exI [of _ 2048], rule exI [of _ 0]) simp
  moreover have "float64_value (6143 / 4)" unfolding float64_value_def by (rule exI [of _ 6143], rule exI [of _ "-2"]) simp
  ultimately show ?thesis
    using swap_usage_scaled [OF ok, of ?a "\<lambda>_. 0"] out v by (simp add: fixed_text_def on_grid_fixed)
qed

end
