(* ===== verification/Http_Clients.thy ===== *)
theory Http_Clients
  imports Probe_Http Agent_Client
begin

text \<open>
  The two HTTP clients of the agent as \<open>net/http\<close> runs them: the client of the HTTP probes
  (\<open>newHTTPProbeClientWithResolver\<close> in \<open>internal/agent/probe.go\<close>) with its guarded dialer and its redirect hook, and
  the client of the Controller API (\<open>newAgentHTTPClient\<close> in \<open>internal/agent/client.go\<close>), which follows no redirect.
  \<open>client_Do\<close> is the loop of \<open>http.Client.Do\<close> over requests and redirects.
\<close>

subsection \<open>Resolvers\<close>

record safeProbeResolver =
  res_lookup :: lookup_fun
  res_cache :: resolver_cache

definition newSafeProbeResolverWithLookup :: "lookup_fun \<Rightarrow> safeProbeResolver" where
  "newSafeProbeResolverWithLookup lookup = \<lparr>res_lookup = lookup, res_cache = Map.empty\<rparr>"

text \<open>\<open>DefaultResolver\<close> is \<open>net.DefaultResolver.LookupNetIP\<close>.\<close>

definition newSafeProbeResolver :: "lookup_fun \<Rightarrow> safeProbeResolver" where
  "newSafeProbeResolver DefaultResolver = newSafeProbeResolverWithLookup DefaultResolver"

definition resolveSafeProbeHost ::
  "lookup_fun \<Rightarrow> (string \<Rightarrow> Addr option) \<Rightarrow> ctx \<Rightarrow> ctx \<Rightarrow> string \<Rightarrow> bool \<Rightarrow> probe_error + Addr list" where
  "resolveSafeProbeHost DefaultResolver parse ctx1 ctx2 host allowExplicitLoopback =
     resolveSafeProbeHostWithLookup parse ctx1 ctx2 host allowExplicitLoopback DefaultResolver"

subsection \<open>Clients\<close>

text \<open>
  What one request meets: the address the transport dials, the contexts and the answers of the system during the dial
  (\<open>hop_other\<close> is the cache at the second locking), the status of the response, and, when it is a redirect, the next
  request, the header \<open>net/http\<close> copied for it, and the contexts and the cache while the hook resolves its host.
\<close>

type_synonym header = "(string \<times> string) list"

record http_hop =
  hop_address :: string
  hop_ctx1 :: ctx
  hop_ctx2 :: ctx
  hop_dial :: "Addr \<Rightarrow> probe_error option"
  hop_other :: resolver_cache
  hop_error :: "probe_error option"      \<comment> \<open>a failure after the connection was made\<close>
  hop_status :: int
  hop_redirect :: "redirect_request option"
  hop_header :: header
  hop_ctx3 :: ctx
  hop_ctx4 :: ctx
  hop_other2 :: resolver_cache

datatype verdict = FollowRedirect header | UseLastResponse | RefuseRedirect probe_error

record http_Client =
  hc_Timeout :: duration
  hc_Proxy :: bool                       \<comment> \<open>whether the transport asks the environment for a proxy\<close>
  hc_DisableKeepAlives :: bool
  hc_DialContext :: "http_hop \<Rightarrow> resolver_cache \<Rightarrow> ((probe_error + Addr) \<times> Addr list) \<times> resolver_cache"
  hc_CheckRedirect :: "http_hop \<Rightarrow> URL list \<Rightarrow> redirect_request \<Rightarrow> resolver_cache \<Rightarrow> verdict \<times> resolver_cache"

text \<open>The parsers of the standard library: \<open>net.SplitHostPort\<close>, \<open>netip.ParseAddr\<close>, \<open>url.ParseRequestURI\<close>.\<close>

record net_parsers =
  np_split :: "string \<Rightarrow> (string \<times> string) option"
  np_addr :: "string \<Rightarrow> Addr option"
  np_uri :: "string \<Rightarrow> URL option"

definition probe_header :: header where "probe_header = [(''User-Agent'', ''Zeno-Agent'')]"

definition newHTTPProbeClientWithResolver :: "net_parsers \<Rightarrow> duration \<Rightarrow> lookup_fun \<Rightarrow> http_Client" where
  "newHTTPProbeClientWithResolver np timeout lookup =
     \<lparr>hc_Timeout = timeout, hc_Proxy = False, hc_DisableKeepAlives = True,
      hc_DialContext = (\<lambda>hop cache.
        dialSafeProbeNetworkAddressWithResolver (np_split np) (np_addr np) (hop_ctx1 hop) (hop_ctx2 hop) lookup
          (hop_dial hop) ''tcp'' (hop_address hop) cache (hop_other hop)),
      hc_CheckRedirect = (\<lambda>hop via req cache.
        case CheckRedirect \<lparr>he_uri = np_uri np, he_parse = np_addr np, he_ctx1 = hop_ctx3 hop, he_ctx2 = hop_ctx4 hop,
               he_lookup = lookup, he_other = hop_other2 hop\<rparr> via req cache of
          (Inl e, cache') \<Rightarrow> (RefuseRedirect e, cache')
        | (Inr keep, cache') \<Rightarrow> (FollowRedirect (if keep then hop_header hop else probe_header), cache'))\<rparr>"

definition newHTTPProbeClient :: "net_parsers \<Rightarrow> lookup_fun \<Rightarrow> duration \<Rightarrow> http_Client \<times> resolver_cache" where
  "newHTTPProbeClient np DefaultResolver timeout =
     (let resolver = newSafeProbeResolver DefaultResolver
      in (newHTTPProbeClientWithResolver np timeout (res_lookup resolver), res_cache resolver))"

text \<open>\<open>dial\<close> is the dialer of \<open>http.DefaultTransport\<close>.\<close>

definition newAgentHTTPClient :: "(http_hop \<Rightarrow> (probe_error + Addr) \<times> Addr list) \<Rightarrow> http_Client" where
  "newAgentHTTPClient dial =
     \<lparr>hc_Timeout = 30 * Second, hc_Proxy = True, hc_DisableKeepAlives = False,
      hc_DialContext = (\<lambda>hop cache. (dial hop, cache)),
      hc_CheckRedirect = (\<lambda>hop via req cache. (UseLastResponse, cache))\<rparr>"

text \<open>
  \<open>http.Client.Do\<close> on a script of hops: the error or the status, the requests sent with their headers, and the
  addresses dialled. A script that ends too early gives \<open>None\<close>.
\<close>

record exchange =
  ex_result :: "(probe_error + int) option"
  ex_requests :: "(URL \<times> header) list"
  ex_dialed :: "Addr list"

fun client_Do :: "http_Client \<Rightarrow> http_hop list \<Rightarrow> URL list \<Rightarrow> header \<Rightarrow> URL \<Rightarrow> resolver_cache \<Rightarrow> exchange \<times> resolver_cache" where
  "client_Do c [] via hdr u cache = (\<lparr>ex_result = None, ex_requests = [], ex_dialed = []\<rparr>, cache)"
| "client_Do c (hop # hops) via hdr u cache =
     (case hc_DialContext c hop cache of
        ((Inl e, tried), cache1) \<Rightarrow> (\<lparr>ex_result = Some (Inl e), ex_requests = [], ex_dialed = tried\<rparr>, cache1)
      | ((Inr a, tried), cache1) \<Rightarrow>
          (case (hop_error hop, hop_redirect hop) of
             (Some e, _) \<Rightarrow> (\<lparr>ex_result = Some (Inl e), ex_requests = [(u, hdr)], ex_dialed = tried\<rparr>, cache1)
           | (None, None) \<Rightarrow> (\<lparr>ex_result = Some (Inr (hop_status hop)), ex_requests = [(u, hdr)], ex_dialed = tried\<rparr>, cache1)
           | (None, Some req) \<Rightarrow>
               (case hc_CheckRedirect c hop (via @ [u]) req cache1 of
                  (UseLastResponse, cache2) \<Rightarrow>
                    (\<lparr>ex_result = Some (Inr (hop_status hop)), ex_requests = [(u, hdr)], ex_dialed = tried\<rparr>, cache2)
                | (RefuseRedirect e, cache2) \<Rightarrow>
                    (\<lparr>ex_result = Some (Inl e), ex_requests = [(u, hdr)], ex_dialed = tried\<rparr>, cache2)
                | (FollowRedirect hdr', cache2) \<Rightarrow>
                    (let (x, cache3) = client_Do c hops (via @ [u]) hdr' (rr_URL req) cache2
                     in (\<lparr>ex_result = ex_result x, ex_requests = (u, hdr) # ex_requests x,
                          ex_dialed = tried @ ex_dialed x\<rparr>, cache3)))))"

subsection \<open>The probe client\<close>

text \<open>What a redirect keeps: HTTPS, and the header only within the origin.\<close>

fun contained :: "URL \<times> header \<Rightarrow> URL \<times> header \<Rightarrow> bool" where
  "contained (u, _) (v, h) \<longleftrightarrow> (sameHTTPProbeOrigin u v \<or> h = probe_header) \<and> (url_Scheme u = ''https'' \<longrightarrow> url_Scheme v = ''https'')"

definition hops_safe :: "net_parsers \<Rightarrow> http_hop list \<Rightarrow> bool" where
  "hops_safe np hops \<longleftrightarrow> list_all (\<lambda>hop. cache_safe (np_addr np) (hop_other hop) \<and> cache_safe (np_addr np) (hop_other2 hop)) hops"

lemma probe_dial:
  assumes "hc_DialContext (newHTTPProbeClientWithResolver np timeout lookup) hop cache = ((r, tried), cache')"
    "cache_safe (np_addr np) cache" "cache_safe (np_addr np) (hop_other hop)"
  shows "list_all (\<lambda>a. validateSafeProbeAddress a True = None) tried" "cache_safe (np_addr np) cache'"
proof -
  have d: "dialSafeProbeNetworkAddressWithResolver (np_split np) (np_addr np) (hop_ctx1 hop) (hop_ctx2 hop) lookup
      (hop_dial hop) ''tcp'' (hop_address hop) cache (hop_other hop) = ((r, tried), cache')"
    using assms(1) by (simp add: newHTTPProbeClientWithResolver_def)
  show "list_all (\<lambda>a. validateSafeProbeAddress a True = None) tried"
    using dialSafe_tried [OF d assms(2,3)] by (simp add: list_all_iff)
  show "cache_safe (np_addr np) cache'"
    using d assms(2) resolve_cache_safe [OF _ assms(2,3)]
    by (auto simp: dialSafeProbeNetworkAddressWithResolver_def split: option.splits prod.splits if_splits sum.splits)
qed

lemma CheckRedirect_safe:
  assumes "CheckRedirect env via req cache = (r, cache')" "cache_safe (he_parse env) cache" "cache_safe (he_parse env) (he_other env)"
  shows "cache_safe (he_parse env) cache'"
  using assms resolve_cache_safe [OF _ assms(2,3)]
  by (auto simp: CheckRedirect_def Let_def split: if_splits sum.splits prod.splits)

lemma probe_hook:
  assumes "hc_CheckRedirect (newHTTPProbeClientWithResolver np timeout lookup) hop (via @ [u]) req cache = (v, cache')"
    "cache_safe (np_addr np) cache" "cache_safe (np_addr np) (hop_other2 hop)"
  shows "cache_safe (np_addr np) cache'" "v \<noteq> UseLastResponse"
    "v = FollowRedirect h \<Longrightarrow> Suc (length via) < 10 \<and> contained (u, h0) (rr_URL req, h)"
proof -
  let ?env = "\<lparr>he_uri = np_uri np, he_parse = np_addr np, he_ctx1 = hop_ctx3 hop, he_ctx2 = hop_ctx4 hop,
    he_lookup = lookup, he_other = hop_other2 hop\<rparr>"
  obtain r where r: "CheckRedirect ?env (via @ [u]) req cache = (r, cache')"
    and v: "v = (case r of Inl e \<Rightarrow> RefuseRedirect e | Inr keep \<Rightarrow> FollowRedirect (if keep then hop_header hop else probe_header))"
    using assms(1) by (auto simp: newHTTPProbeClientWithResolver_def split: prod.splits sum.splits)
  show "cache_safe (np_addr np) cache'" using CheckRedirect_safe [OF r] assms(2,3) by simp
  show "v \<noteq> UseLastResponse" using v by (simp split: sum.splits)
  assume "v = FollowRedirect h"
  then obtain keep where k: "r = Inr keep" "h = (if keep then hop_header hop else probe_header)"
    using v by (auto split: sum.splits)
  show "Suc (length via) < 10 \<and> contained (u, h0) (rr_URL req, h)"
    by (rule CheckRedirect_ok [OF r [unfolded k(1)]]) (auto simp: maxHTTPProbeRedirects_def k(2))
qed

definition probe_exchange_ok :: "nat \<Rightarrow> nat \<Rightarrow> URL \<times> header \<Rightarrow> exchange \<Rightarrow> bool" where
  "probe_exchange_ok budget script_length first x \<longleftrightarrow>
     list_all (\<lambda>a. validateSafeProbeAddress a True = None) (ex_dialed x) \<and> length (ex_requests x) \<le> budget \<and>
     (ex_requests x = [] \<or> ex_requests x ! 0 = first) \<and> successively contained (ex_requests x) \<and>
     (ex_result x = None \<longrightarrow> script_length < budget)"

lemma probe_exchange:
  assumes "client_Do (newHTTPProbeClientWithResolver np timeout lookup) hops via hdr u cache = (x, cache')"
    "hops_safe np hops" "cache_safe (np_addr np) cache" "length via < 10"
  shows "probe_exchange_ok (10 - length via) (length hops) (u, hdr) x \<and> cache_safe (np_addr np) cache'"
  using assms
proof (induction hops arbitrary: via hdr u cache x cache')
  case (Cons hop hops)
  let ?c = "newHTTPProbeClientWithResolver np timeout lookup"
  obtain r tried cache1 where d: "hc_DialContext ?c hop cache = ((r, tried), cache1)" by (metis prod.exhaust)
  have safe: "cache_safe (np_addr np) (hop_other hop)" "cache_safe (np_addr np) (hop_other2 hop)" "hops_safe np hops"
    using Cons.prems(2) by (simp_all add: hops_safe_def)
  note dialed = probe_dial [OF d Cons.prems(3) safe(1)]
  show ?case
  proof (cases "\<exists>a req. r = Inr a \<and> hop_error hop = None \<and> hop_redirect hop = Some req")
    case False
    then show ?thesis
      using Cons.prems(1,4) d dialed
      by (auto simp: probe_exchange_ok_def split: sum.splits option.splits)
  next
    case True
    then obtain a req where t: "r = Inr a" "hop_error hop = None" "hop_redirect hop = Some req" by blast
    obtain v cache2 where v: "hc_CheckRedirect ?c hop (via @ [u]) req cache1 = (v, cache2)" by fastforce
    note hook = probe_hook [OF v dialed(2) safe(2)]
    show ?thesis
    proof (cases v)
      case (FollowRedirect h)
      obtain y cache3 where y: "client_Do ?c hops (via @ [u]) h (rr_URL req) cache2 = (y, cache3)" by fastforce
      have f: "Suc (length via) < 10" "contained (u, hdr) (rr_URL req, h)" using hook(3) [OF FollowRedirect] by simp_all
      have ok: "probe_exchange_ok (10 - Suc (length via)) (length hops) (rr_URL req, h) y" "cache_safe (np_addr np) cache3"
        using Cons.IH [OF y safe(3) hook(1)] f(1) by simp_all
      have "x = \<lparr>ex_result = ex_result y, ex_requests = (u, hdr) # ex_requests y, ex_dialed = tried @ ex_dialed y\<rparr>" "cache' = cache3"
        using Cons.prems(1) d t v FollowRedirect y by simp_all
      then show ?thesis
        using ok f dialed(1)
        by (cases "ex_requests y") (auto simp: probe_exchange_ok_def)
    qed (use Cons.prems(1,4) d t v hook dialed in \<open>auto simp: probe_exchange_ok_def\<close>)
  qed
qed (simp add: probe_exchange_ok_def)

lemma new_probe_client:
  "newHTTPProbeClient np DefaultResolver timeout = (newHTTPProbeClientWithResolver np timeout DefaultResolver, Map.empty)"
  by (simp add: newHTTPProbeClient_def newSafeProbeResolver_def newSafeProbeResolverWithLookup_def)

subsection \<open>Properties\<close>

text \<open>C12: An HTTP probe is contained: whatever the DNS and the servers answer, every address its client connects to,
  redirects included, has passed the guard; it sends at most ten requests, so that it ends; a request to another
  origin carries nothing but the agent's \<open>User-Agent\<close>, and once on HTTPS the probe never returns to HTTP.\<close>

theorem http_probe_contained:
  assumes "newHTTPProbeClient np DefaultResolver timeout = (c, cache)" "hops_safe np hops"
    "client_Do c hops [] probe_header u cache = (x, cache')"
  shows "list_all (\<lambda>a. validateSafeProbeAddress a True = None) (ex_dialed x) \<and> length (ex_requests x) \<le> 10 \<and>
    (10 \<le> length hops \<longrightarrow> ex_result x \<noteq> None) \<and>
    successively (\<lambda>(u, _) (v, h). (sameHTTPProbeOrigin u v \<or> h = [(''User-Agent'', ''Zeno-Agent'')]) \<and>
      (url_Scheme u = ''https'' \<longrightarrow> url_Scheme v = ''https'')) (ex_requests x)"
proof -
  have "contained = (\<lambda>(u, _) (v, h). (sameHTTPProbeOrigin u v \<or> h = [(''User-Agent'', ''Zeno-Agent'')]) \<and>
      (url_Scheme u = ''https'' \<longrightarrow> url_Scheme v = ''https''))"
    by (auto simp: fun_eq_iff probe_header_def)
  then show ?thesis
    using probe_exchange [of np timeout DefaultResolver hops "[]" probe_header u cache x cache'] assms cache_safe_empty
    by (auto simp: new_probe_client probe_exchange_ok_def)
qed

definition example_hop :: "redirect_request option \<Rightarrow> http_hop" where
  "example_hop next_request = \<lparr>hop_address = ''example.org:443'', hop_ctx1 = None, hop_ctx2 = None, hop_dial = (\<lambda>_. None),
     hop_other = Map.empty, hop_error = None, hop_status = 200, hop_redirect = next_request, hop_header = probe_header,
     hop_ctx3 = None, hop_ctx4 = None, hop_other2 = Map.empty\<rparr>"

definition example_parsers :: net_parsers where
  "example_parsers = \<lparr>np_split = example_split, np_addr = (\<lambda>_. None), np_uri = (\<lambda>_. Some redirect_url)\<rparr>"

theorem http_probe_contained_witness:
  "list_all (\<lambda>a. validateSafeProbeAddress a True = None) (ex_dialed (fst (client_Do
     (fst (newHTTPProbeClient example_parsers (\<lambda>_. Inr [A4 0xC0000201]) Second))
     [example_hop (Some redirect_req), example_hop None] [] probe_header redirect_url Map.empty)))"
proof -
  let ?c = "newHTTPProbeClientWithResolver example_parsers Second (\<lambda>_. Inr [A4 0xC0000201])"
  let ?hops = "[example_hop (Some redirect_req), example_hop None]"
  obtain x cache' where x: "client_Do ?c ?hops [] probe_header redirect_url Map.empty = (x, cache')" by fastforce
  have "hops_safe example_parsers ?hops" by (simp add: hops_safe_def example_hop_def cache_safe_empty)
  from http_probe_contained [OF new_probe_client this x] show ?thesis using x by (simp add: new_probe_client)
qed

text \<open>The client of the Controller API follows no redirect: whatever the Controller answers, one call sends at
  most one request, to the URL it was built with, so that the bearer token goes nowhere else.\<close>

theorem agent_follows_no_redirect:
  "case client_Do (newAgentHTTPClient dial) (hop # hops) [] hdr u cache of
     (x, _) \<Rightarrow> set (ex_requests x) \<subseteq> {(u, hdr)} \<and> length (ex_requests x) \<le> 1 \<and> ex_result x \<noteq> None"
  by (auto simp: newAgentHTTPClient_def split: prod.splits sum.splits option.splits)

end
