(* ===== verification/Platform_Readers.thy ===== *)
theory Platform_Readers
  imports Agent_Reports Float_Readers Disk_Usage
begin

text \<open>
  The readers as a build for one operating system composes them. \<open>internal/agent/metrics.go\<close> asks \<open>runtime.GOOS\<close> and
  calls the Windows, the macOS or the Linux reader; in a build for another system the first two are the stubs of
  \<open>platform_nonwindows.go\<close> and \<open>platform_notdarwin_metrics.go\<close>. The raw material of a collection (file contents,
  command output, answers of system calls) is a record per system. The locale \<open>metrics_source\<close> says what the
  collector needs of a system; the three systems interpret it.
\<close>

subsection \<open>Raw readings\<close>

record linux_raw =
  lr_stat :: "string option"
  lr_loadavg :: "string option"
  lr_proc :: "(string \<times> bool) list option"
  lr_connections :: connection_files
  lr_netdev :: "string option"
  lr_os_release :: "string option"
  lr_osrelease :: "string option"
  lr_product_name :: "string option"
  lr_sys_vendor :: "string option"
  lr_cpuinfo :: "string option"
  lr_uptime :: "string option"
  lr_meminfo :: "string option"
  lr_mountinfo :: "string option"
  lr_disk :: disk_env

record darwin_raw =
  dr_cp_time :: "command_answer list"
  dr_loadavg :: command_answer
  dr_processes :: "nat option"
  dr_netstat_an :: command_run
  dr_netstat_ibn :: command_run
  dr_sw_vers :: command_answer
  dr_osrelease :: "string option"
  dr_model :: "string option"
  dr_brand :: "string option list"
  dr_boottime :: "int option"
  dr_memory :: darwin_memory
  dr_swapusage :: command_answer
  dr_statfs :: "string \<Rightarrow> (64 word \<times> 32 word \<times> 64 word) option"

record windows_raw =
  wr_times :: "(filetime \<times> filetime \<times> filetime) option"
  wr_processes :: "nat list option"
  wr_tcp4 :: "ip_query option"
  wr_tcp6 :: "ip_query option"
  wr_udp4 :: "ip_query option"
  wr_udp6 :: "ip_query option"
  wr_if_table :: "MibIfRow2 list option"
  wr_adapters :: adapters_answer
  wr_adapters_again :: adapters_answer
  wr_current :: "(string \<Rightarrow> string option) option"
  wr_ubr :: "64 word"
  wr_bios :: "(string \<Rightarrow> string option) option"
  wr_processor :: "(string \<Rightarrow> string option) option"
  wr_ticks :: "64 word"
  wr_memory :: "memoryStatusEx option"
  wr_drives :: drive_env

datatype system = Linux linux_raw | Darwin darwin_raw | Windows windows_raw

fun goos :: "system \<Rightarrow> string" where
  "goos (Linux r) = ''linux''"
| "goos (Darwin r) = ''darwin''"
| "goos (Windows r) = ''windows''"

subsection \<open>Readers and stubs\<close>

datatype platform_error = LinuxError metrics_error | DarwinError command_error | WindowsError windows_error

record platform_readers =
  pr_cpu :: "cpuTimes option"
  pr_load :: "gofloat \<Rightarrow> int \<Rightarrow> gofloat \<times> gofloat \<times> gofloat"
  pr_processes :: int
  pr_connections :: "platform_error + int \<times> int"
  pr_network :: "string list \<Rightarrow> platform_error + networkTotals"
  pr_os :: "string \<times> string"
  pr_kernel :: string
  pr_virtualization :: string
  pr_cpu_model :: string
  pr_boot :: int
  pr_uptime :: int

definition no_loads :: "gofloat \<times> gofloat \<times> gofloat" where
  "no_loads = (FloatFin 0, FloatFin 0, FloatFin 0)"

definition nonwindows_stubs :: platform_readers where
  "nonwindows_stubs = \<lparr>pr_cpu = None, pr_load = (\<lambda>_ _. no_loads), pr_processes = 0, pr_connections = Inr (0, 0),
     pr_network = (\<lambda>_. Inr no_totals), pr_os = ([], []), pr_kernel = [], pr_virtualization = [], pr_cpu_model = [],
     pr_boot = 0, pr_uptime = 0\<rparr>"

definition notdarwin_stubs :: platform_readers where
  "notdarwin_stubs = \<lparr>pr_cpu = None, pr_load = (\<lambda>_ _. no_loads), pr_processes = 0, pr_connections = Inr (0, 0),
     pr_network = (\<lambda>_. Inr no_totals), pr_os = ([], []), pr_kernel = [], pr_virtualization = [], pr_cpu_model = [],
     pr_boot = 0, pr_uptime = 0\<rparr>"

definition windows_readers :: "windows_raw \<Rightarrow> instant \<Rightarrow> platform_readers" where
  "windows_readers r now =
     \<lparr>pr_cpu = windowsReadCPUTimes (wr_times r), pr_load = windowsLoadAverages,
      pr_processes = windowsProcessCount (wr_processes r),
      pr_connections = map_sum WindowsError id (windowsConnectionCounts (wr_tcp4 r) (wr_tcp6 r) (wr_udp4 r) (wr_udp6 r)),
      pr_network = (\<lambda>allowlist. map_sum WindowsError id
        (windowsNetworkTotals (wr_if_table r) (wr_adapters r) (wr_adapters_again r) allowlist)),
      pr_os = windowsOSRelease (wr_current r), pr_kernel = windowsKernelRelease (wr_current r) (wr_ubr r),
      pr_virtualization = windowsVirtualizationName (wr_bios r), pr_cpu_model = windowsCPUModel (wr_processor r),
      pr_boot = windowsBootTime (wr_ticks r) now, pr_uptime = windowsUptimeSeconds (wr_ticks r)\<rparr>"

definition darwin_readers :: "darwin_raw \<Rightarrow> instant \<Rightarrow> platform_readers" where
  "darwin_readers r now =
     \<lparr>pr_cpu = darwinReadCPUTimes (dr_cp_time r), pr_load = (\<lambda>_ _. darwinLoadAverages (dr_loadavg r)),
      pr_processes = darwinProcessCount (dr_processes r),
      pr_connections = map_sum DarwinError id (darwinConnectionCounts (dr_netstat_an r)),
      pr_network = (\<lambda>allowlist. map_sum DarwinError id (darwinNetworkTotals (dr_netstat_ibn r) allowlist)),
      pr_os = darwinOSRelease (dr_sw_vers r), pr_kernel = darwinKernelRelease (dr_osrelease r),
      pr_virtualization = darwinVirtualizationName (dr_model r), pr_cpu_model = darwinCPUModel (dr_brand r),
      pr_boot = darwinBootTime (dr_boottime r), pr_uptime = darwinUptimeSeconds (dr_boottime r) now\<rparr>"

text \<open>The rest of the functions of \<open>metrics.go\<close>, behind their tests of \<open>runtime.GOOS\<close>; \<open>implementation\<close> is the
  conversion of a \<open>float64\<close> outside the range of int64.\<close>

definition proc_readers :: "(gofloat \<Rightarrow> int) \<Rightarrow> linux_raw \<Rightarrow> instant \<Rightarrow> platform_readers" where
  "proc_readers implementation r now =
     \<lparr>pr_cpu = readCPUTimes (lr_stat r),
      pr_load = readLoadAverages ''linux'' \<lparr>ca_chunks = [], ca_deadline = False, ca_fails = True\<rparr> (lr_loadavg r),
      pr_processes = processCount (lr_proc r),
      pr_connections = map_sum LinuxError id (connectionCounts (lr_connections r)),
      pr_network = (\<lambda>allowlist. map_sum LinuxError id (readNetworkTotals (lr_netdev r) allowlist)),
      pr_os = osRelease (lr_os_release r), pr_kernel = kernelRelease (lr_osrelease r),
      pr_virtualization = virtualizationName (lr_product_name r) (lr_sys_vendor r), pr_cpu_model = cpuModel (lr_cpuinfo r),
      pr_boot = bootTime (lr_stat r), pr_uptime = uptimeSeconds implementation ''linux'' 0 None now (lr_uptime r)\<rparr>"

text \<open>What the names \<open>windows...\<close> and \<open>darwin...\<close> are bound to in the build for a system, and a system without files
  in \<open>/proc\<close>.\<close>

fun build_windows :: "system \<Rightarrow> instant \<Rightarrow> platform_readers" where
  "build_windows (Windows r) now = windows_readers r now"
| "build_windows _ now = nonwindows_stubs"

fun build_darwin :: "system \<Rightarrow> instant \<Rightarrow> platform_readers" where
  "build_darwin (Darwin r) now = darwin_readers r now"
| "build_darwin _ now = notdarwin_stubs"

definition no_proc :: linux_raw where
  "no_proc = \<lparr>lr_stat = None, lr_loadavg = None, lr_proc = None,
     lr_connections = \<lparr>cf_tcp = Inl (ReadError True), cf_tcp6 = Inl (ReadError True), cf_udp = Inl (ReadError True), cf_udp6 = Inl (ReadError True)\<rparr>,
     lr_netdev = None, lr_os_release = None, lr_osrelease = None, lr_product_name = None, lr_sys_vendor = None,
     lr_cpuinfo = None, lr_uptime = None, lr_meminfo = None, lr_mountinfo = None,
     lr_disk = \<lparr>de_Statfs = (\<lambda>_. None), de_Device = (\<lambda>_. None)\<rparr>\<rparr>"

fun proc_of :: "system \<Rightarrow> linux_raw" where
  "proc_of (Linux r) = r"
| "proc_of _ = no_proc"

text \<open>The switch every reader of \<open>metrics.go\<close> begins with.\<close>

definition on_platform :: "(gofloat \<Rightarrow> int) \<Rightarrow> system \<Rightarrow> instant \<Rightarrow> (platform_readers \<Rightarrow> 'a) \<Rightarrow> 'a" where
  "on_platform implementation s now f =
     (if goos s = ''windows'' then f (build_windows s now)
      else if goos s = ''darwin'' then f (build_darwin s now)
      else f (proc_readers implementation (proc_of s) now))"

text \<open>Memory, swap and disks have one implementation per build.\<close>

fun build_memory :: "system \<Rightarrow> int \<times> int" where
  "build_memory (Linux r) = readMemoryTotals (lr_meminfo r)"
| "build_memory (Darwin r) = darwin_platformMemoryTotals (dr_memory r)"
| "build_memory (Windows r) = windows_platformMemoryTotals (wr_memory r)"

fun build_swap :: "(gofloat \<Rightarrow> int) \<Rightarrow> system \<Rightarrow> int \<times> int" where
  "build_swap implementation (Linux r) = readSwapTotals (lr_meminfo r)"
| "build_swap implementation (Darwin r) = darwin_platformSwapTotals implementation (dr_swapusage r)"
| "build_swap implementation (Windows r) = windows_platformSwapTotals (wr_memory r)"

fun build_disk :: "system \<Rightarrow> string list \<Rightarrow> int \<times> int" where
  "build_disk (Linux r) allowlist = diskUsage (lr_disk r) (lr_mountinfo r) allowlist"
| "build_disk (Darwin r) allowlist = darwin_diskUsage (dr_statfs r) allowlist"
| "build_disk (Windows r) allowlist = windows_diskUsage (wr_drives r) allowlist"

subsection \<open>A collection and the host facts\<close>

text \<open>The collector only asks whether a reader failed.\<close>

definition as_reading :: "platform_error + 'a \<Rightarrow> metrics_error + 'a" where
  "as_reading r = map_sum (\<lambda>_. ReadError False) id r"

definition readings :: "(gofloat \<Rightarrow> int) \<Rightarrow> int \<Rightarrow> sample_id_env \<Rightarrow> system \<Rightarrow> instant \<Rightarrow> metrics_env" where
  "readings implementation cores ids s now =
     \<lparr>me_cpu = on_platform implementation s now pr_cpu, me_memory = build_memory s, me_swap = build_swap implementation s,
      me_load = (\<lambda>cpu. on_platform implementation s now pr_load (FloatFin cpu) cores), me_disk = build_disk s,
      me_network = (\<lambda>allowlist. as_reading (on_platform implementation s now pr_network allowlist)),
      me_connections = as_reading (on_platform implementation s now pr_connections),
      me_processes = on_platform implementation s now pr_processes, me_uptime = on_platform implementation s now pr_uptime,
      me_goos = goos s, me_ids = ids\<rparr>"

definition platform_CollectHost ::
  "(gofloat \<Rightarrow> int) \<Rightarrow> system \<Rightarrow> instant \<Rightarrow> string \<Rightarrow> string \<Rightarrow> int \<Rightarrow> MetricsCollector \<Rightarrow> string \<Rightarrow> HostInfo" where
  "platform_CollectHost implementation s now hostname goarch cores c version =
     (let (memTot, _) = build_memory s;
          (_, diskTotal) = build_disk s (diskAllowlist c);
          (osName, osVersion) = on_platform implementation s now pr_os
      in \<lparr>h_Hostname = hostname, h_OSName = osName, h_OSVersion = osVersion, h_Kernel = on_platform implementation s now pr_kernel,
          h_Arch = normalizedArch goarch, h_Virtualization = on_platform implementation s now pr_virtualization,
          h_CPUModel = on_platform implementation s now pr_cpu_model, h_CPUCores = cores, h_MemoryTotalBytes = memTot,
          h_DiskTotalBytes = diskTotal, h_BootTime = on_platform implementation s now pr_boot, h_AgentVersion = version,
          h_PublicIPv4 = [], h_PublicIPv6 = [], h_CountryCode = []\<rparr>)"

lemma on_platform_simps [simp]:
  "on_platform implementation (Linux l) now f = f (proc_readers implementation l now)"
  "on_platform implementation (Darwin d) now f = f (darwin_readers d now)"
  "on_platform implementation (Windows w) now f = f (windows_readers w now)"
  by (simp_all add: on_platform_def)

text \<open>On Linux the host facts are those of \<open>CollectHost\<close>.\<close>

lemma linux_host:
  "platform_CollectHost implementation (Linux r) now hostname goarch cores c version =
     CollectHost \<lparr>he_meminfo = lr_meminfo r, he_disk = diskUsage (lr_disk r) (lr_mountinfo r), he_hostname = hostname,
       he_os_release = lr_os_release r, he_osrelease = lr_osrelease r, he_goarch = goarch, he_product_name = lr_product_name r,
       he_sys_vendor = lr_sys_vendor r, he_cpuinfo = lr_cpuinfo r, he_NumCPU = cores, he_stat = lr_stat r\<rparr> c version"
  by (simp add: platform_CollectHost_def CollectHost_def proc_readers_def)

subsection \<open>What the collector needs of a system\<close>

definition collector_ok :: "MetricsCollector \<Rightarrow> bool" where
  "collector_ok c \<longleftrightarrow> totals_ok (previousNet c) \<and> 0 \<le> previousTCP c \<and> 0 \<le> previousUDP c"

definition counts_ok :: "StateSample \<Rightarrow> bool" where
  "counts_ok s \<longleftrightarrow> 0 \<le> NetInTotalBytes s \<and> NetInTotalBytes s \<le> maxInt64 \<and> 0 \<le> NetOutTotalBytes s \<and> NetOutTotalBytes s \<le> maxInt64 \<and>
     0 \<le> TCPConnectionCount s \<and> 0 \<le> UDPConnectionCount s \<and> 0 \<le> ProcessCount s"

lemma totals_ok_none: "totals_ok no_totals"
  by (simp add: totals_ok_def no_totals_def maxInt64_def)

lemma collector_ok_new: "collector_ok (NewMetricsCollector interfaces mounts)"
  by (simp add: collector_ok_def NewMetricsCollector_def totals_ok_none)

lemma CollectState_parts:
  assumes "CollectState env now (c, seq) = (s, c', seq')"
  obtains t src i u c1 c2 tcp udp where "c1 = snd (cpuPercent (me_cpu env) c)" "collect_network env now c1 = ((t, src, i, u), c2)"
    "collect_connections env c2 = ((tcp, udp), c')" "NetInTotalBytes s = InBytes t" "NetOutTotalBytes s = OutBytes t"
    "TCPConnectionCount s = tcp" "UDPConnectionCount s = udp" "ProcessCount s = me_processes env"
proof -
  obtain t src i u c2 where n: "collect_network env now (snd (cpuPercent (me_cpu env) c)) = ((t, src, i, u), c2)" by (metis prod.exhaust)
  obtain tcp udp c3 where k: "collect_connections env c2 = ((tcp, udp), c3)" by (metis prod.exhaust)
  obtain s0 where s0: "withNewStateSampleIdentifiers (me_ids env) s0 now seq = (s, seq')" "c' = c3"
    "NetInTotalBytes s0 = InBytes t" "NetOutTotalBytes s0 = OutBytes t" "TCPConnectionCount s0 = tcp" "UDPConnectionCount s0 = udp"
    "ProcessCount s0 = me_processes env"
    using assms n k unfolding CollectState_def Let_def by (auto split: prod.splits)
  obtain ident where "s = s0\<lparr>SampleID := ident, IdempotencyKey := ident\<rparr>"
    using s0(1) by (auto simp: withNewStateSampleIdentifiers_def split: prod.splits)
  then show ?thesis using that [OF refl n k [folded s0(2)]] s0 by simp
qed

locale metrics_source =
  fixes source :: "'raw \<Rightarrow> instant \<Rightarrow> metrics_env"
  assumes network_ok: "me_network (source r now) allow = Inr t \<Longrightarrow> totals_ok t"
    and connections_ok: "me_connections (source r now) = Inr (tcp, udp) \<Longrightarrow> 0 \<le> tcp \<and> 0 \<le> udp"
    and processes_ok: "0 \<le> me_processes (source r now)"
begin

lemma sample_counts:
  assumes "collector_ok c" "CollectState (source r now) now (c, seq) = (s, c', seq')"
  shows "counts_ok s \<and> collector_ok c'"
  using assms(2)
proof (cases rule: CollectState_parts)
  case (1 t src i u c1 c2 tcp udp)
  have c1: "collector_ok c1" using assms(1) 1(1) by (auto simp: collector_ok_def cpuPercent_def Let_def split: option.splits)
  then have net: "totals_ok t" "collector_ok c2"
    using 1(2) network_ok by (auto simp: collect_network_def collector_ok_def Let_def totals_ok_none split: sum.splits if_splits)
  then have "0 \<le> tcp \<and> 0 \<le> udp" "collector_ok c'"
    using 1(3) connections_ok by (auto simp: collect_connections_def collector_ok_def split: sum.splits if_splits)
  then show ?thesis using net(1) 1(4-8) processes_ok by (simp add: counts_ok_def totals_ok_def)
qed

lemma run_counts:
  assumes "collector_ok c"
  shows "list_all counts_ok (fst (collections (map (\<lambda>(r, now). (source r now, now)) raws) (c, seq)))"
  using assms
proof (induction raws arbitrary: c seq)
  case (Cons raw raws)
  obtain r now where raw: "raw = (r, now)" by fastforce
  obtain s c1 seq1 where s: "CollectState (source r now) now (c, seq) = (s, c1, seq1)" by (metis prod.exhaust)
  note ok = sample_counts [OF Cons.prems s]
  then show ?case using Cons.IH [of c1 seq1] by (auto simp: raw s split: prod.splits)
qed simp

end

subsection \<open>The three systems\<close>

lemma as_reading_Inr [simp]: "as_reading r = Inr x \<longleftrightarrow> r = Inr x"
  by (cases r) (simp_all add: as_reading_def)

lemma map_sum_Inr [simp]: "map_sum f id r = Inr x \<longleftrightarrow> r = Inr x"
  by (cases r) simp_all

lemma linux_totals_ok:
  assumes "readNetworkTotals file allow = Inr t"
  shows "totals_ok t"
proof -
  obtain content where c: "parseLinuxNetworkTotals content allow = Inr t"
    using assms by (auto simp: readNetworkTotals_def split: option.splits)
  obtain ls tooLong where ls: "ScanLines MaxScanTokenSize content = (ls, tooLong)" by fastforce
  obtain h where l: "net_loop allow ls no_totals False = Inr (t, h)"
  proof (cases "net_loop allow ls no_totals False")
    case (Inl e)
    then show ?thesis using c by (simp add: parseLinuxNetworkTotals_def ls)
  next
    case (Inr x)
    then have "fst x = t" using c by (simp add: parseLinuxNetworkTotals_def ls split: prod.splits if_splits)
    then show ?thesis using that [of "snd x"] Inr by (metis prod.collapse)
  qed
  show ?thesis using l [unfolded net_loop_iff [OF totals_ok_none]] by (simp add: totals_ok_def no_totals_def)
qed

lemma visit_dn_ok: "dn_ok p \<Longrightarrow> visit_lines dn_consume maxLines n ls p = (None, p') \<Longrightarrow> dn_ok p'"
proof (induction ls arbitrary: n p)
  case (Cons line ls)
  then obtain u p1 where c: "dn_consume line p = (Inr u, p1)" "visit_lines dn_consume maxLines (n + 1) ls p1 = (None, p')"
    by (auto split: if_splits prod.splits sum.splits)
  show ?case using dn_consume_ok [OF Cons.prems(1) c(1)] Cons.IH [OF _ c(2)] by simp
qed simp

lemma scan_lines_visit:
  "scan_lines visit cmd st = (None, st') \<Longrightarrow> \<exists>ls. visit_lines visit darwinMetricsMaxLines 0 ls st = (None, st')"
  by (auto simp: scan_lines_def darwinCommandScanLinesWithLimits_def Let_def split: if_splits prod.splits)

lemma darwin_totals_ok:
  assumes "darwinNetworkTotals cmd allow = Inr t"
  shows "totals_ok t"
proof -
  obtain p where p: "scan_lines dn_consume cmd (newDarwinNetworkParser allow) = (None, p)" "t = dn_totals p"
    using assms by (auto simp: darwinNetworkTotals_def dn_result_def split: prod.splits option.splits if_splits)
  have "dn_ok (newDarwinNetworkParser allow)"
    using totals_ok_none by (simp add: dn_ok_def newDarwinNetworkParser_def) (simp add: no_totals_def)
  then have "dn_ok p" using scan_lines_visit [OF p(1)] visit_dn_ok by blast
  then show ?thesis by (simp add: dn_ok_def p(2))
qed

lemma visit_dc_ok:
  "0 \<le> dc_tcp p \<and> 0 \<le> dc_udp p \<Longrightarrow> visit_lines (\<lambda>line p. (Inr (), dc_consume line p)) maxLines n ls p = (None, p') \<Longrightarrow>
   0 \<le> dc_tcp p' \<and> 0 \<le> dc_udp p'"
proof (induction ls arbitrary: n p)
  case (Cons line ls)
  have "0 \<le> dc_tcp (dc_consume line p) \<and> 0 \<le> dc_udp (dc_consume line p)"
    using Cons.prems(1) by (simp add: dc_consume_def Let_def split: list.split)
  then show ?case using Cons.IH [of "dc_consume line p" "n + 1"] Cons.prems(2) by (simp split: if_splits)
qed simp

lemma darwin_connections_ok:
  assumes "darwinConnectionCounts cmd = Inr (tcp, udp)"
  shows "0 \<le> tcp \<and> 0 \<le> udp"
proof -
  obtain p where p: "scan_lines (\<lambda>line p. (Inr (), dc_consume line p)) cmd \<lparr>dc_tcp = 0, dc_udp = 0, dc_foundHeader = False\<rparr> = (None, p)"
    "tcp = dc_tcp p" "udp = dc_udp p"
    using assms by (auto simp: darwinConnectionCounts_def dc_result_def split: prod.splits option.splits if_splits)
  obtain ls where "visit_lines (\<lambda>line p. (Inr (), dc_consume line p)) darwinMetricsMaxLines 0 ls
      \<lparr>dc_tcp = 0, dc_udp = 0, dc_foundHeader = False\<rparr> = (None, p)"
    using scan_lines_visit [OF p(1)] by blast
  from visit_dc_ok [OF _ this] show ?thesis by (simp add: p)
qed

lemma add_row_ok: "totals_ok t \<Longrightarrow> add_row index i k t = Some t' \<Longrightarrow> totals_ok t'"
  by (auto simp: add_row_eq totals_ok_def split: if_splits)

lemma if_table_ok: "totals_ok t \<Longrightarrow> if_table_loop allow rows t = Inr t' \<Longrightarrow> totals_ok t'"
  by (induction rows arbitrary: t) (auto dest: add_row_ok split: if_splits option.splits)

lemma adapters_ok: "totals_ok t \<Longrightarrow> adapter_loop allow rows t = Inr t' \<Longrightarrow> totals_ok t'"
  by (induction allow rows t rule: adapter_loop.induct) (auto dest: add_row_ok split: if_splits option.splits)

lemma windows_totals_ok: "windowsNetworkTotals table first second allow = Inr t \<Longrightarrow> totals_ok t"
  using if_table_ok [OF totals_ok_none] adapters_ok [OF totals_ok_none]
  by (auto simp: windowsNetworkTotals_def windowsNetworkTotalsLegacy_def split: option.splits adapters_answer.splits if_splits)

lemma windows_count_range:
  assumes "windowsIPTableCount proc = Inr n"
  shows "0 \<le> n \<and> n < 2 ^ 32"
proof -
  obtain query where "fst (ip_table_loop query 1 windowsIPTableMaxAttempts [] 0) = Inr n"
    using assms by (auto simp: windowsIPTableCount_def windowsIPTableCountWithQuery_def split: option.splits)
  then show ?thesis using ip_table_loop_bounds [OF prod.collapse [symmetric], of query 1 windowsIPTableMaxAttempts "[]" 0] by simp
qed

lemma ipv6_count_range: "ipv6_count (windowsIPTableCount proc) = Inr n \<Longrightarrow> 0 \<le> n \<and> n < 2 ^ 32"
  using windows_count_range [of proc n] by (auto simp: ipv6_count_def split: sum.splits windows_error.splits if_splits)

lemma windows_connections_ok:
  assumes "windowsConnectionCounts q1 q2 q3 q4 = Inr (tcp, udp)"
  shows "0 \<le> tcp \<and> 0 \<le> udp"
proof -
  obtain a b c d where q: "windowsIPTableCount q1 = Inr a" "ipv6_count (windowsIPTableCount q2) = Inr b"
    "windowsIPTableCount q3 = Inr c" "ipv6_count (windowsIPTableCount q4) = Inr d" "tcp = wrap64 (a + b)" "udp = wrap64 (c + d)"
    using assms by (auto simp: windowsConnectionCounts_def split: sum.splits)
  note r = windows_count_range [OF q(1)] ipv6_count_range [OF q(2)] windows_count_range [OF q(3)] ipv6_count_range [OF q(4)]
  have "wrap64 (a + b) = a + b" "wrap64 (c + d) = c + d"
    using r by (auto intro!: wrap64_id simp: fits64_def minInt64_def maxInt64_def)
  then show ?thesis using r q(5,6) by simp
qed

lemma processes_nonneg:
  "0 \<le> processCount entries" "0 \<le> darwinProcessCount n" "0 \<le> windowsProcessCount snapshot"
  by (simp_all add: processCount_def darwinProcessCount_def windows_process_count split: option.split)

interpretation platform: metrics_source "readings implementation cores ids" for implementation cores ids
proof
  fix s now allow t
  assume "me_network (readings implementation cores ids s now) allow = Inr t"
  then show "totals_ok t"
    using linux_totals_ok darwin_totals_ok windows_totals_ok
    by (cases s) (auto simp: readings_def proc_readers_def darwin_readers_def windows_readers_def)
next
  fix s now tcp udp
  assume "me_connections (readings implementation cores ids s now) = Inr (tcp, udp)"
  then show "0 \<le> tcp \<and> 0 \<le> udp"
    using connectionCounts_nonneg darwin_connections_ok windows_connections_ok
    by (cases s) (auto simp: readings_def proc_readers_def darwin_readers_def windows_readers_def)
next
  fix s now
  show "0 \<le> me_processes (readings implementation cores ids s now)"
    by (cases s) (simp_all add: readings_def proc_readers_def darwin_readers_def windows_readers_def processes_nonneg)
qed

subsection \<open>Properties\<close>

text \<open>C25: On Linux, macOS and Windows, whatever files, commands and system calls return at each collection of a run,
  every sample an agent sends has network totals between zero and \<open>2 ^ 63 - 1\<close> and counts of connections and
  processes that are not negative, failed readings included.\<close>

theorem platform_samples_in_range:
  "list_all counts_ok (fst (collections (map (\<lambda>(s, now). (readings implementation cores ids s now, now)) raws)
     (NewMetricsCollector interfaces mounts, seq)))"
  by (rule platform.run_counts [OF collector_ok_new])

text \<open>A build never asks a stub: replacing the stubs of its build by any readers changes nothing.\<close>

theorem stubs_unused:
  "on_platform implementation s now f =
     (case s of Linux r \<Rightarrow> f (proc_readers implementation r now) | Darwin r \<Rightarrow> f (darwin_readers r now)
      | Windows r \<Rightarrow> f (windows_readers r now))"
  by (cases s) simp_all

end
