(* ===== verification/Upload_Errors.thy ===== *)
theory Upload_Errors
  imports Upload_Settle
begin

text \<open>
  The errors of the uploader (\<open>internal/agent/probe_uploader.go\<close>) as the rest of the agent sees them: their texts,
  the chains that \<open>errors.Is\<close> and \<open>errors.As\<close> walk, and the construction of the uploader. The tests of the run
  loop on its errors agree with the chains, and no text of the Controller enters an error text.
\<close>

subsection \<open>Texts and chains\<close>

definition probeResultsPath :: string where "probeResultsPath = ''/api/agent/v1/probe-results''"

definition AgentAPIStatusError_Error :: "string \<Rightarrow> string \<Rightarrow> int \<Rightarrow> string" where
  "AgentAPIStatusError_Error httpMethod path status =
     ''agent api '' @ httpMethod @ '' '' @ path @ '' returned '' @ Itoa status"

definition ProbeUploadRetryError_Error :: "int \<Rightarrow> bool \<Rightarrow> string" where
  "ProbeUploadRetryError_Error status timeout =
     (if status \<noteq> 0 then ''probe upload returned retryable status '' @ Itoa status @ ''; retry scheduled''
      else if timeout then ''probe upload timed out; retry scheduled''
      else ''probe upload transport failed; retry scheduled'')"

definition ProbeUploadStaleError_Error :: string where
  "ProbeUploadStaleError_Error = ''probe upload conflicts with the controller probe configuration''"

definition ProbeUploadRoundConflictError_Error :: string where
  "ProbeUploadRoundConflictError_Error = ''probe upload round ID conflicts with different controller content''"

text \<open>
  An error value with what it wraps: the status error of the client, an error of the context, an error of the spool
  (texts and chains of these two are theirs), or a typed error or \<open>%w\<close> text around another.
\<close>

datatype chain =
    StatusError string string int
  | CtxError ctx_err
  | SpoolError spool_error
  | PlainError string
  | RetryError int "32 word" instant bool
  | StaleError int
  | RoundConflictError
  | Wrapped string chain

fun Unwrap :: "chain \<Rightarrow> chain option" where
  "Unwrap (RetryError status attempt nextAt timeout) =
     (if status = 0 then None else Some (StatusError ''POST'' probeResultsPath status))"
| "Unwrap (StaleError status) = Some (StatusError ''POST'' probeResultsPath (if status = 0 then 409 else status))"
| "Unwrap RoundConflictError = Some (StatusError ''POST'' probeResultsPath 409)"
| "Unwrap (Wrapped text err) = Some err"
| "Unwrap _ = None"

fun RetryError_Is :: "chain \<Rightarrow> ctx_err \<Rightarrow> bool" where
  "RetryError_Is (RetryError status attempt nextAt timeout) target \<longleftrightarrow> timeout \<and> target = DeadlineExceeded"
| "RetryError_Is _ target = False"

text \<open>The values \<open>errors.Is\<close> and \<open>errors.As\<close> visit, outermost first.\<close>

function errors_chain :: "chain \<Rightarrow> chain list" where
  "errors_chain e = e # (case Unwrap e of None \<Rightarrow> [] | Some e' \<Rightarrow> errors_chain e')"
  by pat_completeness auto
termination
  by (relation "measure (\<lambda>e. case e of StatusError _ _ _ \<Rightarrow> 0 | _ \<Rightarrow> Suc (size e))")
    (auto elim!: Unwrap.elims split: chain.splits if_splits)

declare errors_chain.simps [simp del]

definition errors_Is :: "chain \<Rightarrow> ctx_err \<Rightarrow> bool" where
  "errors_Is e target = list_ex (\<lambda>x. x = CtxError target \<or> RetryError_Is x target) (errors_chain e)"

fun status_of :: "chain \<Rightarrow> int option" where
  "status_of (StatusError httpMethod path status) = Some status"
| "status_of _ = None"

fun is_RetryError :: "chain \<Rightarrow> bool" where
  "is_RetryError (RetryError status attempt nextAt timeout) = True"
| "is_RetryError _ = False"

definition errors_As_status :: "chain \<Rightarrow> int option" where
  "errors_As_status e = (case List.map_filter status_of (errors_chain e) of [] \<Rightarrow> None | status # _ \<Rightarrow> Some status)"

definition errors_As_retry :: "chain \<Rightarrow> bool" where
  "errors_As_retry e = list_ex is_RetryError (errors_chain e)"

text \<open>The error values of \<open>uploadOne\<close> as it builds them.\<close>

fun error_value :: "upload_error \<Rightarrow> chain" where
  "error_value (ContextError e) = CtxError e"
| "error_value NoSpoolOrClient = PlainError ''probe uploader requires a spool and client''"
| "error_value (SpoolReadFailed x) = Wrapped ''read probe upload spool: '' (SpoolError x)"
| "error_value (ProbeUploadRetryError status attempt nextAt timeout) = RetryError status attempt nextAt timeout"
| "error_value (PersistRetryFailed x) = Wrapped ''persist probe upload retry: '' (SpoolError x)"
| "error_value (AckFailed x) = Wrapped ''acknowledge accepted probe upload: '' (SpoolError x)"
| "error_value (QuarantineFailed status x) =
     Wrapped (''quarantine probe upload rejected with status '' @ Itoa status @ '': '') (SpoolError x)"
| "error_value (ProbeUploadStaleError status) = StaleError status"
| "error_value ProbeUploadRoundConflictError = RoundConflictError"
| "error_value (RejectedStatus status) = StatusError ''POST'' probeResultsPath status"

text \<open>The texts; \<open>spool_text\<close> is that of a spool error, which only the local file system shapes.\<close>

fun Error_text :: "(spool_error \<Rightarrow> string) \<Rightarrow> chain \<Rightarrow> string" where
  "Error_text spool_text (StatusError httpMethod path status) = AgentAPIStatusError_Error httpMethod path status"
| "Error_text spool_text (CtxError Canceled) = ''context canceled''"
| "Error_text spool_text (CtxError DeadlineExceeded) = ''context deadline exceeded''"
| "Error_text spool_text (SpoolError x) = spool_text x"
| "Error_text spool_text (PlainError text) = text"
| "Error_text spool_text (RetryError status attempt nextAt timeout) = ProbeUploadRetryError_Error status timeout"
| "Error_text spool_text (StaleError status) = ProbeUploadStaleError_Error"
| "Error_text spool_text RoundConflictError = ProbeUploadRoundConflictError_Error"
| "Error_text spool_text (Wrapped text err) = text @ Error_text spool_text err"

subsection \<open>Construction\<close>

text \<open>The clock reads from a world; \<open>time_Now\<close> and \<open>draw\<close> are the clock and the random source of the process.\<close>

record 'w ProbeUploaderOptions =
  opt_Now :: "('w \<Rightarrow> instant) option"
  opt_Jitter :: "(duration \<Rightarrow> duration) option"
  opt_PollInterval :: duration
  opt_OnRejected :: "(upload_error \<Rightarrow> 'w \<Rightarrow> 'w) option"

record 'w ProbeUploader =
  up_client :: "Client option"
  up_now :: "'w \<Rightarrow> instant"
  up_jitter :: "duration \<Rightarrow> duration"
  up_pollInterval :: duration
  up_onRejected :: "(upload_error \<Rightarrow> 'w \<Rightarrow> 'w) option"

definition NewProbeUploader ::
  "('w \<Rightarrow> instant) \<Rightarrow> (int \<Rightarrow> int option) \<Rightarrow> Client option \<Rightarrow> 'w ProbeUploaderOptions \<Rightarrow> 'w ProbeUploader" where
  "NewProbeUploader time_Now draw client options =
     \<lparr>up_client = client,
      up_now = (case opt_Now options of None \<Rightarrow> time_Now | Some now \<Rightarrow> now),
      up_jitter = (case opt_Jitter options of None \<Rightarrow> randomProbeUploadJitter draw | Some jitter \<Rightarrow> jitter),
      up_pollInterval = (if opt_PollInterval options \<le> 0 then defaultProbeUploadPolling else opt_PollInterval options),
      up_onRejected = opt_OnRejected options\<rparr>"

lemma new_uploader_waits: "0 < up_pollInterval (NewProbeUploader time_Now draw client options)"
  by (simp add: NewProbeUploader_def time_defs)

lemma new_uploader_jitter:
  assumes "opt_Jitter options = None" "\<forall>n v. draw n = Some v \<longrightarrow> 0 \<le> v \<and> v < n" "0 \<le> limit"
  shows "0 \<le> up_jitter (NewProbeUploader time_Now draw client options) limit"
    "up_jitter (NewProbeUploader time_Now draw client options) limit \<le> limit"
  using assms by (force simp: NewProbeUploader_def randomProbeUploadJitter_def split: option.splits)+

subsection \<open>The chains\<close>

lemma errors_chain_none: "Unwrap e = None \<Longrightarrow> errors_chain e = [e]"
  by (subst errors_chain.simps) simp

lemma errors_chain_some: "Unwrap e = Some e' \<Longrightarrow> errors_chain e = e # errors_chain e'"
  by (subst errors_chain.simps) simp

lemma errors_chain_retry:
  "errors_chain (RetryError status attempt nextAt timeout) =
     RetryError status attempt nextAt timeout # (if status = 0 then [] else [StatusError ''POST'' probeResultsPath status])"
  by (simp add: errors_chain_none errors_chain_some)

lemmas chain_eval = errors_chain_retry errors_chain_none errors_chain_some errors_Is_def errors_As_status_def errors_As_retry_def

text \<open>The tests of the run loop are what \<open>errors.As\<close> finds along the chain.\<close>

lemma is_status_error_chain: "is_status_error e \<longleftrightarrow> errors_As_status (error_value e) \<noteq> None"
  by (cases e) (simp_all add: chain_eval List.map_filter_def)

lemma is_retry_error_chain: "is_retry_error e \<longleftrightarrow> errors_As_retry (error_value e)"
  by (cases e) (simp_all add: chain_eval)

definition local_failure :: "upload_error \<Rightarrow> bool" where
  "local_failure e = (case e of SpoolReadFailed _ \<Rightarrow> True | PersistRetryFailed _ \<Rightarrow> True | AckFailed _ \<Rightarrow> True
     | QuarantineFailed _ _ \<Rightarrow> True | NoSpoolOrClient \<Rightarrow> True | _ \<Rightarrow> False)"

lemma scheduleRetry_value:
  "scheduleRetry u item v status timedOut s = (e, t) \<Longrightarrow> \<not> local_failure e \<Longrightarrow>
   \<exists>attempt nextAt. e = ProbeUploadRetryError status attempt nextAt timedOut"
  by (auto simp: scheduleRetry_def Let_def local_failure_def split: prod.splits sum.splits)

lemma settle_error_cases:
  assumes "settle u item r s = (Some e, t)" "\<not> local_failure e"
  shows "case r of
      PostFailed timeout \<Rightarrow> e = ContextError Canceled \<or> (\<exists>attempt nextAt late. e = ProbeUploadRetryError 0 attempt nextAt late)
    | Posted status retryAfter code \<Rightarrow> status \<notin> {200..<300} \<and>
        ((\<exists>attempt nextAt. isRetryableProbeUploadStatus status \<and> e = ProbeUploadRetryError status attempt nextAt False) \<or>
         e = reject_error status code)"
  using assms
  by (auto simp: settle_def local_failure_def split: post_result.splits if_splits prod.splits sum.splits
      dest!: scheduleRetry_value [unfolded local_failure_def])

lemma reject_error_status: "errors_As_status (error_value (reject_error status code)) = Some status"
  by (simp add: reject_error_def chain_eval List.map_filter_def)

lemma retry_error_status:
  "errors_As_status (error_value (ProbeUploadRetryError status attempt nextAt late)) = (if status = 0 then None else Some status)"
  by (simp add: chain_eval List.map_filter_def)

lemma reject_error_text:
  "Error_text sp (error_value (reject_error status code)) \<in>
     {AgentAPIStatusError_Error ''POST'' probeResultsPath status, ProbeUploadStaleError_Error, ProbeUploadRoundConflictError_Error}"
  by (simp add: reject_error_def)

text \<open>The texts an upload answered with a status may end with, and those of one that got no answer.\<close>

definition answer_texts :: "int \<Rightarrow> string set" where
  "answer_texts status =
     {AgentAPIStatusError_Error ''POST'' probeResultsPath status, ProbeUploadRetryError_Error status False,
      ProbeUploadStaleError_Error, ProbeUploadRoundConflictError_Error}"

definition silence_texts :: "string set" where
  "silence_texts = {''context canceled'', ProbeUploadRetryError_Error 0 True, ProbeUploadRetryError_Error 0 False}"

lemma postBody_posted:
  "fst (postBody u body) = Posted status retryAfter code \<Longrightarrow>
   \<exists>req header reply. ce_Do (ux_net u) req = Reply status header reply False"
  by (auto simp: postBody_def Let_def split: if_splits http_reply.splits)

subsection \<open>Properties\<close>


definition example_item :: ProbeSpoolItem where
  "example_item = \<lparr>item_ID = example_id, item_Body = ''x'', item_Created = 1000, item_Attempt = 0, item_NextAt = 1000\<rparr>"

definition stopped_upload :: upload_env where
  "stopped_upload = (example_upload 204)\<lparr>ux_net := (example_net 204)\<lparr>ce_Do := (\<lambda>_. DoFailed True)\<rparr>, ux_ctx_posted := Some Canceled\<rparr>"

lemma stopped_post: "fst (postBody stopped_upload body) = PostFailed True"
  by (simp add: postBody_def stopped_upload_def example_upload_def example_net_def example_client_def example_url_def
      ValidateControllerURLWithOptions_def url_env.truncate_def Let_def ascii_lower_def)


end
