(* ===== verification/Windows_Spool.thy ===== *)
theory Windows_Spool
  imports Probe_Spool Go_Text
begin

text \<open>
  The file-system helpers under the spool: those of Windows (\<open>internal/agent/probe_spool_fs_windows.go\<close>), and
  \<open>diskFreeBytes\<close> and \<open>replaceFileAtomically\<close> of Unix (\<open>probe_spool_fs_unix.go\<close>). A Windows object has its
  attributes and its access list; the calls of the Windows API are the environment, and access lists are written
  in its descriptor language (SDDL).
\<close>

record access_entry =
  ae_flags :: string
  ae_rights :: string
  ae_trustee :: string

record access_list =
  al_protected :: bool               \<comment> \<open>nothing is inherited from the parent\<close>
  al_entries :: "access_entry list"

record win_object =
  wo_attributes :: "32 word"
  wo_access :: access_list

type_synonym win_fs = "string \<rightharpoonup> win_object"

definition FILE_ATTRIBUTE_DIRECTORY :: "32 word" where "FILE_ATTRIBUTE_DIRECTORY = 0x10"
definition FILE_ATTRIBUTE_REPARSE_POINT :: "32 word" where "FILE_ATTRIBUTE_REPARSE_POINT = 0x400"

datatype win_error = MkdirFailed | InvalidName | AttributesFailed | NotSafeDirectory string | TokenFailed | DescriptorFailed | SecurityFailed

record win_env =
  we_clean :: "string \<Rightarrow> string"                       \<comment> \<open>\<open>filepath.Clean\<close>\<close>
  we_mkdir :: "string \<Rightarrow> win_fs \<Rightarrow> bool \<times> win_fs"       \<comment> \<open>\<open>os.MkdirAll\<close>\<close>
  we_attributes_fail :: bool
  we_user :: "string option"                            \<comment> \<open>the SID of the process token\<close>
  we_descriptor :: "string \<Rightarrow> access_list option"      \<comment> \<open>\<open>SecurityDescriptorFromString\<close> and its DACL\<close>
  we_set_fails :: bool

text \<open>\<open>windows.UTF16PtrFromString\<close> refuses names with a zero byte.\<close>

definition utf16_ok :: "string \<Rightarrow> bool" where
  "utf16_ok name \<longleftrightarrow> CHR 0x00 \<notin> set name"

definition private_sddl :: "string \<Rightarrow> string" where
  "private_sddl sid = ''D:P(A;OICI;FA;;;SY)(A;OICI;FA;;;BA)(A;OICI;FA;;;'' @ sid @ '')''"

definition set_access :: "string \<Rightarrow> access_list \<Rightarrow> win_fs \<Rightarrow> win_fs" where
  "set_access path al fs = (case fs path of None \<Rightarrow> fs | Some x \<Rightarrow> fs(path \<mapsto> x\<lparr>wo_access := al\<rparr>))"

text \<open>\<open>PROTECTED_DACL_SECURITY_INFORMATION\<close> protects the list that is set, whatever the descriptor says.\<close>

definition windows_ensurePrivateDirectory :: "win_env \<Rightarrow> string \<Rightarrow> win_fs \<Rightarrow> win_error option \<times> win_fs" where
  "windows_ensurePrivateDirectory env path fs =
     (let (made, fs1) = we_mkdir env path fs; name = we_clean env path in
      if \<not> made then (Some MkdirFailed, fs1)
      else if \<not> utf16_ok name then (Some InvalidName, fs1)
      else if we_attributes_fail env then (Some AttributesFailed, fs1)
      else case fs1 name of
        None \<Rightarrow> (Some AttributesFailed, fs1)
      | Some x \<Rightarrow>
          if and (wo_attributes x) FILE_ATTRIBUTE_REPARSE_POINT \<noteq> 0 \<or> and (wo_attributes x) FILE_ATTRIBUTE_DIRECTORY = 0
          then (Some (NotSafeDirectory path), fs1)
          else (case we_user env of
              None \<Rightarrow> (Some TokenFailed, fs1)
            | Some sid \<Rightarrow>
                (case we_descriptor env (private_sddl sid) of
                   None \<Rightarrow> (Some DescriptorFailed, fs1)
                 | Some al \<Rightarrow>
                     if we_set_fails env then (Some SecurityFailed, fs1)
                     else (None, set_access name (al\<lparr>al_protected := True\<rparr>) fs1))))"

text \<open>\<open>GetDiskFreeSpaceEx\<close>: the bytes available to the caller.\<close>

definition windows_diskFreeBytes :: "(string \<Rightarrow> string) \<Rightarrow> (string \<Rightarrow> 64 word option) \<Rightarrow> string \<Rightarrow> win_error + 64 word" where
  "windows_diskFreeBytes clean available path =
     (if \<not> utf16_ok (clean path) then Inl InvalidName
      else case available (clean path) of None \<Rightarrow> Inl AttributesFailed | Some n \<Rightarrow> Inr n)"

text \<open>\<open>statfs\<close> of Unix gives the available blocks and their size.\<close>

definition diskFreeBytes :: "(string \<Rightarrow> (64 word \<times> 64 word) option) \<Rightarrow> string \<Rightarrow> 64 word option" where
  "diskFreeBytes statfs path = (case statfs path of None \<Rightarrow> None | Some (bavail, bsize) \<Rightarrow> Some (bavail * bsize))"

text \<open>
  Replacing a file within one directory: \<open>rename\<close> of Unix, and \<open>MoveFileEx\<close> with \<open>MOVEFILE_REPLACE_EXISTING\<close>
  and \<open>MOVEFILE_WRITE_THROUGH\<close>. Neither puts a file over a directory; a missing source is an error.
\<close>

definition move_over :: "string \<Rightarrow> string \<Rightarrow> dir \<Rightarrow> dir option" where
  "move_over source destination d =
     (case dir_get d source of
        Some (Regular content) \<Rightarrow>
          (case dir_get d destination of
             Some (Directory _) \<Rightarrow> None
           | _ \<Rightarrow> Some (dir_put destination (Regular content) (dir_del source d)))
      | _ \<Rightarrow> None)"

definition replaceFileAtomically :: "string \<Rightarrow> string \<Rightarrow> dir \<Rightarrow> dir option" where
  "replaceFileAtomically source destination d = move_over source destination d"

definition windows_replaceFileAtomically :: "string \<Rightarrow> string \<Rightarrow> dir \<Rightarrow> dir option" where
  "windows_replaceFileAtomically source destination d =
     (if \<not> utf16_ok source \<or> \<not> utf16_ok destination then None else move_over source destination d)"

definition windows_syncDirectory :: "string \<Rightarrow> win_error option" where
  "windows_syncDirectory path = None"

section \<open>The private directory\<close>

text \<open>How access lists are written; the hypothesis on the descriptor parser is that it reads this back.\<close>

definition entry_text :: "access_entry \<Rightarrow> string" where
  "entry_text e = ''(A;'' @ ae_flags e @ '';'' @ ae_rights e @ '';;;'' @ ae_trustee e @ '')''"

definition sddl_text :: "access_list \<Rightarrow> string" where
  "sddl_text al = ''D:'' @ (if al_protected al then ''P'' else []) @ concat (map entry_text (al_entries al))"

definition full_control :: "string \<Rightarrow> access_entry" where
  "full_control trustee = \<lparr>ae_flags = ''OICI'', ae_rights = ''FA'', ae_trustee = trustee\<rparr>"

definition private_list :: "string \<Rightarrow> access_list" where
  "private_list sid = \<lparr>al_protected = True, al_entries = [full_control ''SY'', full_control ''BA'', full_control sid]\<rparr>"

lemma private_sddl_eq: "private_sddl sid = sddl_text (private_list sid)"
  by (simp add: private_sddl_def sddl_text_def private_list_def full_control_def entry_text_def)

text \<open>A SID in text form.\<close>

definition sid_text :: "string \<Rightarrow> bool" where
  "sid_text s \<longleftrightarrow> s \<noteq> [] \<and> list_all (\<lambda>ch. CHR ''0'' \<le> ch \<and> ch \<le> CHR ''9'' \<or> CHR ''A'' \<le> ch \<and> ch \<le> CHR ''Z'' \<or> ch = CHR ''-'') s"

definition entry_ok :: "access_entry \<Rightarrow> bool" where
  "entry_ok e \<longleftrightarrow> sid_text (ae_flags e) \<and> sid_text (ae_rights e) \<and> sid_text (ae_trustee e)"

definition reads_sddl :: "(string \<Rightarrow> access_list option) \<Rightarrow> bool" where
  "reads_sddl parse \<longleftrightarrow> (\<forall>al. list_all entry_ok (al_entries al) \<longrightarrow> parse (sddl_text al) = Some al)"


text \<open>The two systems replace files alike, for names without a zero byte; names of the spool have none.\<close>

lemma replace_agrees:
  "utf16_ok source \<Longrightarrow> utf16_ok destination \<Longrightarrow>
   windows_replaceFileAtomically source destination d = replaceFileAtomically source destination d"
  by (simp add: windows_replaceFileAtomically_def replaceFileAtomically_def)

text \<open>The rename at the end of \<open>atomicWritePrivateFile\<close> is this replacement, on either system.\<close>

lemma rename_is_replacement:
  assumes "faults s = []" "dir_get (pending s) tmp = Some (Regular content)" "utf16_ok tmp" "utf16_ok name"
  shows "rename_temp tmp name content s =
    (case windows_replaceFileAtomically tmp name (pending s) of
       None \<Rightarrow> (Inl IOError, s)
     | Some d \<Rightarrow> (Inr (), s\<lparr>pending := d\<rparr>))"
  using assms
  by (auto simp: rename_temp_def bindS_def syscall_def getS_def failS_def del_pending_def put_pending_def modifyS_def returnS_def
      windows_replaceFileAtomically_def move_over_def split: option.splits node.splits)

text \<open>A parser that meets the hypothesis: entries end at a parenthesis, their fields at a semicolon.\<close>

definition example_entry :: "string \<Rightarrow> access_entry option" where
  "example_entry w =
     (case split_at (CHR '';'') w of
        [a, f, r, x, y, t] \<Rightarrow> Some \<lparr>ae_flags = f, ae_rights = r, ae_trustee = t\<rparr>
      | _ \<Rightarrow> None)"

definition example_descriptor :: "string \<Rightarrow> access_list option" where
  "example_descriptor s =
     (let body = drop 2 s; prot = (body \<noteq> [] \<and> hd body = CHR ''P'');
          parts = butlast (split_at (CHR '')'') (if prot then tl body else body))
      in Some \<lparr>al_protected = prot, al_entries = List.map_filter example_entry parts\<rparr>)"

lemma sid_plain: "sid_text w \<Longrightarrow> CHR '';'' \<notin> set w \<and> CHR '')'' \<notin> set w"
  by (auto simp: sid_text_def list_all_iff less_eq_char_def)

lemma example_entry_text:
  assumes "entry_ok e"
  shows "example_entry (''(A;'' @ ae_flags e @ '';'' @ ae_rights e @ '';;;'' @ ae_trustee e) = Some e"
proof -
  let ?c = "CHR '';''"
  have p: "?c \<notin> set (ae_flags e)" "?c \<notin> set (ae_rights e)" "?c \<notin> set (ae_trustee e)"
    using assms sid_plain by (auto simp: entry_ok_def)
  have "split_at ?c (''(A'' @ ?c # ae_flags e @ ?c # ae_rights e @ ?c # [] @ ?c # [] @ ?c # ae_trustee e) =
      [''(A'', ae_flags e, ae_rights e, [], [], ae_trustee e]"
    using p by (subst split_at_append, simp)+ (simp add: split_at_plain)
  then show ?thesis by (simp add: example_entry_def)
qed

lemma example_entries:
  "list_all entry_ok es \<Longrightarrow>
   List.map_filter example_entry (butlast (split_at (CHR '')'') (concat (map entry_text es)))) = es"
proof (induction es)
  case (Cons e es)
  let ?w = "''(A;'' @ ae_flags e @ '';'' @ ae_rights e @ '';;;'' @ ae_trustee e"
  have "CHR '')'' \<notin> set ?w" using Cons.prems sid_plain by (auto simp: entry_ok_def)
  then have "split_at (CHR '')'') (concat (map entry_text (e # es))) = ?w # split_at (CHR '')'') (concat (map entry_text es))"
    using split_at_append [of "CHR '')''" ?w "concat (map entry_text es)"] by (simp add: entry_text_def)
  then show ?case using Cons example_entry_text [of e] by (simp add: List.map_filter_simps)
qed (simp add: List.map_filter_simps)

lemma example_descriptor_reads: "reads_sddl example_descriptor"
  unfolding reads_sddl_def
proof (intro allI impI)
  fix al :: access_list
  assume ok: "list_all entry_ok (al_entries al)"
  have "concat (map entry_text es) = [] \<or> hd (concat (map entry_text es)) \<noteq> CHR ''P''" for es
    by (cases es) (simp_all add: entry_text_def)
  then show "example_descriptor (sddl_text al) = Some al"
    using example_entries [OF ok] by (auto simp: example_descriptor_def sddl_text_def Let_def)
qed

definition example_win_env :: win_env where
  "example_win_env = \<lparr>we_clean = id,
     we_mkdir = (\<lambda>p fs. (True, fs(p \<mapsto> \<lparr>wo_attributes = 0x10, wo_access = \<lparr>al_protected = False, al_entries = []\<rparr>\<rparr>))),
     we_attributes_fail = False, we_user = Some ''S-1-5-19'', we_descriptor = example_descriptor, we_set_fails = False\<rparr>"


end
