(* ===== verification/Agent_System.thy ===== *)
theory Agent_System
  imports Probe_Cycle Spool_Refinement Upload_Settle
begin

text \<open>
  The probe side of the running agent: all interleavings of the configuration refreshers, the probe runners
  and the uploader on one target manager and one spool (\<open>runAgent\<close> of \<open>cmd/zeno-agent/main.go\<close> starts them as
  goroutines). The steps of refreshers and runners are those of \<open>Manager_Steps\<close>, with the write of a batch
  joined to \<open>Enqueue\<close> on the spool. An upload is three steps, because the spool's mutex is free while the
  request is on its way: take the next item, post it, settle it. Ghost fields keep the first envelope of every
  item, the answers of the Controller and the clock readings at which the spool was cleaned.
\<close>

datatype uploader_pc =
    U_Idle
  | U_Taken ProbeSpoolItem
  | U_Answered ProbeSpoolItem post_result

record agent_world =
  aw_sys :: agent_sys
  aw_spool :: spool_fs
  aw_uploader :: uploader_pc
  aw_batches :: "string \<rightharpoonup> probeSpoolEnvelope"
  aw_answers :: "(http_request \<times> post_result) list"
  aw_clocks :: "instant list"

definition init_world :: "codec \<Rightarrow> ProbeSpoolLimits \<Rightarrow> spool_fs \<Rightarrow> agent_world" where
  "init_world c limits s =
     \<lparr>aw_sys = init_sys, aw_spool = s, aw_uploader = U_Idle, aw_batches = items c limits s, aw_answers = [], aw_clocks = []\<rparr>"

text \<open>Clock readings between the epoch and the end of the range of \<open>UnixNano\<close>, five minutes ahead included.\<close>

definition clock_ok :: "instant \<Rightarrow> bool" where
  "clock_ok now \<longleftrightarrow> 0 < now \<and> now + 300 * Second \<le> maxInt64"

definition item_name :: "ProbeSpoolItem \<Rightarrow> string" where
  "item_name item = item_ID item @ ''.json''"

text \<open>
  The names of new items do not repeat (they hold the time in nanoseconds and random bytes); this is the
  premise of \<open>world_enqueued\<close> on the ghost field.
\<close>

inductive world_step :: "codec \<Rightarrow> ProbeSpoolLimits \<Rightarrow> agent_world \<Rightarrow> agent_world \<Rightarrow> bool"
  for c :: codec and limits :: ProbeSpoolLimits where
  world_manager:
    "agent_step (aw_sys w) t \<Longrightarrow> persisted t = persisted (aw_sys w) \<Longrightarrow>
     world_step c limits w (w\<lparr>aw_sys := t\<rparr>)"
| world_enqueued:
    "runners (aw_sys w) i = P_Checked b rounds \<Longrightarrow> clock_ok (env_now env) \<Longrightarrow>
     aw_batches w (new_id env @ ''.json'') = None \<Longrightarrow>
     Enqueue c limits env rounds (aw_spool w) = (Inr ident, s') \<Longrightarrow> marshalProbeResults c rounds = Inr body \<Longrightarrow>
     world_step c limits w
       (w\<lparr>aw_sys := (aw_sys w)\<lparr>runners := (runners (aw_sys w))(i := P_Persisted b), persisted := (b, rounds) # persisted (aw_sys w)\<rparr>,
          aw_spool := s', aw_batches := (aw_batches w)(ident @ ''.json'' \<mapsto> new_envelope c (env_now env) body),
          aw_clocks := env_now env # aw_clocks w\<rparr>)"
| world_enqueue_failed:
    "runners (aw_sys w) i = P_Checked b rounds \<Longrightarrow> clock_ok (env_now env) \<Longrightarrow>
     Enqueue c limits env rounds (aw_spool w) = (Inl e, s') \<Longrightarrow>
     world_step c limits w
       (w\<lparr>aw_sys := (aw_sys w)\<lparr>mgr := endRun (mgr (aw_sys w)), runners := (runners (aw_sys w))(i := P_Idle)\<rparr>,
          aw_spool := s', aw_clocks := env_now env # aw_clocks w\<rparr>)"
| world_next:
    "aw_uploader w = U_Idle \<Longrightarrow> Next c limits now (aw_spool w) = (r, s') \<Longrightarrow>
     world_step c limits w
       (w\<lparr>aw_spool := s', aw_clocks := now # aw_clocks w,
          aw_uploader := (case r of Inr (Some item) \<Rightarrow> U_Taken item | _ \<Rightarrow> U_Idle)\<rparr>)"
| world_post:
    "aw_uploader w = U_Taken item \<Longrightarrow> postBody u (item_Body item) = (r, requests) \<Longrightarrow>
     world_step c limits w
       (w\<lparr>aw_uploader := U_Answered item r, aw_answers := map (\<lambda>q. (q, r)) requests @ aw_answers w\<rparr>)"
| world_settle:
    "aw_uploader w = U_Answered item r \<Longrightarrow> ux_codec u = c \<Longrightarrow> ux_limits u = limits \<Longrightarrow> clock_ok (ux_now u) \<Longrightarrow>
     settle u item r (aw_spool w) = (err, s') \<Longrightarrow>
     world_step c limits w (w\<lparr>aw_spool := s', aw_uploader := U_Idle\<rparr>)"

inductive world_reachable :: "codec \<Rightarrow> ProbeSpoolLimits \<Rightarrow> spool_fs \<Rightarrow> agent_world \<Rightarrow> bool"
  for c :: codec and limits :: ProbeSpoolLimits and s :: spool_fs where
  world_init: "world_reachable c limits s (init_world c limits s)"
| world_next_state: "world_reachable c limits s w \<Longrightarrow> world_step c limits w w' \<Longrightarrow> world_reachable c limits s w'"

subsection \<open>The manager runs as in Manager_Steps\<close>

lemma world_step_manager: "world_step c limits w w' \<Longrightarrow> agent_step (aw_sys w) (aw_sys w') \<or> aw_sys w' = aw_sys w"
  by (induction rule: world_step.induct) (auto intro: agent_step.run_enqueued agent_step.run_enqueue_failed)

lemma world_manager_reachable: "world_reachable c limits s w \<Longrightarrow> agent_reachable (aw_sys w)"
proof (induction rule: world_reachable.induct)
  case world_init
  show ?case by (simp add: init_world_def agent_init)
next
  case (world_next_state w w')
  then show ?case using world_step_manager agent_next by metis
qed

subsection \<open>Completion and persistence\<close>

definition completed_inv :: "agent_sys \<Rightarrow> bool" where
  "completed_inv s \<longleftrightarrow>
     (\<forall>i b. runners s i = P_Persisted b \<longrightarrow> (\<exists>rs. (b, rs) \<in> set (persisted s))) \<and>
     (\<forall>ident \<in> dom (lastCompleted (scheduler (mgr s))). \<exists>b rs. (b, rs) \<in> set (persisted s) \<and> ident \<in> target_ID ` set (batch_targets b))"

lemma completed_keep:
  assumes "completed_inv s" "\<And>i b. runners t i = P_Persisted b \<Longrightarrow> runners s i = P_Persisted b"
    "set (persisted s) \<subseteq> set (persisted t)" "dom (lastCompleted (scheduler (mgr t))) \<subseteq> dom (lastCompleted (scheduler (mgr s)))"
  shows "completed_inv t"
  using assms unfolding completed_inv_def by (meson subset_iff)

lemma scheduler_frame [simp]:
  "scheduler (endRefresh m) = scheduler m" "scheduler (endRun m) = scheduler m"
  by (simp_all add: endRefresh_def endRun_def)

lemma update_schedule: "update m ts v = Inr m' \<Longrightarrow> dom (lastCompleted (scheduler m')) \<subseteq> dom (lastCompleted (scheduler m))"
  by (erule updateE) (auto simp: NewProbeScheduler_def)

lemma marked_ids:
  "dom (lastCompleted (scheduler (snd (markCompleted m b now)))) \<subseteq>
   dom (lastCompleted (scheduler m)) \<union> target_ID ` set (batch_targets b)"
  using ps.recorded_mark_keys [of "scheduler m" "batch_targets b" now] by (auto simp: markCompleted_eq dom_def)

lemma step_completed: "agent_step s t \<Longrightarrow> completed_inv s \<Longrightarrow> completed_inv t"
proof (induction rule: agent_step.induct)
  case (run_enqueued s i b rounds)
  then show ?case by (auto simp: completed_inv_def) blast+
next
  case (run_marked s i b now)
  then obtain rs where rs: "(b, rs) \<in> set (persisted s)" unfolding completed_inv_def by blast
  show ?case unfolding completed_inv_def
  proof (intro conjI allI impI ballI)
    fix ident assume "ident \<in> dom (lastCompleted (scheduler (mgr
      (s\<lparr>mgr := endRun (snd (markCompleted (mgr s) b now)), runners := (runners s)(i := P_Idle)\<rparr>))))"
    then have "ident \<in> dom (lastCompleted (scheduler (mgr s))) \<or> ident \<in> target_ID ` set (batch_targets b)"
      using marked_ids [of "mgr s" b now] by auto
    then have "\<exists>b' rs. (b', rs) \<in> set (persisted s) \<and> ident \<in> target_ID ` set (batch_targets b')"
      using run_marked(2) rs unfolding completed_inv_def by blast
    then show "\<exists>b' rs. (b', rs) \<in> set (persisted (s\<lparr>mgr := endRun (snd (markCompleted (mgr s) b now)),
        runners := (runners s)(i := P_Idle)\<rparr>)) \<and> ident \<in> target_ID ` set (batch_targets b')" by simp
  qed (use run_marked in \<open>auto simp: completed_inv_def split: if_splits\<close>)
next
  case (refresh_updated s i v response m')
  then show ?case by (intro completed_keep [OF refresh_updated(4)]) (simp_all add: update_schedule)
qed (auto elim!: completed_keep dest!: gate_enter split: if_splits)

lemma reachable_completed: "agent_reachable s \<Longrightarrow> completed_inv s"
proof (induction rule: agent_reachable.induct)
  case agent_init
  show ?case by (simp add: completed_inv_def init_sys_def newProbeTargetManager_def NewProbeScheduler_def)
qed (rule step_completed)

subsection \<open>What becomes of an item\<close>

definition same_batch :: "probeSpoolEnvelope \<Rightarrow> probeSpoolEnvelope \<Rightarrow> bool" where
  "same_batch e e0 \<longleftrightarrow> Batch e = Batch e0 \<and> Created e = Created e0"

text \<open>The Controller answered a request with exactly this body with a final status: 2xx, or one that is not worth a retry.\<close>

definition final_answer :: "agent_world \<Rightarrow> string \<Rightarrow> bool" where
  "final_answer w body \<longleftrightarrow>
     (\<exists>q status ra code. (q, Posted status ra code) \<in> set (aw_answers w) \<and> req_Body q = Some body \<and>
        (200 \<le> status \<and> status < 300 \<or> \<not> isRetryableProbeUploadStatus status))"

definition fate :: "codec \<Rightarrow> ProbeSpoolLimits \<Rightarrow> agent_world \<Rightarrow> string \<Rightarrow> probeSpoolEnvelope \<Rightarrow> bool" where
  "fate c limits w n e0 \<longleftrightarrow>
     (\<exists>e. items c limits (aw_spool w) n = Some e \<and> same_batch e e0) \<or> final_answer w (Batch e0) \<or>
     (\<exists>now\<in>set (aw_clocks w). expired limits now e0)"

text \<open>
  The items of the queue are known by their first envelope, every known item has met its fate, and the
  uploader works on a known item whose request, once answered, is on record.
\<close>

fun uploader_inv :: "(string \<rightharpoonup> probeSpoolEnvelope) \<Rightarrow> (http_request \<times> post_result) list \<Rightarrow> uploader_pc \<Rightarrow> bool" where
  "uploader_inv B posts U_Idle \<longleftrightarrow> True"
| "uploader_inv B posts (U_Taken item) \<longleftrightarrow> (\<exists>e0. B (item_name item) = Some e0 \<and> Batch e0 = item_Body item)"
| "uploader_inv B posts (U_Answered item r) \<longleftrightarrow>
     (\<exists>e0. B (item_name item) = Some e0 \<and> Batch e0 = item_Body item) \<and>
     (\<forall>status ra code. r = Posted status ra code \<longrightarrow> (\<exists>q. (q, r) \<in> set posts \<and> req_Body q = Some (item_Body item)))"

definition known :: "(string \<rightharpoonup> probeSpoolEnvelope) \<Rightarrow> queue \<Rightarrow> bool" where
  "known B q \<longleftrightarrow> (\<forall>n e. q n = Some e \<longrightarrow> (\<exists>e0. B n = Some e0 \<and> same_batch e e0))"

definition world_inv :: "codec \<Rightarrow> ProbeSpoolLimits \<Rightarrow> agent_world \<Rightarrow> bool" where
  "world_inv c limits w \<longleftrightarrow>
     quiet c limits (aw_spool w) \<and> known (aw_batches w) (items c limits (aw_spool w)) \<and>
     uploader_inv (aw_batches w) (aw_answers w) (aw_uploader w) \<and>
     (\<forall>n e0. aw_batches w n = Some e0 \<longrightarrow> fate c limits w n e0) \<and>
     (\<forall>(b, rs)\<in>set (persisted (aw_sys w)). \<exists>n e0. aw_batches w n = Some e0 \<and> marshalProbeResults c rs = Inr (Batch e0))"

lemma world_invD:
  assumes "world_inv c limits w"
  shows "quiet c limits (aw_spool w)" "known (aw_batches w) (items c limits (aw_spool w))"
    "uploader_inv (aw_batches w) (aw_answers w) (aw_uploader w)"
    "\<And>n e0. aw_batches w n = Some e0 \<Longrightarrow> fate c limits w n e0"
    "\<And>b rs. (b, rs) \<in> set (persisted (aw_sys w)) \<Longrightarrow> \<exists>n e0. aw_batches w n = Some e0 \<and> marshalProbeResults c rs = Inr (Batch e0)"
  using assms by (auto simp: world_inv_def)

lemma same_batch_simps [simp]:
  "same_batch e e" "same_batch (e\<lparr>Attempt := a, NextAt := t\<rparr>) e0 = same_batch e e0"
  by (simp_all add: same_batch_def)

lemma same_batch_expired: "same_batch e e0 \<Longrightarrow> expired limits now e = expired limits now e0"
  by (simp add: same_batch_def expired_def)

text \<open>
  One rule for a step that takes the queue from \<open>q\<close> to \<open>q'\<close>: items may only vanish because they expired at a
  clock reading on record or because the Controller's answer to them is.
\<close>

lemma fate_step:
  assumes "fate c limits w n e0" "set (aw_clocks w) \<subseteq> set (aw_clocks w')" "set (aw_answers w) \<subseteq> set (aw_answers w')"
    "\<And>e. items c limits (aw_spool w) n = Some e \<Longrightarrow> same_batch e e0 \<Longrightarrow>
      (\<exists>e'. items c limits (aw_spool w') n = Some e' \<and> same_batch e' e) \<or> final_answer w' (Batch e0) \<or>
      (\<exists>now\<in>set (aw_clocks w'). expired limits now e)"
  shows "fate c limits w' n e0"
  using assms(1) unfolding fate_def
proof (elim disjE)
  assume "\<exists>e. items c limits (aw_spool w) n = Some e \<and> same_batch e e0"
  then obtain e where e: "items c limits (aw_spool w) n = Some e" "same_batch e e0" by blast
  from assms(4) [OF e] show "(\<exists>e. items c limits (aw_spool w') n = Some e \<and> same_batch e e0) \<or>
      final_answer w' (Batch e0) \<or> (\<exists>now\<in>set (aw_clocks w'). expired limits now e0)"
    using e(2) by (auto simp: same_batch_def expired_def)
next
  assume "final_answer w (Batch e0)"
  then have "final_answer w' (Batch e0)" using assms(3) unfolding final_answer_def by blast
  then show "(\<exists>e. items c limits (aw_spool w') n = Some e \<and> same_batch e e0) \<or>
      final_answer w' (Batch e0) \<or> (\<exists>now\<in>set (aw_clocks w'). expired limits now e0)" by blast
qed (use assms(2) in blast)

lemma purged_known: "known B q \<Longrightarrow> known B (purged limits now q)"
  by (auto simp: known_def purged_def split: option.splits if_splits)

lemma decays_known: "known B q \<Longrightarrow> decays limits now q q' \<Longrightarrow> known B q'"
  unfolding known_def decays_def map_le_def by (metis domI)

lemma purged_decays: "decays limits now q (purged limits now q)"
  by (auto simp: decays_def purged_def map_le_def dom_def split: option.splits if_splits)

lemma decays_fate:
  assumes "decays limits now q q'" "q n = Some e"
  shows "(\<exists>e'. q' n = Some e' \<and> same_batch e' e) \<or> expired limits now e"
  using assms same_batch_simps(1) unfolding decays_def by blast

lemma item_of_name: "items c limits s n = Some e \<Longrightarrow> item_name (probeSpoolItemFromEnvelope (TrimSuffix_json n) e) = n"
proof -
  assume "items c limits s n = Some e"
  then have "HasSuffix n ''.json''" by (simp add: items_Some)
  then show ?thesis by (auto simp: item_name_def probeSpoolItemFromEnvelope_def TrimSuffix_json_def HasSuffix_iff)
qed

subsection \<open>The steps keep the invariant\<close>

text \<open>A step of the manager alone, or any step that leaves the queue as it is.\<close>

lemma inv_frame:
  assumes "world_inv c limits w" "aw_spool w' = aw_spool w" "aw_batches w' = aw_batches w"
    "set (aw_answers w) \<subseteq> set (aw_answers w')" "set (aw_clocks w) \<subseteq> set (aw_clocks w')"
    "persisted (aw_sys w') = persisted (aw_sys w)" "uploader_inv (aw_batches w) (aw_answers w') (aw_uploader w')"
  shows "world_inv c limits w'"
proof -
  have "fate c limits w' n e0" if "aw_batches w n = Some e0" for n e0
    by (rule fate_step [OF world_invD(4) [OF assms(1) that] assms(5,4)]) (use assms(2) in \<open>auto intro: exI [of _ e0]\<close>)
  then show ?thesis using assms unfolding world_inv_def by auto
qed

text \<open>A step in which the queue only loses expired items.\<close>

lemma inv_decay:
  assumes "world_inv c limits w" "quiet c limits (aw_spool w')"
    "decays limits now (items c limits (aw_spool w)) (items c limits (aw_spool w'))"
    "aw_batches w' = aw_batches w" "aw_answers w' = aw_answers w" "aw_clocks w' = now # aw_clocks w"
    "persisted (aw_sys w') = persisted (aw_sys w)" "uploader_inv (aw_batches w) (aw_answers w) (aw_uploader w')"
  shows "world_inv c limits w'"
proof -
  have "fate c limits w' n e0" if "aw_batches w n = Some e0" for n e0
    by (rule fate_step [OF world_invD(4) [OF assms(1) that]])
      (use assms(5,6) decays_fate [OF assms(3)] in \<open>simp_all, blast+\<close>)
  then show ?thesis using assms decays_known [OF world_invD(2) [OF assms(1)] assms(3)] unfolding world_inv_def by auto
qed

lemma clock_UnixNano: "clock_ok now \<Longrightarrow> 0 \<le> d \<Longrightarrow> d \<le> 300 * Second \<Longrightarrow> 0 < UnixNano (now + d)"
  using wrap64_id [of "now + d"] by (simp add: clock_ok_def UnixNano_def fits64_def minInt64_def maxInt64_def)

lemma inv_enqueued:
  assumes c: "codec_ok c" and w: "world_inv c limits w" and k: "clock_ok (env_now env)"
    and fresh: "aw_batches w (new_id env @ ''.json'') = None"
    and r: "Enqueue c limits env rounds (aw_spool w) = (Inr ident, s')" and m: "marshalProbeResults c rounds = Inr body"
    and w': "aw_spool w' = s'" "aw_batches w' = (aw_batches w)(ident @ ''.json'' \<mapsto> new_envelope c (env_now env) body)"
      "aw_answers w' = aw_answers w" "aw_clocks w' = env_now env # aw_clocks w" "aw_uploader w' = aw_uploader w"
      "persisted (aw_sys w') = (b, rounds) # persisted (aw_sys w)"
  shows "world_inv c limits w'"
proof -
  let ?n = "new_id env @ ''.json''" and ?e = "new_envelope c (env_now env) body"
  let ?q = "items c limits (aw_spool w)"
  have pos: "0 < UnixNano (env_now env)" using clock_UnixNano [OF k, of 0] by (simp add: time_defs)
  have step: "ident = new_id env" "items c limits s' = (purged limits (env_now env) ?q)(?n \<mapsto> ?e)" "quiet c limits s'"
    using spool_step_refines [OF c world_invD(1) [OF w], of "C_Enqueue env rounds" "Inr (R_ID ident)" s'] pos r m
    by (auto simp: with_reply_def)
  note b' = w'(2) [unfolded step(1)]
  have kept: "n \<noteq> ?n \<and> aw_batches w' n = Some e0" if "aw_batches w n = Some e0" for n e0
    using that fresh by (auto simp: b')
  have "fate c limits w' n e0" if "aw_batches w' n = Some e0" for n e0
  proof (cases "n = ?n")
    case True
    then show ?thesis using that by (simp add: fate_def b' w'(1) step(2))
  next
    case False
    then have old: "aw_batches w n = Some e0" using that by (simp add: b')
    show ?thesis
      by (rule fate_step [OF world_invD(4) [OF w old]])
        (use False w'(3,4) decays_fate [OF purged_decays, of ?q n _ limits "env_now env"] in \<open>auto simp: w'(1) step(2)\<close>)
  qed
  moreover have "known (aw_batches w') (items c limits s')"
    using purged_known [OF world_invD(2) [OF w], of limits "env_now env"] kept
    by (auto simp: known_def step(2) b' same_batch_def)
  moreover have "uploader_inv (aw_batches w') (aw_answers w') (aw_uploader w')"
    using world_invD(3) [OF w] kept by (cases "aw_uploader w") (auto simp: w'(3,5))
  moreover have "\<exists>n e0. aw_batches w' n = Some e0 \<and> marshalProbeResults c rs = Inr (Batch e0)"
    if "(b', rs) \<in> set (persisted (aw_sys w'))" for b' rs
  proof (cases "(b', rs) = (b, rounds)")
    case True
    then show ?thesis using m by (intro exI [of _ ?n] exI [of _ ?e]) (simp add: b' new_envelope_def)
  next
    case False
    then have "(b', rs) \<in> set (persisted (aw_sys w))" using that w'(6) by auto
    then show ?thesis using world_invD(5) [OF w] kept by blast
  qed
  ultimately show ?thesis using step(3) unfolding world_inv_def w'(1) by blast
qed

text \<open>Settling an upload: the answered item leaves the queue, keeps its batch, or stays.\<close>

definition settled_queue :: "string \<Rightarrow> post_result \<Rightarrow> queue \<Rightarrow> queue \<Rightarrow> bool" where
  "settled_queue n r q q' \<longleftrightarrow>
     q' = q \<or> (\<exists>e a t. q n = Some e \<and> q' = q(n \<mapsto> e\<lparr>Attempt := a, NextAt := t\<rparr>)) \<or>
     q' = q(n := None) \<and>
       (\<exists>status ra code. r = Posted status ra code \<and> (200 \<le> status \<and> status < 300 \<or> \<not> isRetryableProbeUploadStatus status))"

lemma settle_queue:
  assumes c: "codec_ok (ux_codec u)" and q: "quiet (ux_codec u) (ux_limits u) s" and k: "clock_ok (ux_now u)"
    and r: "settle u item r s = (err, s')"
  shows "quiet (ux_codec u) (ux_limits u) s' \<and>
    settled_queue (item_name item) r (items (ux_codec u) (ux_limits u) s) (items (ux_codec u) (ux_limits u) s')"
    (is "?P s'")
proof -
  have retry: "?P t" if t: "scheduleRetry u item ra st to s = (e, t)" for ra st to e t
  proof -
    let ?a = "next_attempt (item_Attempt item)" let ?at = "ux_now u + retry_delay u ra ?a"
    obtain x where x: "ScheduleRetry (ux_codec u) (ux_limits u) (ux_spool u) (item_ID item) ?a ?at s = (x, t)"
      using t by (auto simp: scheduleRetry_def Let_def split: prod.splits sum.splits)
    have "0 < UnixNano ?at" using clock_UnixNano [OF k] retry_delay_bounds by blast
    then have R: "queue_step (ux_codec u) (ux_limits u) (C_ScheduleRetry (ux_spool u) (item_ID item) ?a ?at)
        (items (ux_codec u) (ux_limits u) s) (map_sum id (\<lambda>_. R_Done) x) (items (ux_codec u) (ux_limits u) t)"
        "quiet (ux_codec u) (ux_limits u) t"
      using spool_step_refines [OF c q, of "C_ScheduleRetry (ux_spool u) (item_ID item) ?a ?at" "map_sum id (\<lambda>_. R_Done) x" t] x
      by (simp_all add: with_reply_def)
    show ?thesis
    proof (cases x)
      case (Inr y)
      then obtain e where "items (ux_codec u) (ux_limits u) s (item_name item) = Some e"
          "items (ux_codec u) (ux_limits u) t =
            (items (ux_codec u) (ux_limits u) s)(item_name item \<mapsto> e\<lparr>Attempt := ?a, NextAt := UnixNano ?at\<rparr>)"
        using R(1) by (auto simp: item_name_def)
      then show ?thesis using R(2) unfolding settled_queue_def by blast
    qed (use R in \<open>simp add: settled_queue_def\<close>)
  qed
  show ?thesis
  proof (cases r)
    case (PostFailed timeout)
    then show ?thesis using r retry q by (auto simp: settle_def settled_queue_def [of _ _ q q for q] split: if_splits prod.splits)
  next
    case (Posted status ra code)
    consider (ok) "200 \<le> status" "status < 300" | (again) "\<not> (200 \<le> status \<and> status < 300)" "isRetryableProbeUploadStatus status"
      | (no) "\<not> (200 \<le> status \<and> status < 300)" "\<not> isRetryableProbeUploadStatus status" by blast
    then show ?thesis
    proof cases
      case ok
      obtain x where x: "Ack (item_ID item) s = (x, s')" using r ok Posted by (auto simp: settle_def split: prod.splits sum.splits)
      then show ?thesis
        using spool_step_refines [OF c q, of "C_Ack (item_ID item)" "map_sum id (\<lambda>_. R_Done) x" s'] ok Posted
        by (cases x) (auto simp: with_reply_def item_name_def settled_queue_def)
    next
      case again
      then show ?thesis using r retry Posted by (auto simp: settle_def split: if_splits prod.splits)
    next
      case no
      obtain x where x: "Quarantine (ux_limits u) (item_ID item) (reject_reason status code) s = (x, s')"
        using r no Posted by (auto simp: settle_def split: prod.splits sum.splits)
      then show ?thesis
        using spool_step_refines [OF c q, of "C_Quarantine (item_ID item) (reject_reason status code)" "map_sum id (\<lambda>_. R_Done) x" s'] no Posted
        by (cases x) (auto simp: with_reply_def item_name_def settled_queue_def)
    qed
  qed
qed

lemma inv_settle:
  assumes c: "codec_ok (ux_codec u)" and w: "world_inv (ux_codec u) (ux_limits u) w" and k: "clock_ok (ux_now u)"
    and pc: "aw_uploader w = U_Answered item r" and r: "settle u item r (aw_spool w) = (err, s')"
  shows "world_inv (ux_codec u) (ux_limits u) (w\<lparr>aw_spool := s', aw_uploader := U_Idle\<rparr>)" (is "world_inv ?c ?l ?w'")
proof -
  let ?q = "items ?c ?l (aw_spool w)" and ?q' = "items ?c ?l s'" and ?n = "item_name item"
  note D = world_invD [OF w]
  obtain e1 where e1: "aw_batches w ?n = Some e1" "Batch e1 = item_Body item"
    and sent: "\<And>status ra code. r = Posted status ra code \<Longrightarrow> \<exists>q. (q, r) \<in> set (aw_answers w) \<and> req_Body q = Some (item_Body item)"
    using D(3) by (auto simp: pc)
  have settled: "quiet ?c ?l s'" "?q' = ?q \<or> (\<exists>e a t. ?q ?n = Some e \<and> ?q' = ?q(?n \<mapsto> e\<lparr>Attempt := a, NextAt := t\<rparr>)) \<or>
      ?q' = ?q(?n := None) \<and> (\<exists>status ra code. r = Posted status ra code \<and> (200 \<le> status \<and> status < 300 \<or> \<not> isRetryableProbeUploadStatus status))"
    using settle_queue [OF c D(1) k r] unfolding settled_queue_def by blast+
  have gone: "final_answer ?w' (Batch e1)"
    if "r = Posted status ra code" "200 \<le> status \<and> status < 300 \<or> \<not> isRetryableProbeUploadStatus status" for status ra code
    using sent that e1(2) unfolding final_answer_def by fastforce
  have "known (aw_batches w) ?q'"
    using settled(2) D(2) unfolding known_def by (elim disjE exE conjE) (auto split: if_splits)
  moreover have "fate ?c ?l ?w' n e0" if "aw_batches w n = Some e0" for n e0
  proof (rule fate_step [OF D(4) [OF that]])
    fix e assume e: "?q n = Some e" "same_batch e e0"
    show "(\<exists>e'. items ?c ?l (aw_spool ?w') n = Some e' \<and> same_batch e' e) \<or> final_answer ?w' (Batch e0) \<or>
        (\<exists>now\<in>set (aw_clocks ?w'). expired ?l now e)"
    proof (cases "n = ?n")
      case True
      then have "e0 = e1" using that e1(1) by simp
      then show ?thesis using settled(2) e True gone by (elim disjE exE conjE) auto
    qed (use settled(2) e in \<open>auto intro: same_batch_simps\<close>)
  qed simp_all
  ultimately show ?thesis using settled(1) D(5) unfolding world_inv_def by auto
qed

lemma inv_next:
  assumes w: "world_inv c limits w" and r: "Next c limits now (aw_spool w) = (r, s')" and c: "codec_ok c"
  shows "world_inv c limits (w\<lparr>aw_spool := s', aw_clocks := now # aw_clocks w,
          aw_uploader := (case r of Inr (Some item) \<Rightarrow> U_Taken item | _ \<Rightarrow> U_Idle)\<rparr>)"
proof -
  note D = world_invD [OF w]
  have step: "queue_step c limits (C_Next now) (items c limits (aw_spool w)) (map_sum id R_Next r) (items c limits s')" "quiet c limits s'"
    using spool_step_refines [OF c D(1), of "C_Next now" "map_sum id R_Next r" s'] r by (auto simp: with_reply_def)
  have decay: "decays limits now (items c limits (aw_spool w)) (items c limits s')"
    using step(1) purged_decays by (cases r) auto
  have taken: "uploader_inv (aw_batches w) (aw_answers w) (U_Taken item)" if some: "r = Inr (Some item)" for item
  proof -
    obtain n e where e: "items c limits s' n = Some e" "item = probeSpoolItemFromEnvelope (TrimSuffix_json n) e"
      using step(1) by (auto simp: next_answer_def some)
    then have n: "item_name item = n" using item_of_name by blast
    obtain e0 where "aw_batches w n = Some e0" "same_batch e e0"
      using decays_known [OF D(2) decay] e(1) unfolding known_def by blast
    then show ?thesis using n e(2) by (simp add: same_batch_def probeSpoolItemFromEnvelope_def)
  qed
  show ?thesis
    by (rule inv_decay [OF w, where now = now]) (use step(2) decay taken in \<open>auto split: sum.split option.split\<close>)
qed

lemma posted_request: "postBody u body = (Posted status ra code, requests) \<Longrightarrow> \<exists>q\<in>set requests. req_Body q = Some body"
  by (auto simp: postBody_def Let_def split: if_splits)

lemma step_world_inv:
  assumes "world_step c limits w w'" "codec_ok c" "world_inv c limits w"
  shows "world_inv c limits w'"
  using assms
proof (induction rule: world_step.induct)
  case (world_manager w t)
  show ?case
    by (rule inv_frame [OF world_manager(4)]) (use world_manager(2) world_invD(3) [OF world_manager(4)] in simp_all)
next
  case (world_enqueued w i b rounds env ident s' body)
  show ?case
    by (rule inv_enqueued [OF world_enqueued(6,7,2,3,4,5)]) simp_all
next
  case (world_enqueue_failed w i b rounds env e s')
  have "0 < UnixNano (env_now env)" using clock_UnixNano [OF world_enqueue_failed(2), of 0] by (simp add: time_defs)
  then have "decays limits (env_now env) (items c limits (aw_spool w)) (items c limits s')" "quiet c limits s'"
    using spool_step_refines [OF world_enqueue_failed(4) world_invD(1) [OF world_enqueue_failed(5)], of "C_Enqueue env rounds" "Inl e" s']
      world_enqueue_failed(3) by (auto simp: with_reply_def)
  then show ?case
    by (intro inv_decay [OF world_enqueue_failed(5)]) (use world_invD(3) [OF world_enqueue_failed(5)] in simp_all)
next
  case (world_next w now r s')
  then show ?case by (intro inv_next)
next
  case (world_post w item u r requests)
  have "uploader_inv (aw_batches w) (map (\<lambda>q. (q, r)) requests @ aw_answers w) (U_Answered item r)"
    using world_invD(3) [OF world_post(4)] world_post(1,2) posted_request by fastforce
  then show ?case by (intro inv_frame [OF world_post(4)]) auto
next
  case (world_settle w item r u err s')
  then show ?case using inv_settle [of u w item r err s'] by auto
qed

lemma world_known: "world_step c limits w w' \<Longrightarrow> aw_batches w \<subseteq>\<^sub>m aw_batches w'"
proof (induction rule: world_step.induct)
  case (world_enqueued w i b rounds env ident s' body)
  then have "ident = new_id env"
    by (auto simp: Enqueue_def bindS_def newIDLocked_def Let_def returnS_def failS_def new_id_def split: sum.splits prod.splits if_splits)
  then show ?case using world_enqueued(3) by (auto simp: map_le_def)
qed simp_all

lemma reachable_known: "world_reachable c limits s w \<Longrightarrow> items c limits s \<subseteq>\<^sub>m aw_batches w"
proof (induction rule: world_reachable.induct)
  case world_init
  show ?case by (simp add: init_world_def)
next
  case (world_next_state w w')
  then show ?case using world_known map_le_trans by blast
qed

lemma reachable_world_inv:
  assumes "world_reachable c limits s w" "codec_ok c" "quiet c limits s"
  shows "world_inv c limits w"
  using assms
proof (induction rule: world_reachable.induct)
  case world_init
  have "known (items c limits s) (items c limits s)" by (auto simp: known_def)
  then show ?case using world_init by (auto simp: world_inv_def init_world_def init_sys_def fate_def)
next
  case (world_next_state w w')
  then show ?case using step_world_inv by blast
qed

subsection \<open>Bounds\<close>

text \<open>Every step calls the spool at most once, so the bounds of the spool hold in all interleavings, also when file-system calls fail.\<close>

lemma settle_calls: "settle u item r s = (err, s') \<Longrightarrow> \<exists>calls. s' = run_calls (ux_codec u) (ux_limits u) calls s"
proof -
  assume r: "settle u item r s = (err, s')"
  have "s' = s \<or> (\<exists>k t. s' = snd (ScheduleRetry (ux_codec u) (ux_limits u) (ux_spool u) (item_ID item) k t s)) \<or>
      s' = snd (Ack (item_ID item) s) \<or> (\<exists>reason. s' = snd (Quarantine (ux_limits u) (item_ID item) reason s))"
    using r by (auto simp: settle_def scheduleRetry_def Let_def split: post_result.splits if_splits prod.splits sum.splits)
      (metis snd_conv)+
  then show ?thesis
  proof (elim disjE exE)
    assume "s' = s"
    then show ?thesis by (intro exI [of _ "[]"]) (simp add: run_calls_def)
  next
    fix k t assume "s' = snd (ScheduleRetry (ux_codec u) (ux_limits u) (ux_spool u) (item_ID item) k t s)"
    then show ?thesis by (intro exI [of _ "[C_ScheduleRetry (ux_spool u) (item_ID item) k t]"]) (simp add: run_calls_def)
  next
    assume "s' = snd (Ack (item_ID item) s)"
    then show ?thesis by (intro exI [of _ "[C_Ack (item_ID item)]"]) (simp add: run_calls_def)
  next
    fix reason assume "s' = snd (Quarantine (ux_limits u) (item_ID item) reason s)"
    then show ?thesis by (intro exI [of _ "[C_Quarantine (item_ID item) reason]"]) (simp add: run_calls_def)
  qed
qed

lemma world_step_calls: "world_step c limits w w' \<Longrightarrow> \<exists>calls. aw_spool w' = run_calls c limits calls (aw_spool w)"
proof (induction rule: world_step.induct)
  case (world_enqueued w i b rounds env ident s' body)
  then show ?case by (intro exI [of _ "[C_Enqueue env rounds]"]) (simp add: run_calls_def)
next
  case (world_enqueue_failed w i b rounds env e s')
  then show ?case by (intro exI [of _ "[C_Enqueue env rounds]"]) (simp add: run_calls_def)
next
  case (world_next w now r s')
  then show ?case by (intro exI [of _ "[C_Next now]"]) (simp add: run_calls_def)
next
  case (world_settle w item r u err s')
  then show ?case using settle_calls by fastforce
qed (auto intro: exI [of _ "[]"] simp: run_calls_def)

lemma world_bounded:
  assumes "world_reachable c limits s w" "quarantine_bounded limits s" "pending_bounded limits s"
  shows "quarantine_bounded limits (aw_spool w) \<and> pending_bounded limits (aw_spool w)"
  using assms
proof (induction rule: world_reachable.induct)
  case (world_next_state w w')
  then obtain calls where "aw_spool w' = run_calls c limits calls (aw_spool w)" using world_step_calls by blast
  then show ?case using world_next_state qbw.I_run_calls pbw.I_run_calls by simp
qed (simp add: init_world_def)

subsection \<open>Properties\<close>


text \<open>A concrete run: the refresh and the probe run of the example, the write, and the record of completion.\<close>

lemma agent_step_persisted: "agent_step s t \<Longrightarrow> \<exists>new. persisted t = new @ persisted s"
  by (induction rule: agent_step.induct) auto

lemma world_of_manager:
  assumes "agent_reachable t" "persisted t = []"
  shows "world_reachable c limits s ((init_world c limits s)\<lparr>aw_sys := t\<rparr>)"
  using assms
proof (induction rule: agent_reachable.induct)
  case agent_init
  have "(init_world c limits s)\<lparr>aw_sys := init_sys\<rparr> = init_world c limits s" by (simp add: init_world_def)
  then show ?case using world_init by metis
next
  case (agent_next t u)
  then have p: "persisted t = []" using agent_step_persisted by fastforce
  have "world_step c limits ((init_world c limits s)\<lparr>aw_sys := t\<rparr>) ((init_world c limits s)\<lparr>aw_sys := t\<rparr>\<lparr>aw_sys := u\<rparr>)"
    using agent_next p by (intro world_manager) simp_all
  then show ?case using world_next_state [OF agent_next.IH [OF p]] by simp
qed

lemma limit_loop_length: "length (limit_loop a b ts) \<le> length ts"
  by (induction a b ts rule: limit_loop.induct) (auto simp: Let_def le_SucI)

lemma example_batch_length: "length (batch_targets example_batch) = 1"
proof -
  have "length (batch_targets example_batch) \<le> 1"
    using limit_loop_length [of 1024 120000 "SanitizeProbeTargets [sanitize_target (example_target ''a'')]"]
    by (simp add: example_batch_def due_targets_eq Limit_eq ps.due_fresh example_manager_def newProbeTargetManager_def SanitizeProbeTargets_eq)
  then show ?thesis using example_batch_targets by (cases "batch_targets example_batch") auto
qed

lemma example_batch_id: "target_ID ` set (batch_targets example_batch) = {''a''}"
proof -
  have "target_ID ` set (batch_targets example_batch) \<subseteq> {''a''}"
    using due_ids [of example_manager 0] by (simp add: example_batch_def example_manager_def) (simp add: example_target_def)
  then show ?thesis using example_batch_targets by (cases "batch_targets example_batch") auto
qed

lemma example_rounds_marshal: "marshalProbeResults demo_codec example_rounds = Inr ''r.''"
proof -
  have v: "batch_version example_batch = 7" by (simp add: example_batch_def example_manager_def)
  have rs: "example_rounds = [example_round\<lparr>round_ConfigVersion := 7\<rparr>]"
    unfolding example_rounds_def example_batch_length stamp_rounds_def v by simp
  show ?thesis unfolding rs by (simp add: marshalProbeResults_def commonProbeConfigVersion_def demo_codec_def)
qed

definition example_world :: agent_world where
  "example_world = (init_world demo_codec DefaultProbeSpoolLimits (empty_spool []))
     \<lparr>aw_sys := example_persisted\<lparr>mgr := endRun (snd (markCompleted (mgr example_persisted) example_batch 2000)), runners := (\<lambda>_. P_Idle)\<rparr>,
      aw_spool := example_spool, aw_batches := [example_id @ ''.json'' \<mapsto> example_envelope], aw_clocks := [1000]\<rparr>"

lemma empty_items: "items demo_codec DefaultProbeSpoolLimits (empty_spool []) = Map.empty"
  by (auto simp: fun_eq_iff items_def dir_items_def dir_get_def empty_spool_def)

lemma example_world_reachable: "world_reachable demo_codec DefaultProbeSpoolLimits (empty_spool []) example_world"
proof -
  let ?c = demo_codec and ?l = DefaultProbeSpoolLimits and ?s = "empty_spool []"
  let ?i = "init_world ?c ?l ?s"
  let ?chk = "?i\<lparr>aw_sys := example_run (P_Checked example_batch example_rounds)\<rparr>"
  let ?enq = "?i\<lparr>aw_sys := example_persisted, aw_spool := example_spool,
      aw_batches := [example_id @ ''.json'' \<mapsto> example_envelope], aw_clocks := [1000]\<rparr>"
  have chk: "world_reachable ?c ?l ?s ?chk"
    by (rule world_of_manager [OF example_checked_reachable]) (simp add: example_run_def example_refreshed_def init_sys_def)
  have enq: "Enqueue ?c ?l example_env example_rounds ?s = (Inr example_id, example_spool)"
    using example_enqueue by (simp add: Enqueue_def example_rounds_marshal example_marshal)
  have "world_step ?c ?l ?chk
      (?chk\<lparr>aw_sys := (aw_sys ?chk)\<lparr>runners := (runners (aw_sys ?chk))(0 := P_Persisted example_batch),
         persisted := (example_batch, example_rounds) # persisted (aw_sys ?chk)\<rparr>,
       aw_spool := example_spool, aw_batches := (aw_batches ?chk)(example_id @ ''.json'' \<mapsto> new_envelope ?c (env_now example_env) ''r.''),
       aw_clocks := env_now example_env # aw_clocks ?chk\<rparr>)"
  proof (rule world_enqueued)
    show "Enqueue ?c ?l example_env example_rounds (aw_spool ?chk) = (Inr example_id, example_spool)"
      using enq by (simp add: init_world_def)
  qed (simp_all add: example_run_def clock_ok_def example_env_def time_defs maxInt64_def init_world_def empty_items example_rounds_marshal)
  then have "world_step ?c ?l ?chk ?enq"
    by (simp add: init_world_def empty_items example_persisted_def example_run_def example_refreshed_def init_sys_def example_envelope_def example_env_def)
  then have reach: "world_reachable ?c ?l ?s ?enq" using world_next_state [OF chk] by blast
  let ?t = "example_persisted\<lparr>mgr := endRun (snd (markCompleted (mgr example_persisted) example_batch 2000)), runners := (\<lambda>_. P_Idle)\<rparr>"
  have "agent_step example_persisted ?t"
    using run_marked [of example_persisted 0 example_batch 2000] by (simp add: example_persisted_def example_run_def fun_upd_idem)
  then have "world_step ?c ?l ?enq (?enq\<lparr>aw_sys := ?t\<rparr>)" by (intro world_manager) simp_all
  then have "world_step ?c ?l ?enq example_world" by (simp add: example_world_def init_world_def)
  then show ?thesis using world_next_state [OF reach] by blast
qed


end
