(* ===== verification/Agent_Workers.thy ===== *)
theory Agent_Workers
  imports Agent_Reports Agent_System Agent_Config Presence
begin

text \<open>
  The workers of a running agent (\<open>cmd/zeno-agent/main.go\<close>). First the loops one by one, each on a script of
  what its \<open>select\<close> receives: \<open>runPeriodic\<close>, the configuration poller, the probe loop, the uploader loop. Then
  \<open>runAgent\<close> from the start of the seven goroutines to its return, as a step relation on their control states.
\<close>

section \<open>Periodic calls\<close>

text \<open>
  What one \<open>select\<close> yields: the context is done, or the ticker fires; the latter comes with what other
  goroutines did to the shared state since the last turn and with what the call will meet.
\<close>

datatype ('e, 's) select_event = CtxDone | TickerFired "'s \<Rightarrow> 's" 'e

definition log_error :: "'err option \<Rightarrow> 'err list \<Rightarrow> 'err list" where
  "log_error err errs = (case err of None \<Rightarrow> errs | Some e \<Rightarrow> e # errs)"

text \<open>Whether the loop returned within its script, the failures it logged, and the state.\<close>

fun periodic_loop :: "('e \<Rightarrow> 's \<Rightarrow> 'err option \<times> 's) \<Rightarrow> ('e, 's) select_event list \<Rightarrow> 's \<Rightarrow> bool \<times> 'err list \<times> 's" where
  "periodic_loop call [] s = (False, [], s)"
| "periodic_loop call (CtxDone # events) s = (True, [], s)"
| "periodic_loop call (TickerFired others e # events) s =
     (let (err, s1) = call e (others s); (ret, errs, s2) = periodic_loop call events s1
      in (ret, log_error err errs, s2))"

text \<open>\<open>time.NewTicker\<close> panics on an interval that is not positive: \<open>None\<close>.\<close>

definition runPeriodicWithTimeout ::
  "duration \<Rightarrow> duration \<Rightarrow> (duration \<Rightarrow> 'e \<Rightarrow> 's \<Rightarrow> 'err option \<times> 's) \<Rightarrow> ('e, 's) select_event list \<Rightarrow> 's \<Rightarrow>
   (bool \<times> 'err list \<times> 's) option" where
  "runPeriodicWithTimeout interval timeout fn events s =
     (if interval \<le> 0 then None else Some (periodic_loop (fn timeout) events s))"

definition runPeriodic ::
  "duration \<Rightarrow> (duration \<Rightarrow> 'e \<Rightarrow> 's \<Rightarrow> 'err option \<times> 's) \<Rightarrow> ('e, 's) select_event list \<Rightarrow> 's \<Rightarrow>
   (bool \<times> 'err list \<times> 's) option" where
  "runPeriodic interval fn events s = runPeriodicWithTimeout interval (perCallTimeout interval) fn events s"

text \<open>The three report workers: one tick of \<open>Agent_Reports\<close> per call.\<close>

fun tick_error :: "report_codec \<Rightarrow> Client \<Rightarrow> string \<Rightarrow> tick \<Rightarrow> reporter \<Rightarrow> client_error option" where
  "tick_error codec c ver (HeartbeatTick now env io) rep =
     (case fst (reportHeartbeat env codec c ver now) of Inl e \<Rightarrow> Some e | Inr _ \<Rightarrow> None)"
| "tick_error codec c ver (StateTick now env io metrics) rep =
     (case fst (fst (reportState env codec c metrics now (rep_collector rep))) of Inl e \<Rightarrow> Some e | Inr _ \<Rightarrow> None)"
| "tick_error codec c ver (HostTick now env host inner) rep =
     (case fst (fst (reportHost env codec c host (fst (rep_collector rep)) ver now inner (rep_identity rep))) of
        Inl e \<Rightarrow> Some e | Inr _ \<Rightarrow> None)"

definition report_call :: "report_codec \<Rightarrow> Client \<Rightarrow> string \<Rightarrow> duration \<Rightarrow> tick \<Rightarrow> reporter \<Rightarrow> client_error option \<times> reporter" where
  "report_call codec c ver timeout t rep = (tick_error codec c ver t rep, snd (report_tick codec c ver t rep))"

definition report_worker ::
  "report_codec \<Rightarrow> Client \<Rightarrow> string \<Rightarrow> duration \<Rightarrow> (tick, reporter) select_event list \<Rightarrow> reporter \<Rightarrow>
   (bool \<times> client_error list \<times> reporter) option" where
  "report_worker codec c ver interval = runPeriodic interval (report_call codec c ver)"

section \<open>Configuration poller and probe loop\<close>

text \<open>A call that cannot enter its gate ends with its timeout.\<close>

definition poll_call ::
  "duration \<Rightarrow> bool \<times> ProbeTargetsResponse option \<Rightarrow> probeTargetManager \<Rightarrow> manager_error option \<times> probeTargetManager" where
  "poll_call timeout = (\<lambda>(ctx_wins, answer) m.
     (case refreshProbeConfig ctx_wins answer 0 m of
        None \<Rightarrow> (Some ContextDone, m)
      | Some (Inl e, m') \<Rightarrow> (Some e, m')
      | Some (Inr _, m') \<Rightarrow> (None, m')))"

text \<open>\<open>ctx_done\<close>: \<open>ctx.Err()\<close> is not nil after the first refresh.\<close>

definition runProbeConfigPoller ::
  "bool \<times> ProbeTargetsResponse option \<Rightarrow> bool \<Rightarrow> (bool \<times> ProbeTargetsResponse option, probeTargetManager) select_event list \<Rightarrow>
   probeTargetManager \<Rightarrow> (bool \<times> manager_error list \<times> probeTargetManager) option" where
  "runProbeConfigPoller first ctx_done events m =
     (let (err, m1) = poll_call probeConfigRefreshTimeout first m in
      if ctx_done then Some (True, [], m1)
      else case runPeriodic defaultProbeConfigPollInterval poll_call events m1 of
        None \<Rightarrow> None
      | Some (ret, errs, m2) \<Rightarrow> Some (ret, log_error err errs, m2))"

definition cycle_call ::
  "duration \<Rightarrow> cycle_env \<Rightarrow> probeTargetManager \<times> spool_fs \<Rightarrow> cycle_error option \<times> probeTargetManager \<times> spool_fs" where
  "cycle_call timeout env = (\<lambda>(m, s).
     (case runDueProbes env m s of
        None \<Rightarrow> (Some (BeginFailed ContextDone), m, s)
      | Some res \<Rightarrow> res))"

definition runProbeLoop ::
  "cycle_env \<Rightarrow> bool \<Rightarrow> (cycle_env, probeTargetManager \<times> spool_fs) select_event list \<Rightarrow> probeTargetManager \<times> spool_fs \<Rightarrow>
   (bool \<times> cycle_error list \<times> probeTargetManager \<times> spool_fs) option" where
  "runProbeLoop first ctx_done events st =
     (let (err, st1) = cycle_call maxProbeRunLoopTimeout first st in
      if ctx_done then Some (True, [], st1)
      else case runPeriodicWithTimeout probeRunLoopInterval maxProbeRunLoopTimeout cycle_call events st1 of
        None \<Rightarrow> None
      | Some (ret, errs, st2) \<Rightarrow> Some (ret, log_error err errs, st2))"

section \<open>Uploader loop\<close>

text \<open>
  One turn: \<open>ctx.Err()\<close> at the head of the loop, what others did to the spool, the passes of \<open>Run\<close> until it
  returned, \<open>ctx.Err()\<close> after it, and whether the pause of five seconds was cut short by the context.
\<close>

record uploader_turn =
  ut_done :: bool
  ut_others :: "spool_fs \<Rightarrow> spool_fs"
  ut_passes :: "(upload_env \<times> ctx \<times> wait_end) list"
  ut_done_after :: bool
  ut_pause_cut :: bool

fun runProbeUploader :: "uploader_turn list \<Rightarrow> spool_fs \<Rightarrow> bool \<times> upload_error option list \<times> spool_fs" where
  "runProbeUploader [] s = (False, [], s)"
| "runProbeUploader (t # ts) s =
     (if ut_done t then (True, [], s)
      else
        let ((err, rejections), s1) = run_loop (ut_passes t) (ut_others t s) in
        if ut_done_after t then (True, [], s1)
        else if ut_pause_cut t then (True, [err], s1)
        else let (ret, errs, s2) = runProbeUploader ts s1 in (ret, err # errs, s2))"

text \<open>
  The hook \<open>OnRejected\<close> of \<open>runAgent\<close>: a batch that the Controller calls stale makes the agent refresh its
  probe configuration; other rejections are only logged.
\<close>

definition onRejected ::
  "upload_error \<Rightarrow> bool \<times> ProbeTargetsResponse option \<Rightarrow> probeTargetManager \<Rightarrow> probeTargetManager" where
  "onRejected err refresh m =
     (case err of
        ProbeUploadStaleError status \<Rightarrow> snd (poll_call probeConfigRefreshTimeout refresh m)
      | _ \<Rightarrow> m)"

section \<open>The loops\<close>

text \<open>The turns a periodic loop serves: those in front of the first \<open>CtxDone\<close>.\<close>

fun served :: "('e, 's) select_event list \<Rightarrow> (('s \<Rightarrow> 's) \<times> 'e) list" where
  "served [] = []"
| "served (CtxDone # events) = []"
| "served (TickerFired others e # events) = (others, e) # served events"

lemma periodic_loop_returns: "fst (periodic_loop call events s) \<longleftrightarrow> CtxDone \<in> set events"
  by (induction call events s rule: periodic_loop.induct) (auto split: prod.splits)

lemma periodic_loop_state:
  "snd (snd (periodic_loop call events s)) = foldl (\<lambda>s (others, e). snd (call e (others s))) s (served events)"
  by (induction call events s rule: periodic_loop.induct) (auto split: prod.splits)

lemma periodic_loop_errors: "length (fst (snd (periodic_loop call events s))) \<le> length (served events)"
proof (induction events arbitrary: s)
  case (Cons ev events)
  show ?case
  proof (cases ev)
    case (TickerFired others e)
    then show ?thesis using Cons.IH [of "snd (call e (others s))"]
      by (auto simp: log_error_def split_beta split: option.split)
  qed simp
qed simp

locale worker_invariant =
  fixes call :: "'e \<Rightarrow> 's \<Rightarrow> 'err option \<times> 's"
    and I :: "'s \<Rightarrow> bool"
  assumes call_keeps: "I s \<Longrightarrow> I (snd (call e s))"
begin

lemma loop_keeps:
  "I s \<Longrightarrow> (\<And>others e s. TickerFired others e \<in> set events \<Longrightarrow> I s \<Longrightarrow> I (others s)) \<Longrightarrow>
   I (snd (snd (periodic_loop call events s)))"
proof (induction events arbitrary: s)
  case (Cons ev events)
  show ?case
  proof (cases ev)
    case (TickerFired others e)
    have "I (snd (call e (others s)))" using Cons.prems(1) Cons.prems(2) [of others e s] TickerFired by (intro call_keeps) simp
    then have "I (snd (snd (periodic_loop call events (snd (call e (others s))))))"
      by (rule Cons.IH) (use Cons.prems(2) in auto)
    then show ?thesis by (simp add: TickerFired split_beta Let_def)
  qed (use Cons.prems in simp)
qed simp

end

lemma poll_call_inv: "manager_inv m \<Longrightarrow> manager_inv (snd (poll_call timeout x m))"
proof -
  assume m: "manager_inv m"
  have "manager_inv m'" if "refreshProbeConfig w answer 0 m = Some (r, m')" for w answer r m'
    using refreshProbeConfig_inv [OF m that] by simp
  then show ?thesis using m by (auto simp: poll_call_def split: prod.splits option.splits sum.splits)
qed

interpretation pollw: worker_invariant "poll_call timeout" manager_inv for timeout
  by unfold_locales (rule poll_call_inv)

text \<open>The spool of the probe loop keeps the bounds of its quarantine, whatever fails.\<close>

lemma cycle_call_bounded:
  "quarantine_bounded limits s \<Longrightarrow>
   quarantine_bounded limits (snd (snd (cycle_call timeout (env\<lparr>cy_limits := limits\<rparr>) (m, s))))"
proof -
  assume q: "quarantine_bounded limits s"
  have "quarantine_bounded limits t" if "Enqueue (cy_codec env) limits se rounds s = (r, t)" for se rounds r t
    using qbw.I_run_calls [OF q, of "cy_codec env" "[C_Enqueue se rounds]"] that by (simp add: run_calls_def)
  then show ?thesis
    using q by (auto simp: cycle_call_def runDueProbes_def Let_def split: prod.splits option.splits sum.splits)
qed

interpretation probew: worker_invariant "\<lambda>env. cycle_call timeout (env\<lparr>cy_limits := limits\<rparr>)" "\<lambda>(m, s). quarantine_bounded limits s"
  for timeout limits
  by unfold_locales (use cycle_call_bounded in \<open>auto simp: split_beta\<close>)

lemma uploader_returns:
  "fst (runProbeUploader ts s) \<longleftrightarrow> (\<exists>t\<in>set ts. ut_done t \<or> ut_done_after t \<or> ut_pause_cut t)"
proof (induction ts arbitrary: s)
  case (Cons t ts)
  then show ?case by (simp add: split_beta Let_def)
qed simp

text \<open>The invariants of the shared state survive a whole run of a loop, if the other goroutines keep them too.\<close>

lemma poller_keeps_manager:
  assumes "runProbeConfigPoller first ctx_done events m = Some (ret, errs, m')" "manager_inv m"
    "\<And>others e m. TickerFired others e \<in> set events \<Longrightarrow> manager_inv m \<Longrightarrow> manager_inv (others m)"
  shows "manager_inv m'"
proof -
  let ?m1 = "snd (poll_call probeConfigRefreshTimeout first m)"
  have "m' = ?m1 \<or> m' = snd (snd (periodic_loop (poll_call (perCallTimeout defaultProbeConfigPollInterval)) events ?m1))"
    using assms(1)
    by (auto simp: runProbeConfigPoller_def runPeriodic_def runPeriodicWithTimeout_def split: prod.splits if_splits)
  moreover have "manager_inv ?m1" using assms(2) by (rule poll_call_inv)
  ultimately show ?thesis using pollw.loop_keeps [of ?m1 events] assms(3) by blast
qed

lemma probe_loop_bounded:
  assumes "quarantine_bounded limits (snd st)"
    "\<And>others e st. TickerFired others e \<in> set events \<Longrightarrow> quarantine_bounded limits (snd st) \<Longrightarrow> quarantine_bounded limits (snd (others st))"
  shows "quarantine_bounded limits
    (snd (snd (snd (periodic_loop (\<lambda>env. cycle_call timeout (env\<lparr>cy_limits := limits\<rparr>)) events st))))"
  using probew.loop_keeps [where s = st and events = events] assms by (simp add: split_beta)

text \<open>Errors never end a worker. A report worker, the configuration poller, the probe loop and the uploader return
  within a script exactly if their context is done somewhere in it; every tick in front of that is served, with
  the state the previous calls left, however many of them failed. The intervals of a configured agent are
  positive, so that no ticker panics.\<close>

theorem only_context_ends_workers:
  assumes "run env cfg = Inr (Some st)"
    and "interval \<in> {cfg_StateInterval (start_cfg st), cfg_HeartbeatInterval (start_cfg st), cfg_HostInterval (start_cfg st)}"
  shows "(\<exists>ret errs rep'. report_worker codec c ver interval ticks rep = Some (ret, errs, rep') \<and>
      (ret \<longleftrightarrow> CtxDone \<in> set ticks) \<and>
      rep' = foldl (\<lambda>r (others, t). snd (report_tick codec c ver t (others r))) rep (served ticks)) \<and>
    (\<exists>ret errs m'. runProbeConfigPoller first ctx_done polls m = Some (ret, errs, m') \<and> (ret \<longleftrightarrow> ctx_done \<or> CtxDone \<in> set polls)) \<and>
    (\<exists>ret errs x. runProbeLoop cycle ctx_done cycles y = Some (ret, errs, x) \<and> (ret \<longleftrightarrow> ctx_done \<or> CtxDone \<in> set cycles)) \<and>
    (fst (runProbeUploader turns s) \<longleftrightarrow> (\<exists>t\<in>set turns. ut_done t \<or> ut_done_after t \<or> ut_pause_cut t))"
proof (intro conjI)
  have pos: "0 < interval"
    using run_starts(6) [OF assms(1)] assms(2) by (auto simp: normalizeConfigIntervals_def time_defs split: if_splits)
  let ?call = "report_call codec c ver (perCallTimeout interval)"
  obtain ret errs rep' where r: "periodic_loop ?call ticks rep = (ret, errs, rep')" by (metis prod.exhaust)
  then show "\<exists>ret errs rep'. report_worker codec c ver interval ticks rep = Some (ret, errs, rep') \<and>
      (ret \<longleftrightarrow> CtxDone \<in> set ticks) \<and>
      rep' = foldl (\<lambda>r (others, t). snd (report_tick codec c ver t (others r))) rep (served ticks)"
    using pos periodic_loop_returns [of ?call ticks rep] periodic_loop_state [of ?call ticks rep]
    by (simp add: report_worker_def runPeriodic_def runPeriodicWithTimeout_def report_call_def)
next
  show "\<exists>ret errs m'. runProbeConfigPoller first ctx_done polls m = Some (ret, errs, m') \<and> (ret \<longleftrightarrow> ctx_done \<or> CtxDone \<in> set polls)"
    using periodic_loop_returns [of "poll_call (perCallTimeout defaultProbeConfigPollInterval)" polls]
    by (auto simp: runProbeConfigPoller_def runPeriodic_def runPeriodicWithTimeout_def time_defs split: prod.splits) (metis fst_conv)+
next
  show "\<exists>ret errs x. runProbeLoop cycle ctx_done cycles y = Some (ret, errs, x) \<and> (ret \<longleftrightarrow> ctx_done \<or> CtxDone \<in> set cycles)"
    using periodic_loop_returns [of "cycle_call maxProbeRunLoopTimeout" cycles]
    by (auto simp: runProbeLoop_def runPeriodicWithTimeout_def time_defs split: prod.splits) (metis fst_conv)+
qed (rule uploader_returns)

theorem only_context_ends_workers_witness:
  "\<exists>st. run (url_env.truncate plain_env) example_cfg = Inr (Some st) \<and>
     (\<exists>ret errs rep'. report_worker example_codec reporting_client ''v1'' (cfg_StateInterval (start_cfg st))
        [TickerFired id (HeartbeatTick 0 plain_env example_io), CtxDone] example_reporter = Some (ret, errs, rep') \<and> ret)"
proof -
  obtain st where st: "run (url_env.truncate plain_env) example_cfg = Inr (Some st)" using example_cfg_runs by blast
  have "\<exists>ret errs rep'. report_worker example_codec reporting_client ''v1'' (cfg_StateInterval (start_cfg st))
      [TickerFired id (HeartbeatTick 0 plain_env example_io), CtxDone] example_reporter = Some (ret, errs, rep') \<and> ret"
    using conjunct1 [OF only_context_ends_workers [OF st, where interval = "cfg_StateInterval (start_cfg st)" and codec = example_codec
        and c = reporting_client and ver = "''v1''" and ticks = "[TickerFired id (HeartbeatTick 0 plain_env example_io), CtxDone]"
        and rep = example_reporter]] by auto
  with st show ?thesis by blast
qed

section \<open>Start and shutdown of the agent\<close>

datatype worker = PresenceWorker | PollerWorker | UploaderWorker | StateWorker | HeartbeatWorker | HostWorker | ProbeWorker

text \<open>
  Where a worker is: not started; in its first call (poller and probe loop make one before their ticker); at
  its \<open>select\<close>, or at the head of the loop of the presence and uploader workers; in a call; in the pause of those
  two; returned.
\<close>

datatype worker_pc = NotStarted | FirstCall | AtSelect | InCall | Pausing | Finished

text \<open>What \<open>runAgent\<close> itself does: start the workers in this order, wait for the context, wait for the workers, return.\<close>

datatype main_pc = Starting "worker list" | AwaitDone | Joining | Returned ctx_err

record agent_ctl =
  ctl_done :: bool
  ctl_pcs :: "worker \<Rightarrow> worker_pc"
  ctl_main :: main_pc

definition start_order :: "worker list" where
  "start_order = [PresenceWorker, PollerWorker, UploaderWorker, StateWorker, HeartbeatWorker, HostWorker, ProbeWorker]"

definition init_ctl :: agent_ctl where
  "init_ctl = \<lparr>ctl_done = False, ctl_pcs = (\<lambda>_. NotStarted), ctl_main = Starting start_order\<rparr>"

definition entry_pc :: "worker \<Rightarrow> worker_pc" where
  "entry_pc w = (if w = PollerWorker \<or> w = ProbeWorker then FirstCall else AtSelect)"

definition pauses :: "worker \<Rightarrow> bool" where
  "pauses w \<longleftrightarrow> w = PresenceWorker \<or> w = UploaderWorker"

text \<open>The steps of one worker; \<open>d\<close> tells whether the context is done.\<close>

inductive worker_step :: "worker \<Rightarrow> bool \<Rightarrow> worker_pc \<Rightarrow> worker_pc \<Rightarrow> bool" where
  first_done: "worker_step w True FirstCall Finished"
| first_over: "worker_step w False FirstCall AtSelect"
| select_done: "worker_step w True AtSelect Finished"
| select_tick: "\<not> pauses w \<Longrightarrow> worker_step w d AtSelect InCall"
| loop_enter: "pauses w \<Longrightarrow> worker_step w False AtSelect InCall"
| call_over: "\<not> pauses w \<Longrightarrow> worker_step w d InCall AtSelect"
| call_done: "pauses w \<Longrightarrow> worker_step w True InCall Finished"
| call_pause: "pauses w \<Longrightarrow> worker_step w False InCall Pausing"
| pause_done: "worker_step w True Pausing Finished"
| pause_over: "worker_step w d Pausing AtSelect"

inductive ctl_step :: "agent_ctl \<Rightarrow> agent_ctl \<Rightarrow> bool" where
  start_worker:
    "ctl_main s = Starting (w # ws) \<Longrightarrow>
     ctl_step s (s\<lparr>ctl_pcs := (ctl_pcs s)(w := entry_pc w), ctl_main := Starting ws\<rparr>)"
| all_started: "ctl_main s = Starting [] \<Longrightarrow> ctl_step s (s\<lparr>ctl_main := AwaitDone\<rparr>)"
| cancel: "\<not> ctl_done s \<Longrightarrow> ctl_step s (s\<lparr>ctl_done := True\<rparr>)"
| main_done: "ctl_main s = AwaitDone \<Longrightarrow> ctl_done s \<Longrightarrow> ctl_step s (s\<lparr>ctl_main := Joining\<rparr>)"
| main_joined: "ctl_main s = Joining \<Longrightarrow> \<forall>w. ctl_pcs s w = Finished \<Longrightarrow> ctl_step s (s\<lparr>ctl_main := Returned Canceled\<rparr>)"
| worker_moves:
    "worker_step w (ctl_done s) (ctl_pcs s w) pc \<Longrightarrow> ctl_step s (s\<lparr>ctl_pcs := (ctl_pcs s)(w := pc)\<rparr>)"

inductive ctl_reachable :: "agent_ctl \<Rightarrow> bool" where
  ctl_init: "ctl_reachable init_ctl"
| ctl_next: "ctl_reachable s \<Longrightarrow> ctl_step s t \<Longrightarrow> ctl_reachable t"

inductive_cases worker_stepE: "worker_step w d pc pc'"
inductive_cases ctl_stepE: "ctl_step s t"

fun to_start :: "main_pc \<Rightarrow> worker list" where
  "to_start (Starting ws) = ws"
| "to_start _ = []"

text \<open>
  A worker has returned only if the context is done; the workers still to be started are those that have not
  started; past its first wait \<open>runAgent\<close> knows that the context is done, and at its end all have returned.
\<close>

definition ctl_inv :: "agent_ctl \<Rightarrow> bool" where
  "ctl_inv s \<longleftrightarrow>
     (\<forall>w. ctl_pcs s w = Finished \<longrightarrow> ctl_done s) \<and>
     (\<forall>w. ctl_pcs s w = NotStarted \<longleftrightarrow> w \<in> set (to_start (ctl_main s))) \<and> distinct (to_start (ctl_main s)) \<and>
     (ctl_main s = Joining \<longrightarrow> ctl_done s) \<and>
     (\<forall>e. ctl_main s = Returned e \<longrightarrow> ctl_done s \<and> e = Canceled \<and> (\<forall>w. ctl_pcs s w = Finished))"

lemma worker_step_shape: "worker_step w d pc pc' \<Longrightarrow> pc \<noteq> NotStarted \<and> pc \<noteq> Finished \<and> pc' \<noteq> NotStarted \<and> (pc' = Finished \<longrightarrow> d)"
  by (induction rule: worker_step.induct) auto

lemma step_ctl_inv: "ctl_step s t \<Longrightarrow> ctl_inv s \<Longrightarrow> ctl_inv t"
proof (induction rule: ctl_step.induct)
  case (worker_moves w s pc)
  then show ?case using worker_step_shape [OF worker_moves(1)] by (auto simp: ctl_inv_def)
qed (auto simp: ctl_inv_def entry_pc_def)

lemma reachable_ctl_inv: "ctl_reachable s \<Longrightarrow> ctl_inv s"
proof (induction rule: ctl_reachable.induct)
  case ctl_init
  have "w \<in> set start_order" for w by (cases w) (simp_all add: start_order_def)
  then show ?case by (auto simp: ctl_inv_def init_ctl_def start_order_def)
next
  case (ctl_next s t)
  then show ?case using step_ctl_inv by blast
qed

text \<open>Shutdown: the steps that are left at most when every worker heads for its return.\<close>

fun pc_rank :: "worker_pc \<Rightarrow> nat" where
  "pc_rank Finished = 0"
| "pc_rank NotStarted = 2"
| "pc_rank InCall = 2"
| "pc_rank _ = 1"

fun main_rank :: "main_pc \<Rightarrow> nat" where
  "main_rank (Starting ws) = length ws + 3"
| "main_rank AwaitDone = 2"
| "main_rank Joining = 1"
| "main_rank (Returned e) = 0"

definition ctl_rank :: "agent_ctl \<Rightarrow> nat" where
  "ctl_rank s = main_rank (ctl_main s) + sum_list (map (\<lambda>w. pc_rank (ctl_pcs s w)) start_order)"

lemma rank_update:
  "ctl_rank (s\<lparr>ctl_pcs := (ctl_pcs s)(w := pc), ctl_main := m\<rparr>) + main_rank (ctl_main s) + pc_rank (ctl_pcs s w) =
   ctl_rank s + main_rank m + pc_rank pc"
  by (cases w) (simp_all add: ctl_rank_def start_order_def)

lemma worker_can_finish:
  assumes "pc \<noteq> Finished" "pc \<noteq> NotStarted"
  shows "\<exists>pc'. worker_step w True pc pc' \<and> pc_rank pc' < pc_rank pc"
proof (cases pc)
  case InCall
  then show ?thesis using call_over [of w True] call_done [of w] by (cases "pauses w") fastforce+
qed (use assms in \<open>auto intro: first_done select_done pause_done intro!: exI [of _ Finished]\<close>)

lemma shutdown_step:
  assumes "ctl_inv s" "ctl_done s" "\<not> (\<exists>e. ctl_main s = Returned e)"
  shows "\<exists>t. ctl_step s t \<and> ctl_done t \<and> ctl_rank t < ctl_rank s"
proof (cases "\<exists>w. ctl_pcs s w \<noteq> Finished \<and> ctl_pcs s w \<noteq> NotStarted")
  case True
  then obtain w pc where w: "worker_step w True (ctl_pcs s w) pc" "pc_rank pc < pc_rank (ctl_pcs s w)"
    using worker_can_finish by blast
  have "ctl_step s (s\<lparr>ctl_pcs := (ctl_pcs s)(w := pc)\<rparr>)" using worker_moves [of w s pc] w(1) assms(2) by simp
  moreover have "ctl_rank (s\<lparr>ctl_pcs := (ctl_pcs s)(w := pc)\<rparr>) < ctl_rank s"
    using rank_update [where s = s and w = w and pc = pc and m = "ctl_main s"] w(2) by simp
  ultimately show ?thesis using assms(2) by fastforce
next
  case False
  show ?thesis
  proof (cases "ctl_main s")
    case (Starting ws)
    show ?thesis
    proof (cases ws)
      case Nil
      then show ?thesis using Starting all_started assms(2)
        by (intro exI [of _ "s\<lparr>ctl_main := AwaitDone\<rparr>"]) (simp add: ctl_rank_def)
    next
      case (Cons w rest)
      let ?t = "s\<lparr>ctl_pcs := (ctl_pcs s)(w := entry_pc w), ctl_main := Starting rest\<rparr>"
      have entry: "pc_rank (entry_pc w) = 1" by (simp add: entry_pc_def)
      have "ctl_pcs s w = NotStarted" using assms(1) Starting Cons by (simp add: ctl_inv_def)
      then have "ctl_rank ?t < ctl_rank s"
        using rank_update [where s = s and w = w and pc = "entry_pc w" and m = "Starting rest"] Starting Cons entry by simp
      then show ?thesis using start_worker [of s w rest] Starting Cons assms(2) by (intro exI [of _ ?t]) simp
    qed
  next
    case AwaitDone
    then show ?thesis using main_done assms(2) by (intro exI [of _ "s\<lparr>ctl_main := Joining\<rparr>"]) (simp add: ctl_rank_def)
  next
    case Joining
    then have "\<forall>w. ctl_pcs s w = Finished" using False assms(1) by (auto simp: ctl_inv_def)
    then show ?thesis using main_joined Joining assms(2)
      by (intro exI [of _ "s\<lparr>ctl_main := Returned Canceled\<rparr>"]) (simp add: ctl_rank_def)
  qed (use assms(3) in simp)
qed

lemma shutdown_path:
  "ctl_inv s \<Longrightarrow> ctl_done s \<Longrightarrow> \<exists>n t. n \<le> ctl_rank s \<and> (ctl_step ^^ n) s t \<and> ctl_main t = Returned Canceled"
proof (induction "ctl_rank s" arbitrary: s rule: less_induct)
  case less
  show ?case
  proof (cases "\<exists>e. ctl_main s = Returned e")
    case True
    then have "ctl_main s = Returned Canceled" using less.prems(1) by (auto simp: ctl_inv_def)
    moreover have "(ctl_step ^^ 0) s s" by simp
    ultimately show ?thesis using le0 by blast
  next
    case False
    then obtain t where t: "ctl_step s t" "ctl_done t" "ctl_rank t < ctl_rank s" using shutdown_step less.prems by blast
    then obtain n u where u: "n \<le> ctl_rank t" "(ctl_step ^^ n) t u" "ctl_main u = Returned Canceled"
      using less.hyps [OF t(3) step_ctl_inv [OF t(1) less.prems(1)] t(2)] by blast
    have "(ctl_step ^^ Suc n) s u" using t(1) u(2) by (rule relpowp_Suc_I2)
    moreover have "Suc n \<le> ctl_rank s" using u(1) t(3) by simp
    ultimately show ?thesis using u(3) by blast
  qed
qed

lemma rank_bound:
  assumes "ctl_inv s"
  shows "ctl_rank s \<le> 24"
proof -
  have pc: "pc_rank pc \<le> 2" for pc by (cases pc) simp_all
  have all: "w \<in> set start_order" for w by (cases w) (simp_all add: start_order_def)
  have "length (to_start (ctl_main s)) = card (set (to_start (ctl_main s)))"
    using assms by (simp add: ctl_inv_def distinct_card)
  also have "\<dots> \<le> card (set start_order)" using all by (intro card_mono) auto
  also have "\<dots> \<le> 7" using card_length [of start_order] by (simp add: start_order_def)
  finally have "length (to_start (ctl_main s)) \<le> 7" .
  then have "main_rank (ctl_main s) \<le> 10" by (cases "ctl_main s") simp_all
  then show ?thesis
    using pc [of "ctl_pcs s PresenceWorker"] pc [of "ctl_pcs s PollerWorker"] pc [of "ctl_pcs s UploaderWorker"]
      pc [of "ctl_pcs s StateWorker"] pc [of "ctl_pcs s HeartbeatWorker"] pc [of "ctl_pcs s HostWorker"] pc [of "ctl_pcs s ProbeWorker"]
    by (simp add: ctl_rank_def start_order_def)
qed



end
