(* ===== verification/Agent_Main.thy ===== *)
theory Agent_Main
  imports Agent_Workers Log_File Spool_Open
begin

text \<open>
  The program around the agent: the defaults of the command line and \<open>main\<close>, \<open>runConsole\<close> with its signals
  (\<open>cmd/zeno-agent/main.go\<close>), \<open>runPlatform\<close> of Unix (\<open>service_other.go\<close>) and the Windows service
  (\<open>service_windows.go\<close>) as a state machine on what its \<open>select\<close> receives. The default data directories of
  the platforms are here too.
\<close>

section \<open>Data directories\<close>

definition darwin_defaultAgentDataDir :: string where
  "darwin_defaultAgentDataDir = ''/Library/Application Support/Zeno Agent/data''"

text \<open>\<open>filepath.Join\<close> is the standard library's; the other platforms use it on what the system names.\<close>

definition windows_defaultAgentDataDir :: "(string list \<Rightarrow> string) \<Rightarrow> string \<Rightarrow> string" where
  "windows_defaultAgentDataDir join programData =
     (if programData \<noteq> [] then join [programData, ''Zeno'', ''agent-data'']
      else ''C:'' @ [CHR 0x5C] @ ''ProgramData'' @ [CHR 0x5C] @ ''Zeno'' @ [CHR 0x5C] @ ''agent-data'')"

definition other_defaultAgentDataDir :: "(string list \<Rightarrow> string) \<Rightarrow> string option \<Rightarrow> string \<Rightarrow> string" where
  "other_defaultAgentDataDir join userConfigDir tempDir =
     (case userConfigDir of
        Some d \<Rightarrow> if d \<noteq> [] then join [d, ''zeno-agent''] else join [tempDir, ''zeno-agent'']
      | None \<Rightarrow> join [tempDir, ''zeno-agent''])"

section \<open>The end of a run\<close>

datatype agent_error = ConfigError run_error | SpoolError open_error | ContextErr ctx_err | PlatformError string

text \<open>\<open>errors.Is(err, context.Canceled)\<close>.\<close>

definition is_canceled :: "agent_error \<Rightarrow> bool" where
  "is_canceled e \<longleftrightarrow> e = ContextErr Canceled"

text \<open>What \<open>run\<close> returns; \<open>agent\<close> is the result of \<open>runAgent\<close>.\<close>

definition run_result :: "url_env \<Rightarrow> config \<Rightarrow> (agent_start \<Rightarrow> agent_error option) \<Rightarrow> agent_error option" where
  "run_result env cfg agent =
     (case run env cfg of
        Inl e \<Rightarrow> Some (ConfigError e)
      | Inr None \<Rightarrow> None
      | Inr (Some st) \<Rightarrow> agent st)"

datatype os_signal = Interrupt | SIGTERM

text \<open>
  \<open>outcome\<close>: for the signals that end the context, the result of \<open>run\<close> and whether the context is done when it
  has returned.
\<close>

definition runConsole :: "os_signal list \<Rightarrow> (os_signal list \<Rightarrow> agent_error option \<times> bool) \<Rightarrow> agent_error option" where
  "runConsole shutdownSignals outcome =
     (let signals = (if shutdownSignals = [] then [Interrupt] else shutdownSignals);
          (err, ctx_done) = outcome signals
      in case err of
           Some e \<Rightarrow> if ctx_done \<and> is_canceled e then None else Some e
         | None \<Rightarrow> None)"

definition runPlatform :: "(os_signal list \<Rightarrow> agent_error option \<times> bool) \<Rightarrow> agent_error option" where
  "runPlatform outcome = runConsole [Interrupt, SIGTERM] outcome"

section \<open>Command line and main\<close>

text \<open>The configuration before the flags are parsed; the version is set when the program is built.\<close>

definition flag_defaults :: "string \<Rightarrow> string \<Rightarrow> config" where
  "flag_defaults build_version dataDir =
     \<lparr>cfg_ControllerURL = ''http://127.0.0.1:18980'', cfg_NodeID = ''example-node'', cfg_Token = [], cfg_TokenFile = [],
      cfg_StateInterval = defaultStateInterval, cfg_HeartbeatInterval = defaultHeartbeatInterval,
      cfg_HostInterval = defaultHostInterval, cfg_Once = False, cfg_Version = build_version,
      cfg_IdentityRefreshInterval = defaultIdentityRefreshInterval, cfg_NetworkInterfaces = [], cfg_DiskMounts = [],
      cfg_DataDir = dataDir, cfg_AllowInsecureHTTP = False, cfg_InstallCheck = False, cfg_InstallReceiptFile = [],
      cfg_InstallReceiptNonce = [], cfg_LogFile = []\<rparr>"

datatype fatal = TokenUnreadable | LogFileFatal log_error | RunFatal agent_error

text \<open>
  \<open>main\<close> after \<open>flag.Parse\<close>: the result is the error of \<open>log.Fatal\<close>, and the configuration the platform was run
  with. \<open>file\<close> is the content of the token file, \<open>platform\<close> is \<open>runPlatform\<close>.
\<close>

definition main_program ::
  "config \<Rightarrow> duration \<Rightarrow> string option \<Rightarrow> log_env \<Rightarrow> (config \<Rightarrow> agent_error option) \<Rightarrow> log_fs \<Rightarrow> fatal option \<times> config option \<times> log_fs" where
  "main_program cfg legacyInterval file env platform fs =
     (let cfg1 = (if legacyInterval > 0 then cfg\<lparr>cfg_StateInterval := legacyInterval\<rparr> else cfg) in
      case readToken (cfg_Token cfg1) (cfg_TokenFile cfg1) file of
        None \<Rightarrow> (Some TokenUnreadable, None, fs)
      | Some tok \<Rightarrow>
          let cfg2 = cfg1\<lparr>cfg_Token := tok\<rparr> in
          (case configureLogFile env (cfg_LogFile cfg2) fs of
             (Inl e, fs1) \<Rightarrow> (Some (LogFileFatal e), None, fs1)
           | (Inr _, fs1) \<Rightarrow>
               (case platform cfg2 of
                  Some e \<Rightarrow> (Some (RunFatal e), Some cfg2, fs1)
                | None \<Rightarrow> (None, Some cfg2, fs1))))"

section \<open>The Windows service\<close>

datatype svc_state = StartPending | Running | StopPending | Stopped

datatype svc_accept = AcceptStop | AcceptShutdown

record svc_status =
  ss_State :: svc_state
  ss_Accepts :: "svc_accept list"

datatype svc_cmd = Interrogate | StopCmd | ShutdownCmd | OtherCmd nat

text \<open>What a \<open>select\<close> of \<open>Execute\<close> receives: the result of \<open>run\<close>, a request with the current status, the timer of 20 s.\<close>

datatype svc_event = RunReturned "agent_error option" | Request svc_cmd svc_status | StopTimer

datatype svc_pc = Serving | Stopping | Exited bool nat

record svc_run =
  sv_pc :: svc_pc
  sv_statuses :: "svc_status list"     \<comment> \<open>sent so far, in order\<close>
  sv_cancelled :: bool                 \<comment> \<open>\<open>cancel\<close> was called\<close>

definition plain_status :: "svc_state \<Rightarrow> svc_status" where
  "plain_status st = \<lparr>ss_State = st, ss_Accepts = []\<rparr>"

definition running_status :: svc_status where
  "running_status = \<lparr>ss_State = Running, ss_Accepts = [AcceptStop, AcceptShutdown]\<rparr>"

definition svc_start :: svc_run where
  "svc_start = \<lparr>sv_pc = Serving, sv_statuses = [plain_status StartPending, running_status], sv_cancelled = False\<rparr>"

definition send :: "svc_status \<Rightarrow> svc_run \<Rightarrow> svc_run" where
  "send st s = s\<lparr>sv_statuses := sv_statuses s @ [st]\<rparr>"

definition exit_code :: "agent_error option \<Rightarrow> nat" where
  "exit_code err = (case err of Some e \<Rightarrow> if is_canceled e then 0 else 1 | None \<Rightarrow> 0)"

text \<open>\<open>None\<close>: the event is not received in this state.\<close>

fun Execute_step :: "svc_event \<Rightarrow> svc_run \<Rightarrow> svc_run option" where
  "Execute_step (RunReturned err) s =
     (case sv_pc s of
        Exited _ _ \<Rightarrow> None
      | _ \<Rightarrow> Some ((send (plain_status Stopped) s)\<lparr>sv_pc := Exited False (exit_code err)\<rparr>))"
| "Execute_step (Request cmd current) s =
     (case sv_pc s of
        Serving \<Rightarrow>
          (case cmd of
             Interrogate \<Rightarrow> Some (send current s)
           | OtherCmd _ \<Rightarrow> Some s
           | _ \<Rightarrow> Some ((send (plain_status StopPending) s)\<lparr>sv_cancelled := True, sv_pc := Stopping\<rparr>))
      | _ \<Rightarrow> None)"
| "Execute_step StopTimer s =
     (case sv_pc s of
        Stopping \<Rightarrow> Some ((send (plain_status Stopped) s)\<lparr>sv_pc := Exited False 1\<rparr>)
      | _ \<Rightarrow> None)"

fun Execute_run :: "svc_event list \<Rightarrow> svc_run \<Rightarrow> svc_run option" where
  "Execute_run [] s = Some s"
| "Execute_run (e # es) s = (case Execute_step e s of None \<Rightarrow> None | Some s' \<Rightarrow> Execute_run es s')"

definition Execute :: "svc_event list \<Rightarrow> svc_run option" where
  "Execute events = Execute_run events svc_start"

text \<open>\<open>svc.IsWindowsService\<close> and \<open>svc.Run\<close> are a library; the latter is given the service and returns an error or nil.\<close>

definition windows_runPlatform ::
  "string + bool \<Rightarrow> agent_error option \<Rightarrow> (os_signal list \<Rightarrow> agent_error option \<times> bool) \<Rightarrow> agent_error option" where
  "windows_runPlatform isService svcRun outcome =
     (case isService of
        Inl e \<Rightarrow> Some (PlatformError e)
      | Inr True \<Rightarrow> svcRun
      | Inr False \<Rightarrow> runConsole [] outcome)"

section \<open>The life of the service\<close>

text \<open>
  The library hands \<open>Execute\<close> with every request the status it was sent last (\<open>svc.ChangeRequest.CurrentStatus\<close>);
  this is what an interrogation is answered with.
\<close>

fun echoes :: "svc_event list \<Rightarrow> svc_run \<Rightarrow> bool" where
  "echoes [] s \<longleftrightarrow> True"
| "echoes (e # es) s \<longleftrightarrow>
     (case e of Request cmd current \<Rightarrow> current = last (sv_statuses s) | _ \<Rightarrow> True) \<and>
     (case Execute_step e s of None \<Rightarrow> True | Some s' \<Rightarrow> echoes es s')"

text \<open>The statuses without repetitions, by the state of the service.\<close>

fun life :: "svc_pc \<Rightarrow> bool \<Rightarrow> svc_status list" where
  "life Serving cancelled = [plain_status StartPending, running_status]"
| "life Stopping cancelled = [plain_status StartPending, running_status, plain_status StopPending]"
| "life (Exited specific code) cancelled =
     [plain_status StartPending, running_status] @ (if cancelled then [plain_status StopPending] else []) @ [plain_status Stopped]"

definition svc_inv :: "svc_run \<Rightarrow> bool" where
  "svc_inv s \<longleftrightarrow> remdups_adj (sv_statuses s) = life (sv_pc s) (sv_cancelled s) \<and>
     (case sv_pc s of Serving \<Rightarrow> \<not> sv_cancelled s | Stopping \<Rightarrow> sv_cancelled s | Exited specific code \<Rightarrow> \<not> specific)"

lemma remdups_adj_snoc:
  "xs \<noteq> [] \<Longrightarrow> remdups_adj (xs @ [x]) = (if x = last xs then remdups_adj xs else remdups_adj xs @ [x])"
  by (cases xs rule: rev_cases) (auto simp: remdups_adj_append_two)

lemma send_frame [simp]: "sv_pc (send st s) = sv_pc s" "sv_cancelled (send st s) = sv_cancelled s"
  by (simp_all add: send_def)

lemma send_life:
  assumes "remdups_adj (sv_statuses s) = life pc c"
  shows "remdups_adj (sv_statuses (send st s)) = (if st = last (life pc c) then life pc c else life pc c @ [st])"
proof -
  have "sv_statuses s \<noteq> []" using assms by (cases pc) auto
  then show ?thesis using remdups_adj_snoc [of "sv_statuses s" st] last_remdups_adj [of "sv_statuses s"] assms
    by (simp add: send_def)
qed

lemma status_neq [simp]:
  "plain_status a = plain_status b \<longleftrightarrow> a = b" "plain_status a \<noteq> running_status" "running_status \<noteq> plain_status a"
  by (simp_all add: plain_status_def running_status_def)

lemma Execute_step_inv:
  assumes "Execute_step e s = Some s'" "svc_inv s" "case e of Request cmd current \<Rightarrow> current = last (sv_statuses s) | _ \<Rightarrow> True"
  shows "svc_inv s'"
proof -
  have l: "last (sv_statuses s) = last (life (sv_pc s) (sv_cancelled s))"
    using assms(2) last_remdups_adj [of "sv_statuses s"] by (simp add: svc_inv_def)
  have r: "remdups_adj (sv_statuses s) = life (sv_pc s) (sv_cancelled s)" using assms(2) by (simp add: svc_inv_def)
  show ?thesis
  proof (cases "sv_pc s")
    case Serving
    then show ?thesis using assms l send_life [OF r]
      by (cases e) (auto simp: svc_inv_def split: svc_cmd.splits)
  next
    case Stopping
    then show ?thesis using assms send_life [OF r] by (cases e) (auto simp: svc_inv_def)
  next
    case (Exited specific code)
    then show ?thesis using assms by (cases e) auto
  qed
qed

lemma Execute_run_inv: "Execute_run es s = Some t \<Longrightarrow> svc_inv s \<Longrightarrow> echoes es s \<Longrightarrow> svc_inv t"
proof (induction es arbitrary: s)
  case (Cons e es)
  then obtain s' where s': "Execute_step e s = Some s'" "Execute_run es s' = Some t" by (auto split: option.splits)
  then have "svc_inv s'" using Cons.prems by (intro Execute_step_inv [OF s'(1)]) simp_all
  then show ?case using Cons.IH [OF s'(2)] Cons.prems(3) s'(1) by simp
qed simp

text \<open>The exit code tells how \<open>run\<close> ended.\<close>

lemma Execute_run_code:
  "Execute_run es s = Some t \<Longrightarrow> sv_pc t = Exited sp code \<Longrightarrow> sv_pc s \<in> {Serving, Stopping} \<Longrightarrow>
   (\<exists>err. RunReturned err \<in> set es \<and> code = exit_code err) \<or> StopTimer \<in> set es \<and> (\<forall>err. RunReturned err \<notin> set es) \<and> code = 1"
proof (induction es arbitrary: s)
  case (Cons e es)
  then obtain s' where s': "Execute_step e s = Some s'" "Execute_run es s' = Some t" by (auto split: option.splits)
  have stuck: "es = []" if "sv_pc s' \<notin> {Serving, Stopping}"
    using that s'(2) by (cases es; cases "hd es"; cases "sv_pc s'") auto
  show ?case
  proof (cases "sv_pc s' \<notin> {Serving, Stopping}")
    case True
    then have "es = []" "t = s'" using stuck s'(2) by auto
    then show ?thesis using Cons.prems s'(1) by (cases e) (auto split: svc_pc.splits svc_cmd.splits simp: send_def)
  next
    case False
    then have IH: "(\<exists>err. RunReturned err \<in> set es \<and> code = exit_code err) \<or>
        StopTimer \<in> set es \<and> (\<forall>err. RunReturned err \<notin> set es) \<and> code = 1"
      using Cons.IH [OF s'(2) Cons.prems(2)] by auto
    have "\<forall>err. e \<noteq> RunReturned err" using False s'(1) by (auto split: svc_pc.splits)
    then show ?thesis using IH by auto
  qed
qed simp

lemma returned_once:
  "Execute_run es s = Some t \<Longrightarrow> RunReturned err \<in> set es \<Longrightarrow> RunReturned err' \<in> set es \<Longrightarrow> err = err'"
proof (induction es arbitrary: s)
  case (Cons e es)
  then obtain s' where s': "Execute_step e s = Some s'" "Execute_run es s' = Some t" by (auto split: option.splits)
  have stuck: "es = []" if "sv_pc s' \<notin> {Serving, Stopping}"
    using that s'(2) by (cases es; cases "hd es"; cases "sv_pc s'") auto
  show ?case
  proof (cases "\<exists>x. e = RunReturned x")
    case True
    then have "sv_pc s' \<notin> {Serving, Stopping}" using s'(1) by (auto split: svc_pc.splits)
    then have "es = []" by (rule stuck)
    then show ?thesis using Cons.prems by auto
  next
    case False
    then show ?thesis using Cons.IH [OF s'(2)] Cons.prems by auto
  qed
qed simp

text \<open>C14: The service control manager sees an orderly life: leaving repetitions aside, the service reports start
  pending, running, stop pending exactly if it was told to stop, and stopped last, once it exits. A service that was told to
  stop exits with the next thing it receives. The exit code is 0 exactly if the agent returned nil or
  \<open>context.Canceled\<close>; otherwise it is 1, also when the agent does not return within the twenty seconds.\<close>

theorem service_lifecycle:
  assumes "Execute events = Some s" "echoes events svc_start"
  shows "remdups_adj (sv_statuses s) = life (sv_pc s) (sv_cancelled s) \<and>
    (sv_pc s = Stopping \<longrightarrow> (\<forall>e s'. Execute_step e s = Some s' \<longrightarrow> (\<exists>code. sv_pc s' = Exited False code))) \<and>
    (sv_pc s = Exited specific code \<longrightarrow> \<not> specific \<and>
      (code = 0 \<longleftrightarrow> (\<exists>err. RunReturned err \<in> set events \<and> exit_code err = 0)) \<and> code \<le> 1)"
proof -
  have run: "Execute_run events svc_start = Some s" using assms(1) by (simp add: Execute_def)
  have "svc_inv svc_start" by (simp add: svc_inv_def svc_start_def)
  then have inv: "svc_inv s" using Execute_run_inv [OF run _ assms(2)] by blast
  have "\<exists>code. sv_pc s' = Exited False code" if "sv_pc s = Stopping" "Execute_step e s = Some s'" for e s'
    using that by (cases e) auto
  moreover have "(code = 0 \<longleftrightarrow> (\<exists>err. RunReturned err \<in> set events \<and> exit_code err = 0)) \<and> code \<le> 1"
    if pc: "sv_pc s = Exited specific code"
  proof -
    have "exit_code err \<le> 1" for err by (simp add: exit_code_def split: option.split)
    moreover have "err = err'" if "RunReturned err \<in> set events" "RunReturned err' \<in> set events" for err err'
      using returned_once [OF run] that by blast
    ultimately show ?thesis using Execute_run_code [OF run pc] by (auto simp: svc_start_def)
  qed
  ultimately show ?thesis using inv by (auto simp: svc_inv_def)
qed

theorem service_lifecycle_witness:
  "\<exists>s. Execute [Request Interrogate running_status, Request StopCmd running_status, RunReturned (Some (ContextErr Canceled))] = Some s \<and>
     sv_pc s = Exited False 0 \<and>
     remdups_adj (sv_statuses s) = [plain_status StartPending, running_status, plain_status StopPending, plain_status Stopped]"
proof -
  let ?es = "[Request Interrogate running_status, Request StopCmd running_status, RunReturned (Some (ContextErr Canceled))]"
  obtain s where s: "Execute ?es = Some s" "sv_pc s = Exited False 0" "sv_cancelled s"
    by (simp add: Execute_def svc_start_def exit_code_def is_canceled_def)
  have "echoes ?es svc_start" by (simp add: svc_start_def send_def)
  from service_lifecycle [OF s(1) this, of False 0] show ?thesis using s by simp
qed

text \<open>A stop is a success. When the agent has run until its context was cancelled, by a signal or by the service
  control manager, the console program ends without an error and the service with exit code 0.\<close>

theorem clean_stop:
  assumes "run env cfg = Inr (Some st)" "ctl_reachable s" "ctl_main s = Returned e"
  shows "runPlatform (\<lambda>_. (run_result env cfg (\<lambda>_. Some (ContextErr e)), ctl_done s)) = None \<and>
    windows_runPlatform (Inr False) err (\<lambda>_. (run_result env cfg (\<lambda>_. Some (ContextErr e)), ctl_done s)) = None \<and>
    exit_code (run_result env cfg (\<lambda>_. Some (ContextErr e))) = 0"
proof -
  have "ctl_done s" "e = Canceled" using reachable_ctl_inv [OF assms(2)] assms(3) by (auto simp: ctl_inv_def)
  moreover have "run_result env cfg (\<lambda>_. Some (ContextErr e)) = Some (ContextErr e)" using assms(1) by (simp add: run_result_def)
  ultimately show ?thesis
    by (simp add: runPlatform_def windows_runPlatform_def runConsole_def exit_code_def is_canceled_def)
qed

theorem clean_stop_witness:
  "\<exists>s. ctl_reachable s \<and> ctl_main s = Returned Canceled \<and>
     runPlatform (\<lambda>_. (run_result (url_env.truncate plain_env) example_cfg (\<lambda>_. Some (ContextErr Canceled)), ctl_done s)) = None"
proof -
  obtain st where st: "run (url_env.truncate plain_env) example_cfg = Inr (Some st)" using example_cfg_runs by blast
  have "ctl_step init_ctl (init_ctl\<lparr>ctl_done := True\<rparr>)" by (rule cancel) (simp add: init_ctl_def)
  then have start: "ctl_reachable (init_ctl\<lparr>ctl_done := True\<rparr>)" by (rule ctl_next [OF ctl_init])
  have reach: "ctl_reachable t" if "(ctl_step ^^ n) u t" "ctl_reachable u" for n t u
    using that by (induction n arbitrary: t) (auto intro: ctl_next)
  obtain n t where t: "(ctl_step ^^ n) (init_ctl\<lparr>ctl_done := True\<rparr>) t" "ctl_main t = Returned Canceled"
    using shutdown_path [OF reachable_ctl_inv [OF start]] by auto
  have "ctl_reachable t" by (rule reach [OF t(1) start])
  then show ?thesis using clean_stop [OF st _ t(2)] t(2) by blast
qed

text \<open>The obsolete flag \<open>-interval\<close> sets the state interval when it is positive, and nothing runs without a readable token file and log file.\<close>

lemma main_runs_platform:
  assumes "main_program cfg legacyInterval file env platform fs = (err, Some cfg', fs')"
  shows "cfg_StateInterval cfg' = (if legacyInterval > 0 then legacyInterval else cfg_StateInterval cfg) \<and>
    readToken (cfg_Token cfg) (cfg_TokenFile cfg) file = Some (cfg_Token cfg') \<and> \<not> isl (fst (configureLogFile env (cfg_LogFile cfg) fs)) \<and>
    err = map_option RunFatal (platform cfg')"
  using assms by (auto simp: main_program_def Let_def split: option.splits prod.splits sum.splits if_splits)

end
