(* ===== verification/Spec2Isabelle.thy ===== *)
theory Spec2Isabelle
  imports Agent_Prelude Probe_Cycle Upload_Settle Agent_Client Presence Install_Receipt Metrics_System
    Metrics_Collector Network_Identity Agent_Reports Agent_Config Ip_Table Darwin_Parse Disk_Usage Spool_Refinement
    Spool_Open Agent_Once Log_File Windows_Metrics Darwin_Metrics Go_Float Ping_Latency Float_Readers Http_Clients
    Platform_Readers Upload_Errors Windows_Spool Agent_System Agent_Workers Agent_Main
begin

text \<open>
  A model of the Zeno agent (Go, \<open>src/cmd/zeno-agent\<close> and \<open>src/internal/agent\<close>) and the theorems that make
  it correct. The agent runs on a monitored node. It reports heartbeat, host data and state samples to a
  Controller, keeps a presence websocket, fetches a versioned list of probe targets, probes them within a
  budget and away from internal addresses, writes every finished batch to a durable spool on disk and uploads
  the spool with retries.

  \<^bold>\<open>How the program is modelled.\<close> Strings are byte lists; \<open>time.Time\<close> and \<open>time.Duration\<close> are integers of
  nanoseconds, with the wrap-around of \<open>UnixNano\<close>, of \<open>Time.Sub\<close> and of int64 sums written out
  (\<open>wrap64\<close>); uint32 and uint64 are words where the code relies on their width; a float64 that is parsed is
  the nearest one of its format (\<open>Go_Float\<close>), computed float64 results are exact rationals. Errors are values of a sum type. A loop is a recursive function with a termination proof; a loop
  that only ends when its context is cancelled takes the list of its turns (clock readings, events, answers
  of the network), so that a theorem for every list is a theorem for every run of every length. State is
  passed explicitly. No fuel is used. Code outside the repository is an argument of the definitions:
  \<open>encoding/json\<close> and SHA-256 (records \<open>codec\<close>, \<open>report_codec\<close>, law \<open>codec_ok\<close>, satisfied by the codec of
  \<open>Example_Codec\<close>), \<open>url.Parse\<close> and \<open>netip.ParseAddr\<close> (record \<open>url_env\<close>), DNS, sockets, the ping utility,
  the websocket package, system files and system calls (the \<open>_env\<close> and \<open>_world\<close> records). Where the code
  switches on \<open>runtime.GOOS\<close> the branches are modelled apart and composed in \<open>Platform_Readers\<close>.

  \<^bold>\<open>Shared theories.\<close> \<open>Agent_Prelude\<close> (int64, time, the text functions of Go with their white space and case
  rules, hexadecimal and decimal output), \<open>Go_Strconv\<close> (\<open>ParseUint\<close>, \<open>ParseInt\<close>, \<open>Atoi\<close>), \<open>Go_Float\<close>
  (\<open>ParseFloat\<close>, rounding to the nearest float64, conversion to int64), \<open>Go_Text\<close>
  (\<open>Fields\<close>, \<open>Split\<close>, \<open>Cut\<close>, \<open>Trim\<close>, \<open>bufio.Scanner\<close>), \<open>Go_URL\<close>, \<open>Net_Address\<close> (\<open>net/netip\<close>) and
  \<open>Backoff\<close> (locale \<open>capped_doubling\<close>, interpreted by the upload and the presence back-off).

  \<^bold>\<open>Probing\<close> (\<open>probe.go\<close>, \<open>probe_scheduler.go\<close>). \<open>Probe_Target\<close>: \<open>SanitizeProbeTargets\<close>,
  \<open>LimitProbeTargetsForRun\<close>, the timeouts; whatever the Controller sends, a run stays within 32 targets, 1024
  samples and 120 s. \<open>Probe_Scheduler\<close>: \<open>Due\<close>, \<open>MarkCompleted\<close>, behind the locale \<open>probe_schedule\<close>.
  \<open>Safe_Resolver\<close>: the blocked address ranges, DNS answers, the pinning cache and the dialers; the guard
  accepts exactly the addresses outside the ranges and no other address is dialled. \<open>Probe_Http\<close>: probed URLs
  and redirects. \<open>Http_Clients\<close>: the HTTP client of the probes with its dialer and redirect hook, run over requests and
  redirects, so that no probe leaves the guarded addresses; and the client of the Controller, which follows no redirect.
  \<open>Ping_Latency\<close>: the latency in the output of \<open>ping\<close>. \<open>Probe_Run\<close>: the TCP, ping and HTTP sample loops and \<open>ProbeTargets\<close>; every target gets its
  full series. \<open>Probe_Round\<close>: rounds and the common version of a batch.

  \<^bold>\<open>Configuration\<close> (\<open>main.go\<close>). \<open>Target_Manager\<close>: \<open>probeTargetManager\<close> with versions, generation, gates,
  \<open>refreshProbeTargets\<close>. \<open>Manager_Steps\<close>: all interleavings of any number of refreshers and runners as an
  inductive step relation; in every reachable state at most one of each holds its gate, batches carry one
  version, answers name a version in force. \<open>Probe_Cycle\<close>: \<open>runDueProbes\<close>, which composes manager, probes and
  spool; completion is recorded only after persistence.

  \<^bold>\<open>Spool\<close> (\<open>probe_spool.go\<close>, \<open>probe_spool_fs_unix.go\<close>). \<open>Spool_Dir\<close>: directories (locale \<open>directory\<close>).
  \<open>Probe_Spool\<close>: every method, on two directories and a script of system-call failures. \<open>Spool_Hoare\<close>: a
  program logic over that script. \<open>Spool_Invariants\<close>: the locales \<open>spool_invariant\<close> and
  \<open>spool_invariant_writes\<close>, what an invariant has to survive; \<open>Spool_Bounds\<close> interprets them with the bounds
  on both directories. \<open>Spool_Contents\<close>: what \<open>Enqueue\<close>, \<open>ScheduleRetry\<close> and \<open>Next\<close> store and return.
  \<open>Spool_Durability\<close>: the locale \<open>quiet_invariant\<close> and items that survive. \<open>Spool_Refinement\<close>: the spool
  refines an abstract queue of named envelopes (locale \<open>simulation\<close>). \<open>Spool_Open\<close>: \<open>NewProbeSpool\<close> and its
  private directories. \<open>Windows_Spool\<close>: the file-system helpers of Windows; a prepared directory is private and no
  reparse point. \<open>Spool_Properties\<close>: the properties and concrete runs.

  \<^bold>\<open>Controller\<close> (\<open>client.go\<close>, \<open>probe_uploader.go\<close>, \<open>presence.go\<close>). \<open>Agent_Client\<close>: URL rules and \<open>doJSON\<close>
  with the requests it sends; the token leaves only over a permitted transport. \<open>Probe_Uploader\<close> and
  \<open>Upload_Settle\<close>: back-off, \<open>Retry-After\<close>, \<open>uploadOne\<close> and the run loop; one upload never drops a batch
  without an answer to exactly its bytes. \<open>Upload_Errors\<close>: error values with their texts and chains; an error carries the status
  of an answer and nothing else of it. \<open>Presence\<close>: the reconnect loop and the acknowledgements.

  \<^bold>\<open>Reporting\<close> (\<open>metrics.go\<close>, \<open>state_sample_id.go\<close>, \<open>memory_unix.go\<close>, \<open>disk_usage_unix.go\<close>,
  \<open>network_identity.go\<close>, \<open>install_receipt.go\<close>, \<open>main.go\<close>). \<open>Metrics_Parse\<close> and \<open>Metrics_System\<close>: the readers
  of \<open>/proc\<close>; the network totals are exact sums. \<open>State_Sample\<close> and \<open>Metrics_Collector\<close>: samples over any
  sequence of readings and failed readings. \<open>Disk_Usage\<close>: the mount table. \<open>Network_Identity\<close>: providers,
  redirects, the cache. \<open>Install_Receipt\<close> and \<open>Agent_Reports\<close>: the three reports and the receipt, which means
  that heartbeat and state were accepted. \<open>Agent_Config\<close>: the command line checks and \<open>run\<close>. \<open>Log_File\<close>: the log
  writer under rotation. \<open>Darwin_Parse\<close> and \<open>Darwin_Metrics\<close>: macOS command output, streamed tables, memory and
  disks. \<open>Ip_Table\<close> and \<open>Windows_Metrics\<close>: the Windows connection tables, interfaces, drives and registry texts.
  \<open>Float_Readers\<close>: load averages, uptime and swap usage, which go through float64. \<open>Platform_Readers\<close>: the readers
  and stubs of each build behind the switch on the operating system; the locale \<open>metrics_source\<close> says what the
  collector needs, and all three systems provide it, so that every sample is in range.

  \<^bold>\<open>Whole runs.\<close> \<open>Agent_Once\<close>: \<open>runAgent\<close> with \<open>-once\<close>, which opens the spool, reports, refreshes, probes, persists
  and uploads; a batch it records as completed is never lost on the way to the Controller. \<open>Agent_System\<close>: the running
  agent as an inductive step relation in which refreshers, probe runs and the uploader interleave on one manager and one
  spool; it joins \<open>Manager_Steps\<close> and the queue of \<open>Spool_Refinement\<close>, and no interleaving loses a batch.
  \<open>Agent_Workers\<close>: the loops of the seven workers (locale \<open>worker_invariant\<close>, interpreted by the poller and the probe
  loop), and start and shutdown as a step relation; the agent returns after its workers and only when its context is done.
  \<open>Agent_Main\<close>: \<open>main\<close>, the console run, the data directories and the Windows service.

  \<^bold>\<open>Not modelled.\<close> The flag package (the defaults and what follows \<open>flag.Parse\<close> are), the delivery of signals, the
  scheduler of goroutines beyond the interleavings above, and logging other than the log file. The procedures that
  \<open>windows_api.go\<close> loads, system calls and registry reads are inputs of the definitions. A step relation takes the
  critical section of a mutex as one step. The shell and PowerShell installers are not Go code.
\<close>

end
